theory Spec2Isabelle
  imports Complex_Main
begin

section \<open>The pantry simulation (simulation.py) as a shallow embedding\<close>

text \<open>
  Conventions of the embedding.
  \<^item> Python floats are read as exact reals (\<open>real\<close>); Python's unbounded ints are
    \<open>int\<close>. Every statement below about masses is a statement of exact arithmetic.
  \<^item> Python objects that are mutated through several references (the \<open>FoodItem\<close>s a
    pantry holds, which a selection list also points to) live in an explicit store: a
    list of \<open>FoodItem\<close> records, an address being an index into it. A pantry's category
    lists hold addresses. Allocation appends to the store.
  \<^item> An exception is a value \<open>Inl e\<close> of the result type \<open>error + 'a\<close>.
  \<^item> The process-wide random source is an explicit state, threaded through every
    function that draws from it.
\<close>

subsection \<open>FoodType and FoodItem\<close>

datatype FoodType = LEFTOVER | PERISHABLE | NON_PERISHABLE

datatype error = ValueError | AttributeError | IndexError | KeyError

record FoodItem =
  name :: string
  food_type :: FoodType
  best_before :: int
  spoilage_date :: int
  quantity :: real

definition EMERGENCY_TAKEOUT :: string where
  "EMERGENCY_TAKEOUT = ''Emergency Takeout''"

text \<open>\<open>FoodItem.__init__\<close>: the only validation is \<open>best_before > spoilage_date\<close>.\<close>

definition FoodItem_init :: "string \<Rightarrow> FoodType \<Rightarrow> int \<Rightarrow> int \<Rightarrow> real \<Rightarrow> error + FoodItem" where
  "FoodItem_init n t bb sd q =
     (if bb > sd then Inl ValueError
      else Inr \<lparr>name = n, food_type = t, best_before = bb, spoilage_date = sd, quantity = q\<rparr>)"

text \<open>\<open>FoodItem.consume\<close>: raises when asked for more than there is.\<close>

definition FoodItem_consume :: "FoodItem \<Rightarrow> real \<Rightarrow> error + FoodItem" where
  "FoodItem_consume item amount =
     (if amount > quantity item then Inl ValueError
      else Inr (item\<lparr>quantity := quantity item - amount\<rparr>))"

text \<open>\<open>FoodItem.day_passes\<close>: two independent guarded decrements.\<close>

definition day_passes :: "FoodItem \<Rightarrow> FoodItem" where
  "day_passes item =
     (let item1 = (if best_before item > 0 then item\<lparr>best_before := best_before item - 1\<rparr> else item)
      in (if spoilage_date item1 > 0 then item1\<lparr>spoilage_date := spoilage_date item1 - 1\<rparr> else item1))"

definition is_past_best_before :: "FoodItem \<Rightarrow> bool" where
  "is_past_best_before item = (best_before item \<le> 0)"

definition is_expired :: "FoodItem \<Rightarrow> bool" where
  "is_expired item = (spoilage_date item \<le> 0)"

subsection \<open>The store, the pantry and its daily step\<close>

text \<open>
  The store of \<open>FoodItem\<close> objects. A reference is an index; every reference the
  program holds points at an allocated object, so a read \<open>h ! a\<close> below always has
  \<open>a < length h\<close> on the states the theorems speak about (\<open>pantry_wf\<close>).
\<close>

type_synonym ref = nat

type_synonym heap = "FoodItem list"

definition alloc :: "heap \<Rightarrow> FoodItem \<Rightarrow> ref \<times> heap" where
  "alloc h item = (length h, h @ [item])"

definition FoodTypes :: "FoodType list" where
  "FoodTypes = [LEFTOVER, PERISHABLE, NON_PERISHABLE]"

text \<open>
  A \<open>PantryStrategy\<close> is its \<open>should_discard\<close> method; the two variants of the source are
  \<open>StrictStrategy\<close> and \<open>LaxStrategy\<close>.
\<close>

type_synonym PantryStrategy = "FoodItem \<Rightarrow> bool"

definition StrictStrategy :: PantryStrategy where
  "StrictStrategy item = is_past_best_before item"

definition LaxStrategy :: PantryStrategy where
  "LaxStrategy item = is_expired item"

text \<open>
  \<open>Pantry\<close>: the dict \<open>items_by_type\<close> always has exactly the three keys, so it is a total
  function; \<open>waste_log\<close> is its two inner dicts, from day number to the per-category weights.
\<close>

record Pantry =
  items_by_type :: "FoodType \<Rightarrow> ref list"
  strategy_discards :: "nat \<rightharpoonup> (FoodType \<Rightarrow> real)"
  expired_discards :: "nat \<rightharpoonup> (FoodType \<Rightarrow> real)"
  current_day :: nat

definition Pantry_init :: Pantry where
  "Pantry_init = \<lparr>items_by_type = (\<lambda>_. []), strategy_discards = Map.empty,
      expired_discards = Map.empty, current_day = 0\<rparr>"

text \<open>\<open>Pantry.add_item\<close>: append, then a stable sort by \<open>spoilage_date\<close>.\<close>

definition add_item :: "heap \<Rightarrow> Pantry \<Rightarrow> ref \<Rightarrow> Pantry" where
  "add_item h p a =
     p\<lparr>items_by_type := (items_by_type p)
         (food_type (h ! a) := sort_key (\<lambda>x. spoilage_date (h ! x)) (items_by_type p (food_type (h ! a)) @ [a]))\<rparr>"

text \<open>
  \<open>Pantry.step\<close>. The local variables of the classification loop are the record \<open>tally\<close>;
  \<open>step_item\<close> is the body of the inner loop, \<open>remove_items\<close> the final removal loop
  (\<open>list.remove\<close> raises \<open>ValueError\<close> when the element is absent).
\<close>

record tally =
  expired_items :: "ref list"
  strategy_discarded_items :: "ref list"
  empty_items :: "ref list"
  weights_expired :: "FoodType \<Rightarrow> real"
  weights_strategy_discarded :: "FoodType \<Rightarrow> real"

definition tally_init :: tally where
  "tally_init = \<lparr>expired_items = [], strategy_discarded_items = [], empty_items = [],
      weights_expired = (\<lambda>_. 0), weights_strategy_discarded = (\<lambda>_. 0)\<rparr>"

fun step_item :: "PantryStrategy \<Rightarrow> ref \<Rightarrow> heap \<times> tally \<Rightarrow> heap \<times> tally" where
  "step_item strategy a (h, t) =
       (let item = day_passes (h ! a); h' = h[a := item] in
        if quantity item \<le> 0.001 then (h', t\<lparr>empty_items := empty_items t @ [a]\<rparr>)
        else if is_expired item then
          (h', t\<lparr>expired_items := expired_items t @ [a],
                 weights_expired := (weights_expired t)
                    (food_type item := weights_expired t (food_type item) + quantity item)\<rparr>)
        else if strategy item then
          (h', t\<lparr>strategy_discarded_items := strategy_discarded_items t @ [a],
                 weights_strategy_discarded := (weights_strategy_discarded t)
                    (food_type item := weights_strategy_discarded t (food_type item) + quantity item)\<rparr>)
        else (h', t))"

definition list_remove :: "ref \<Rightarrow> ref list \<Rightarrow> error + ref list" where
  "list_remove a xs = (if a \<in> set xs then Inr (remove1 a xs) else Inl ValueError)"

fun remove_items :: "heap \<Rightarrow> ref list \<Rightarrow> Pantry \<Rightarrow> error + Pantry" where
  "remove_items h [] p = Inr p"
| "remove_items h (a # as) p =
     (case list_remove a (items_by_type p (food_type (h ! a))) of
        Inl e \<Rightarrow> Inl e
      | Inr xs \<Rightarrow> remove_items h as (p\<lparr>items_by_type := (items_by_type p)(food_type (h ! a) := xs)\<rparr>))"

definition Pantry_step :: "PantryStrategy \<Rightarrow> heap \<Rightarrow> Pantry \<Rightarrow> error + heap \<times> Pantry" where
  "Pantry_step strategy h p =
       (let p1 = p\<lparr>current_day := current_day p + 1\<rparr>;
            (h', t) = fold (\<lambda>food_list. fold (step_item strategy) food_list)
                        (map (items_by_type p1) FoodTypes) (h, tally_init);
            p2 = p1\<lparr>expired_discards := (expired_discards p1)(current_day p1 := Some (weights_expired t))\<rparr>;
            p3 = p2\<lparr>strategy_discards := (strategy_discards p2)(current_day p2 := Some (weights_strategy_discarded t))\<rparr>
        in case remove_items h' (expired_items t @ strategy_discarded_items t @ empty_items t) p3 of
             Inl e \<Rightarrow> Inl e
           | Inr p4 \<Rightarrow> Inr (h', p4))"

text \<open>The read-only accessors of \<open>Pantry\<close>.\<close>

definition get_total_by_type :: "heap \<Rightarrow> Pantry \<Rightarrow> FoodType \<Rightarrow> real" where
  "get_total_by_type h p t = sum_list (map (\<lambda>a. quantity (h ! a)) (items_by_type p t))"

definition get_items_by_type :: "Pantry \<Rightarrow> FoodType \<Rightarrow> ref list" where
  "get_items_by_type p t = items_by_type p t"

text \<open>All stored references, in the iteration order of \<open>items_by_type.values()\<close>.\<close>

definition all_items :: "Pantry \<Rightarrow> ref list" where
  "all_items p = concat (map (items_by_type p) FoodTypes)"

definition get_total :: "heap \<Rightarrow> Pantry \<Rightarrow> real" where
  "get_total h p = sum_list (map (\<lambda>a. quantity (h ! a)) (all_items p))"

text \<open>\<open>sum(d.values())\<close> for a dict keyed by the three food types.\<close>

definition sum_values :: "(FoodType \<Rightarrow> real) \<Rightarrow> real" where
  "sum_values d = sum_list (map d FoodTypes)"

text \<open>
  The data-model invariant of a pantry: every stored reference is allocated, filed under
  its own \<open>food_type\<close> (what \<open>add_item\<close> does), and stored once.
\<close>

definition pantry_wf :: "heap \<Rightarrow> Pantry \<Rightarrow> bool" where
  "pantry_wf h p \<longleftrightarrow>
     distinct (all_items p) \<and>
     (\<forall>t. \<forall>a \<in> set (items_by_type p t). a < length h \<and> food_type (h ! a) = t)"

text \<open>
  The three reasons for which \<open>Pantry.step\<close> removes an item, as predicates on the aged
  item, in the order the source tests them; and the total mass of a list of references.
\<close>

definition cls_empty :: "FoodItem \<Rightarrow> bool" where
  "cls_empty item = (quantity item \<le> 0.001)"

definition cls_expired :: "FoodItem \<Rightarrow> bool" where
  "cls_expired item = (\<not> quantity item \<le> 0.001 \<and> is_expired item)"

definition cls_discarded :: "PantryStrategy \<Rightarrow> FoodItem \<Rightarrow> bool" where
  "cls_discarded strategy item = (\<not> quantity item \<le> 0.001 \<and> \<not> is_expired item \<and> strategy item)"

definition mass_of :: "heap \<Rightarrow> ref list \<Rightarrow> real" where
  "mass_of h as = sum_list (map (\<lambda>a. quantity (h ! a)) as)"

text \<open>The references that were stored in \<open>p\<close> and are no longer stored in \<open>p'\<close>.\<close>

definition removed_items :: "Pantry \<Rightarrow> Pantry \<Rightarrow> ref list" where
  "removed_items p p' = filter (\<lambda>a. a \<notin> set (all_items p')) (all_items p)"

subsection \<open>The random source\<close>

text \<open>
  The state of Python's \<open>random\<close> module: what the next calls will return, as three
  tapes with a read position each. \<open>uniform_tape\<close> holds the results of
  \<open>random.random()\<close> (each in \<open>[0, 1)\<close>, see \<open>uniform_ok\<close>), \<open>normal_tape\<close> the standard normal
  variates behind \<open>random.gauss\<close>, \<open>choice_tape\<close> the raw integers behind
  \<open>random.choice\<close>. \<open>random.uniform(a, b)\<close> is \<open>a + (b - a) * random()\<close> and
  \<open>random.gauss(mu, sigma)\<close> is \<open>mu + z * sigma\<close>, as in the library. \<open>random.choice\<close> is only
  called on a non-empty list.
\<close>

record Random =
  uniform_tape :: "nat \<Rightarrow> real"
  uniform_pos :: nat
  normal_tape :: "nat \<Rightarrow> real"
  normal_pos :: nat
  choice_tape :: "nat \<Rightarrow> nat"
  choice_pos :: nat

definition random_random :: "Random \<Rightarrow> real \<times> Random" where
  "random_random rng = (uniform_tape rng (uniform_pos rng), rng\<lparr>uniform_pos := uniform_pos rng + 1\<rparr>)"

definition random_uniform :: "real \<Rightarrow> real \<Rightarrow> Random \<Rightarrow> real \<times> Random" where
  "random_uniform a b rng = (case random_random rng of (u, rng') \<Rightarrow> (a + (b - a) * u, rng'))"

definition random_gauss :: "real \<Rightarrow> real \<Rightarrow> Random \<Rightarrow> real \<times> Random" where
  "random_gauss mu sigma rng =
     (mu + normal_tape rng (normal_pos rng) * sigma, rng\<lparr>normal_pos := normal_pos rng + 1\<rparr>)"

definition random_choice :: "'a list \<Rightarrow> Random \<Rightarrow> 'a \<times> Random" where
  "random_choice xs rng =
     (xs ! (choice_tape rng (choice_pos rng) mod length xs), rng\<lparr>choice_pos := choice_pos rng + 1\<rparr>)"

definition uniform_ok :: "Random \<Rightarrow> bool" where
  "uniform_ok rng \<longleftrightarrow> (\<forall>n. 0 \<le> uniform_tape rng n \<and> uniform_tape rng n < 1)"

subsection \<open>Consumption strategies\<close>

text \<open>
  \<open>select_food\<close> returns the list of (item, amount) pairs; the model also returns the
  pantry and the random source, since \<open>RandomConsumptionStrategy\<close> removes from the very
  list object that \<open>Pantry.get_items_by_type\<close> hands out (no copy is made) and draws
  random numbers. \<open>basic_walk\<close> is the \<open>for\<close> loop of the basic strategy (with its
  \<open>break\<close>), \<open>random_walk\<close> the \<open>while\<close> loop of the random one.
\<close>

datatype ConsumptionStrategy =
    BasicConsumptionStrategy
  | RandomConsumptionStrategy
  | MixedConsumptionStrategy real

fun basic_walk :: "heap \<Rightarrow> ref list \<Rightarrow> real \<Rightarrow> (ref \<times> real) list" where
  "basic_walk h [] amount = []"
| "basic_walk h (food # rest) amount =
     (if amount \<le> 0 then []
      else if quantity (h ! food) \<le> amount
        then (food, quantity (h ! food)) # basic_walk h rest (amount - quantity (h ! food))
        else (food, amount) # basic_walk h rest 0)"

function random_walk :: "heap \<Rightarrow> ref list \<Rightarrow> real \<Rightarrow> Random \<Rightarrow> (ref \<times> real) list \<times> ref list \<times> Random" where
  "random_walk h available_foods amount rng =
     (if amount > 0 \<and> available_foods \<noteq> [] then
        (case random_choice available_foods rng of (food, rng1) \<Rightarrow>
           if quantity (h ! food) \<le> amount then
             (case random_walk h (remove1 food available_foods) (amount - quantity (h ! food)) rng1 of
                (foods_to_eat, rest, rng2) \<Rightarrow> ((food, quantity (h ! food)) # foods_to_eat, rest, rng2))
           else
             (case random_walk h available_foods 0 rng1 of
                (foods_to_eat, rest, rng2) \<Rightarrow> ((food, amount) # foods_to_eat, rest, rng2)))
      else ([], available_foods, rng))"
  by pat_completeness auto

termination
proof (relation "measure (\<lambda>(h, av, amount, rng). length av + (if amount > 0 then 1 else 0))", goal_cases)
  case 1
  show ?case by simp
next
  case (2 h available_foods amount rng x y)
  then have "x = available_foods ! (choice_tape rng (choice_pos rng) mod length available_foods)"
    by (simp add: random_choice_def)
  with 2 have "x \<in> set available_foods" by simp
  then have "length (remove1 x available_foods) < length available_foods"
    by (simp add: length_remove1) (cases available_foods, auto)
  with 2 show ?case by simp
next
  case 3
  then show ?case by simp
qed

declare random_walk.simps [simp del]

definition BasicConsumptionStrategy_select_food ::
  "heap \<Rightarrow> Pantry \<Rightarrow> Random \<Rightarrow> FoodType \<Rightarrow> real \<Rightarrow> (ref \<times> real) list \<times> Pantry \<times> Random" where
  "BasicConsumptionStrategy_select_food h p rng ft amount =
     (basic_walk h (get_items_by_type p ft) amount, p, rng)"

definition RandomConsumptionStrategy_select_food ::
  "heap \<Rightarrow> Pantry \<Rightarrow> Random \<Rightarrow> FoodType \<Rightarrow> real \<Rightarrow> (ref \<times> real) list \<times> Pantry \<times> Random" where
  "RandomConsumptionStrategy_select_food h p rng ft amount =
     (case random_walk h (get_items_by_type p ft) amount rng of
        (foods_to_eat, available_foods, rng') \<Rightarrow>
          (foods_to_eat, p\<lparr>items_by_type := (items_by_type p)(ft := available_foods)\<rparr>, rng'))"

definition MixedConsumptionStrategy_select_food ::
  "real \<Rightarrow> heap \<Rightarrow> Pantry \<Rightarrow> Random \<Rightarrow> FoodType \<Rightarrow> real \<Rightarrow> (ref \<times> real) list \<times> Pantry \<times> Random" where
  "MixedConsumptionStrategy_select_food fifo_probability h p rng ft amount =
     (case random_random rng of
        (u, rng1) \<Rightarrow>
          if u < fifo_probability then BasicConsumptionStrategy_select_food h p rng1 ft amount
          else RandomConsumptionStrategy_select_food h p rng1 ft amount)"

definition select_food ::
  "ConsumptionStrategy \<Rightarrow> heap \<Rightarrow> Pantry \<Rightarrow> Random \<Rightarrow> FoodType \<Rightarrow> real \<Rightarrow> (ref \<times> real) list \<times> Pantry \<times> Random" where
  "select_food strategy h p rng ft amount =
     (case strategy of
        BasicConsumptionStrategy \<Rightarrow> BasicConsumptionStrategy_select_food h p rng ft amount
      | RandomConsumptionStrategy \<Rightarrow> RandomConsumptionStrategy_select_food h p rng ft amount
      | MixedConsumptionStrategy fifo_probability \<Rightarrow>
          MixedConsumptionStrategy_select_food fifo_probability h p rng ft amount)"

subsection \<open>Meal\<close>

text \<open>
  A \<open>Meal\<close> holds a reference to the household's pantry (here: the pantry state that is
  passed in) and its \<open>consumption_patterns\<close>, a dict in insertion order: an association
  list. \<open>choose_food_to_eat\<close> allocates the placeholder item in the store; \<open>consume_foods\<close>
  is the loop of \<open>Meal.consume\<close>.
\<close>

record Meal =
  consumption_patterns :: "(FoodType \<times> real) list"

fun choose_food_to_eat ::
  "ConsumptionStrategy \<Rightarrow> (FoodType \<times> real) list \<Rightarrow> heap \<Rightarrow> Pantry \<Rightarrow> Random
     \<Rightarrow> error + ((ref \<times> real) list \<times> heap \<times> Pantry \<times> Random)" where
  "choose_food_to_eat cs [] h p rng = Inr ([], h, p, rng)"
| "choose_food_to_eat cs ((ft, amount) # rest) h p rng =
     (case select_food cs h p rng ft amount of (chosen_foods, p1, rng1) \<Rightarrow>
        (let consumed_amount = sum_list (map snd chosen_foods);
             remaining_amount = amount - consumed_amount
         in if remaining_amount > 0 then
              (case FoodItem_init EMERGENCY_TAKEOUT PERISHABLE 0 0 remaining_amount of
                 Inl e \<Rightarrow> Inl e
               | Inr takeout \<Rightarrow>
                  (case alloc h takeout of (a, h1) \<Rightarrow>
                    (case choose_food_to_eat cs rest h1 p1 rng1 of
                       Inl e \<Rightarrow> Inl e
                     | Inr (others, s) \<Rightarrow> Inr (chosen_foods @ (a, remaining_amount) # others, s))))
            else
              (case choose_food_to_eat cs rest h p1 rng1 of
                 Inl e \<Rightarrow> Inl e
               | Inr (others, s) \<Rightarrow> Inr (chosen_foods @ others, s))))"

fun consume_foods :: "(ref \<times> real) list \<Rightarrow> heap \<Rightarrow> error + heap" where
  "consume_foods [] h = Inr h"
| "consume_foods ((a, amount) # rest) h =
     (if name (h ! a) \<noteq> ''Emergency Takeout'' then
        (case FoodItem_consume (h ! a) amount of
           Inl e \<Rightarrow> Inl e
         | Inr item \<Rightarrow> consume_foods rest (h[a := item]))
      else consume_foods rest h)"

definition Meal_consume ::
  "ConsumptionStrategy \<Rightarrow> Meal \<Rightarrow> heap \<Rightarrow> Pantry \<Rightarrow> Random
     \<Rightarrow> error + ((ref \<times> real) list \<times> heap \<times> Pantry \<times> Random)" where
  "Meal_consume cs meal h p rng =
     (case choose_food_to_eat cs (consumption_patterns meal) h p rng of
        Inl e \<Rightarrow> Inl e
      | Inr (foods_to_eat, h1, p1, rng1) \<Rightarrow>
          (case consume_foods foods_to_eat h1 of
             Inl e \<Rightarrow> Inl e
           | Inr h2 \<Rightarrow> Inr (foods_to_eat, h2, p1, rng1)))"

subsection \<open>Meal planning strategies\<close>

text \<open>\<open>plan_meal\<close> reads \<open>planned_meal.total_grams\<close> and the pantry totals only.\<close>

datatype MealPlanningStrategy = FreshFirstStrategy | ProportionalConsumptionStrategy real

definition plan_meal :: "MealPlanningStrategy \<Rightarrow> real \<Rightarrow> heap \<Rightarrow> Pantry \<Rightarrow> Meal" where
  "plan_meal strategy planned_total_grams h p =
     (case strategy of
        FreshFirstStrategy \<Rightarrow>
          (let total_grams = planned_total_grams;
               leftovers = get_total_by_type h p LEFTOVER;
               perishables = get_total_by_type h p PERISHABLE;
               leftovers_to_consume = min leftovers total_grams;
               total_grams1 = total_grams - leftovers_to_consume;
               perishables_to_consume = min perishables total_grams1;
               total_grams2 = total_grams1 - perishables_to_consume;
               non_perishables_to_consume = total_grams2
           in \<lparr>consumption_patterns =
                 [(LEFTOVER, leftovers_to_consume), (PERISHABLE, perishables_to_consume),
                  (NON_PERISHABLE, non_perishables_to_consume)]\<rparr>)
      | ProportionalConsumptionStrategy proportion_perishables \<Rightarrow>
          (let total_grams = planned_total_grams;
               leftovers_available = get_total_by_type h p LEFTOVER;
               perishables_available = get_total_by_type h p PERISHABLE;
               leftovers_to_consume = min leftovers_available total_grams;
               total_grams1 = total_grams - leftovers_to_consume;
               perishables_to_consume = total_grams1 * proportion_perishables;
               non_perishables_to_consume = total_grams1 - perishables_to_consume
           in if perishables_available \<le> perishables_to_consume then
                (let to_transfer = perishables_to_consume - perishables_available
                 in \<lparr>consumption_patterns =
                       [(LEFTOVER, leftovers_to_consume), (PERISHABLE, perishables_available),
                        (NON_PERISHABLE, non_perishables_to_consume + to_transfer)]\<rparr>)
              else \<lparr>consumption_patterns =
                       [(LEFTOVER, leftovers_to_consume), (PERISHABLE, perishables_to_consume),
                        (NON_PERISHABLE, non_perishables_to_consume)]\<rparr>))"

subsection \<open>Vocabulary for the selection returned by a meal\<close>

text \<open>
  The placeholder is recognised the way \<open>Meal.consume\<close> and \<open>Household.daily_step\<close>
  recognise it: by its name. \<open>sourced\<close> is the mass a selection takes from stored items of
  one category, \<open>eaten\<close> the mass it takes from one item; \<open>sub_pantry K p p1\<close> says that
  \<open>p1\<close> is \<open>p\<close> with its category lists filtered by \<open>K\<close>; \<open>choose_post\<close> is the
  postcondition of \<open>choose_food_to_eat\<close> used in the proofs.
\<close>

definition takeout_item :: "real \<Rightarrow> FoodItem" where
  "takeout_item amount = \<lparr>name = EMERGENCY_TAKEOUT, food_type = PERISHABLE, best_before = 0,
      spoilage_date = 0, quantity = amount\<rparr>"

definition is_takeout :: "heap \<Rightarrow> ref \<times> real \<Rightarrow> bool" where
  "is_takeout h e = (name (h ! fst e) = EMERGENCY_TAKEOUT)"

definition sourced :: "heap \<Rightarrow> (ref \<times> real) list \<Rightarrow> FoodType \<Rightarrow> real" where
  "sourced h sel ft =
     sum_list (map snd (filter (\<lambda>e. \<not> is_takeout h e \<and> food_type (h ! fst e) = ft) sel))"

definition no_takeout_stored :: "heap \<Rightarrow> Pantry \<Rightarrow> bool" where
  "no_takeout_stored h p \<longleftrightarrow> (\<forall>a \<in> set (all_items p). name (h ! a) \<noteq> EMERGENCY_TAKEOUT)"

definition sub_pantry :: "(ref \<Rightarrow> bool) \<Rightarrow> Pantry \<Rightarrow> Pantry \<Rightarrow> bool" where
  "sub_pantry K p p1 \<longleftrightarrow> p1 = p\<lparr>items_by_type := (\<lambda>t. filter K (items_by_type p t))\<rparr>"

definition choose_post ::
  "heap \<Rightarrow> Pantry \<Rightarrow> (FoodType \<times> real) list \<Rightarrow> (ref \<times> real) list \<Rightarrow> heap \<Rightarrow> Pantry \<Rightarrow> (ref \<Rightarrow> bool) \<Rightarrow> bool" where
  "choose_post h p patterns sel h1 p1 K \<longleftrightarrow>
     (\<exists>ex. h1 = h @ ex) \<and> sub_pantry K p p1 \<and> distinct (map fst sel)
   \<and> (\<forall>e \<in> set sel.
          (fst e \<in> set (all_items p) \<and> food_type (h1 ! fst e) \<in> fst ` set patterns
             \<and> snd e \<le> quantity (h1 ! fst e))
        \<or> (length h \<le> fst e \<and> fst e < length h1 \<and> h1 ! fst e = takeout_item (snd e)))
   \<and> (\<forall>a \<in> set (all_items p). \<not> K a \<longrightarrow> (a, quantity (h1 ! a)) \<in> set sel)
   \<and> map snd (filter (is_takeout h1) sel)
        = filter (\<lambda>x. 0 < x) (map (\<lambda>(ft, amount). amount - sourced h1 sel ft) patterns)"

definition eaten :: "heap \<Rightarrow> (ref \<times> real) list \<Rightarrow> ref \<Rightarrow> real" where
  "eaten h sel a = sum_list (map snd (filter (\<lambda>e. fst e = a \<and> \<not> is_takeout h e) sel))"

subsection \<open>GroceryStore\<close>

text \<open>Python's \<open>int(x)\<close> on a float: truncation towards zero.\<close>

definition py_int :: "real \<Rightarrow> int" where
  "py_int x = (if 0 \<le> x then \<lfloor>x\<rfloor> else \<lceil>x\<rceil>)"

text \<open>\<open>food_type.name\<close>: the name of the enum member.\<close>

definition FoodType_name :: "FoodType \<Rightarrow> string" where
  "FoodType_name t = (case t of LEFTOVER \<Rightarrow> ''LEFTOVER'' | PERISHABLE \<Rightarrow> ''PERISHABLE''
                        | NON_PERISHABLE \<Rightarrow> ''NON_PERISHABLE'')"

text \<open>The two parameter dicts may lack a key: a lookup then raises \<open>KeyError\<close>.\<close>

record GroceryStore =
  best_before_params :: "FoodType \<rightharpoonup> real \<times> real"
  spoilage_date_params :: "FoodType \<rightharpoonup> real \<times> real"
  food_names :: "string list"

definition GroceryStore_init :: "(FoodType \<rightharpoonup> real \<times> real) \<Rightarrow> (FoodType \<rightharpoonup> real \<times> real) \<Rightarrow> GroceryStore" where
  "GroceryStore_init bbp sdp = \<lparr>best_before_params = bbp, spoilage_date_params = sdp,
      food_names = [''Test'', ''Other'', ''SomethingElse'', ''UHT'']\<rparr>"

definition draw_from_distribution :: "real \<Rightarrow> real \<Rightarrow> Random \<Rightarrow> int \<times> Random" where
  "draw_from_distribution mean std_dev rng =
     (case random_gauss mean std_dev rng of (g, rng') \<Rightarrow> (py_int g, rng'))"

text \<open>
  The \<open>while\<close> loop of \<open>get_order\<close>. Its arguments are the local variables
  \<open>remaining_quantity\<close>, \<open>failures\<close> and \<open>order\<close>, the random source, and one ghost
  variable that the source does not have: \<open>drawn\<close>, the list of the quantities drawn so
  far, the zero draws included. Nothing reads it; it is returned beside the order so that
  theorems can speak about the sequence of draws. Whether the loop ends depends on the
  drawn numbers, so it is a partial function: not returning is \<open>None\<close>.
\<close>

partial_function (option) get_order_loop ::
  "FoodType \<Rightarrow> real \<Rightarrow> real \<times> real \<Rightarrow> real \<times> real \<Rightarrow> int \<Rightarrow> nat \<Rightarrow> FoodItem list \<Rightarrow> int list \<Rightarrow> Random
     \<Rightarrow> (error + FoodItem list \<times> int list \<times> Random) option" where
  "get_order_loop ftype total_quantity bb_params sd_params remaining_quantity failures order drawn rng =
     (if remaining_quantity > 0 \<and> failures < 100 then
        (case draw_from_distribution (fst bb_params) (snd bb_params) rng of (bb, rng1) \<Rightarrow>
         case draw_from_distribution (fst sd_params) (snd sd_params) rng1 of (sd0, rng2) \<Rightarrow>
         case random_uniform (0.1 * total_quantity) (0.5 * total_quantity) rng2 of (u, rng3) \<Rightarrow>
           (let food_name = FoodType_name ftype @ '' - item'';
                sd = max (bb + 1) sd0;
                qty = py_int (min u (real_of_int remaining_quantity))
            in if qty = 0 then
                 get_order_loop ftype total_quantity bb_params sd_params remaining_quantity
                   (failures + 1) order (drawn @ [qty]) rng3
               else
                 (case FoodItem_init food_name ftype bb sd (real_of_int qty) of
                    Inl e \<Rightarrow> Some (Inl e)
                  | Inr item \<Rightarrow>
                      get_order_loop ftype total_quantity bb_params sd_params
                        (remaining_quantity - qty) failures (order @ [item]) (drawn @ [qty]) rng3)))
      else Some (Inr (order, drawn, rng)))"

definition get_order ::
  "GroceryStore \<Rightarrow> FoodType \<Rightarrow> real \<Rightarrow> Random \<Rightarrow> (error + FoodItem list \<times> int list \<times> Random) option" where
  "get_order store ftype total_quantity rng =
     (case best_before_params store ftype of
        None \<Rightarrow> Some (Inl KeyError)
      | Some bb_params \<Rightarrow>
         (case spoilage_date_params store ftype of
            None \<Rightarrow> Some (Inl KeyError)
          | Some sd_params \<Rightarrow>
              get_order_loop ftype total_quantity bb_params sd_params (py_int total_quantity) 0 [] [] rng))"

text \<open>The condition the grocery store establishes for each item it creates.\<close>

definition item_valid :: "FoodItem \<Rightarrow> bool" where
  "item_valid item \<longleftrightarrow> best_before item + 1 \<le> spoilage_date item"

text \<open>The length of the longest run of consecutive zero draws in a list of draws.\<close>

primrec zero_run_max :: "int list \<Rightarrow> nat \<Rightarrow> nat \<Rightarrow> nat" where
  "zero_run_max [] cur best = max cur best"
| "zero_run_max (q # qs) cur best =
     (if q = 0 then zero_run_max qs (Suc cur) best else zero_run_max qs 0 (max cur best))"

definition longest_zero_run :: "int list \<Rightarrow> nat" where
  "longest_zero_run drawn = zero_run_max drawn 0 0"

subsection \<open>Order policies\<close>

text \<open>
  The attributes \<open>OrderPolicy.__init__\<close> and \<open>FixedConsumptionPolicy.__init__\<close> set on an
  instance. An \<open>OrderPolicy\<close> object is one of the three concrete classes. A
  \<open>HistoricalConsumptionPolicy\<close> holds its \<open>base_policy\<close> and nothing else: its \<open>__init__\<close>
  sets no other attribute and does not call the constructor of its parent class. An
  \<open>AdaptiveOrderPolicy\<close> holds the attributes of a \<open>FixedConsumptionPolicy\<close> and \<open>delta\<close>.
\<close>

record FixedConsumptionPolicy =
  frequency :: int
  days_until_next_order :: int
  daily_consumption_perishable :: real
  daily_consumption_non_perishable :: real
  safety_stock_perishable :: real
  safety_stock_non_perishable :: real

datatype OrderPolicy =
    FixedConsumption FixedConsumptionPolicy
  | HistoricalConsumption FixedConsumptionPolicy
  | AdaptiveOrder FixedConsumptionPolicy real

text \<open>The three constructors.\<close>

definition FixedConsumptionPolicy_init :: "real \<Rightarrow> real \<Rightarrow> int \<Rightarrow> real \<Rightarrow> real \<Rightarrow> FixedConsumptionPolicy" where
  "FixedConsumptionPolicy_init dcp dcnp freq ssp ssnp =
     \<lparr>frequency = freq, days_until_next_order = freq,
      daily_consumption_perishable = dcp, daily_consumption_non_perishable = dcnp,
      safety_stock_perishable = ssp, safety_stock_non_perishable = ssnp\<rparr>"

definition HistoricalConsumptionPolicy_init :: "FixedConsumptionPolicy \<Rightarrow> OrderPolicy" where
  "HistoricalConsumptionPolicy_init base_policy = HistoricalConsumption base_policy"

definition AdaptiveOrderPolicy_init :: "FixedConsumptionPolicy \<Rightarrow> real \<Rightarrow> OrderPolicy" where
  "AdaptiveOrderPolicy_init base_policy delta =
     AdaptiveOrder
       (FixedConsumptionPolicy_init (daily_consumption_perishable base_policy)
          (daily_consumption_non_perishable base_policy) (frequency base_policy)
          (safety_stock_perishable base_policy) (safety_stock_non_perishable base_policy))
       delta"

text \<open>
  Reading \<open>self.days_until_next_order\<close> and \<open>self.frequency\<close>: an attribute the instance
  does not have raises \<open>AttributeError\<close>.
\<close>

definition get_days_until_next_order :: "OrderPolicy \<Rightarrow> error + int" where
  "get_days_until_next_order policy =
     (case policy of
        FixedConsumption f \<Rightarrow> Inr (days_until_next_order f)
      | HistoricalConsumption b \<Rightarrow> Inl AttributeError
      | AdaptiveOrder f d \<Rightarrow> Inr (days_until_next_order f))"

definition get_frequency :: "OrderPolicy \<Rightarrow> error + int" where
  "get_frequency policy =
     (case policy of
        FixedConsumption f \<Rightarrow> Inr (frequency f)
      | HistoricalConsumption b \<Rightarrow> Inl AttributeError
      | AdaptiveOrder f d \<Rightarrow> Inr (frequency f))"

text \<open>
  Assigning \<open>self.days_until_next_order\<close>. Both callers read an attribute of the same
  instance first, so on a \<open>HistoricalConsumptionPolicy\<close> the assignment is never reached.
\<close>

definition set_days_until_next_order :: "OrderPolicy \<Rightarrow> int \<Rightarrow> OrderPolicy" where
  "set_days_until_next_order policy v =
     (case policy of
        FixedConsumption f \<Rightarrow> FixedConsumption (f\<lparr>days_until_next_order := v\<rparr>)
      | HistoricalConsumption b \<Rightarrow> HistoricalConsumption b
      | AdaptiveOrder f d \<Rightarrow> AdaptiveOrder (f\<lparr>days_until_next_order := v\<rparr>) d)"

text \<open>\<open>self.days_until_next_order -= 1\<close> and \<open>self.days_until_next_order = self.frequency\<close>.\<close>

definition decrement_days_until_next_order :: "OrderPolicy \<Rightarrow> error + OrderPolicy" where
  "decrement_days_until_next_order policy =
     (case get_days_until_next_order policy of
        Inl e \<Rightarrow> Inl e
      | Inr v \<Rightarrow> Inr (set_days_until_next_order policy (v - 1)))"

definition reset_days_until_next_order :: "OrderPolicy \<Rightarrow> error + OrderPolicy" where
  "reset_days_until_next_order policy =
     (case get_frequency policy of
        Inl e \<Rightarrow> Inl e
      | Inr v \<Rightarrow> Inr (set_days_until_next_order policy v))"

subsection \<open>Household\<close>

text \<open>
  The dict \<open>daily_step\<close> returns and appends to \<open>history\<close>, one field per key. The
  household's generators are the fixed-percentage ones, given by their percentage; a planned
  meal is given by its \<open>total_grams\<close>; \<open>weekly_meals\<close> is absent until \<open>start_of_week\<close> has
  run.
\<close>

record DailyRecord =
  r_meals_eaten_today :: nat
  r_daily_consumption :: "FoodType \<Rightarrow> real"
  r_emergency_takeouts :: real
  r_total_perishable_bought :: real
  r_total_nonperishable_bought :: real
  r_expired_discards :: real
  r_strategy_discards :: real
  r_total_food_stored :: real
  r_perishables_stored :: real
  r_non_perishables_stored :: real
  r_leftovers_stored :: real
  r_daily_plate_waste :: real
  r_daily_leftovers_generated :: real

record Household =
  adults :: int
  children :: int
  income_percentile :: real
  pantry :: Pantry
  history :: "DailyRecord list"
  meal_planning_strategy :: MealPlanningStrategy
  consumption_strategy :: ConsumptionStrategy
  pantry_strategy :: PantryStrategy
  leftover_generator :: real
  plate_waste_generator :: real
  order_policy :: OrderPolicy
  grocery_store :: "GroceryStore option"
  daily_consumption :: "FoodType \<Rightarrow> real"
  daily_emergency_takeouts :: real
  daily_plate_waste :: real
  daily_leftovers_generated :: real
  meals_eaten_today :: nat
  weekly_meals :: "real list list option"

definition Household_init ::
  "int \<Rightarrow> int \<Rightarrow> real \<Rightarrow> MealPlanningStrategy \<Rightarrow> ConsumptionStrategy \<Rightarrow> PantryStrategy \<Rightarrow> OrderPolicy
     \<Rightarrow> GroceryStore option \<Rightarrow> real \<Rightarrow> real \<Rightarrow> Household" where
  "Household_init a c ip mps cs ps op gs lg pw =
     \<lparr>adults = a, children = c, income_percentile = ip, pantry = Pantry_init, history = [],
      meal_planning_strategy = mps, consumption_strategy = cs, pantry_strategy = ps,
      leftover_generator = lg, plate_waste_generator = pw, order_policy = op, grocery_store = gs,
      daily_consumption = (\<lambda>_. 0), daily_emergency_takeouts = 0, daily_plate_waste = 0,
      daily_leftovers_generated = 0, meals_eaten_today = 0, weekly_meals = None\<rparr>"

text \<open>
  \<open>determine_order_quantity\<close> of the three policies. The historical and the adaptive policy
  overwrite the consumption rates (and the adaptive one the safety stocks) of the policy
  they delegate to, so the policy is returned with the quantities.
\<close>

definition Fixed_determine_order_quantity :: "FixedConsumptionPolicy \<Rightarrow> heap \<Rightarrow> Pantry \<Rightarrow> real \<times> real" where
  "Fixed_determine_order_quantity f h p =
     (let order_quantity_perishable =
            daily_consumption_perishable f * real_of_int (frequency f) + safety_stock_perishable f;
          order_quantity_non_perishable =
            daily_consumption_non_perishable f * real_of_int (frequency f) + safety_stock_non_perishable f;
          order_quantity_perishable = order_quantity_perishable - get_total_by_type h p PERISHABLE;
          order_quantity_non_perishable = order_quantity_non_perishable - get_total_by_type h p NON_PERISHABLE
      in (max 0 order_quantity_perishable, max 0 order_quantity_non_perishable))"

definition last7 :: "DailyRecord list \<Rightarrow> FoodType \<Rightarrow> real list" where
  "last7 hist t = map (\<lambda>day. r_daily_consumption day t) (drop (length hist - 7) hist)"

definition calculate_std_dev :: "real list \<Rightarrow> real" where
  "calculate_std_dev data =
     (let n = length data in
      if n \<le> 1 then 0
      else (let mean_val = sum_list data / real n;
                variance = sum_list (map (\<lambda>x. (x - mean_val)\<^sup>2) data) / real (n - 1)
            in sqrt variance))"

definition determine_order_quantity ::
  "OrderPolicy \<Rightarrow> DailyRecord list \<Rightarrow> heap \<Rightarrow> Pantry \<Rightarrow> (real \<times> real) \<times> OrderPolicy" where
  "determine_order_quantity policy hist h p =
     (case policy of
        FixedConsumption f \<Rightarrow> (Fixed_determine_order_quantity f h p, policy)
      | HistoricalConsumption base_policy \<Rightarrow>
          if length hist < 7 then (Fixed_determine_order_quantity base_policy h p, policy)
          else
            (let last_week_consumption_perishable = sum_list (last7 hist PERISHABLE) / 7;
                 last_week_consumption_non_perishable = sum_list (last7 hist NON_PERISHABLE) / 7;
                 base_policy1 = base_policy\<lparr>daily_consumption_perishable := last_week_consumption_perishable,
                     daily_consumption_non_perishable := last_week_consumption_non_perishable\<rparr>
             in (Fixed_determine_order_quantity base_policy1 h p, HistoricalConsumption base_policy1))
      | AdaptiveOrder f delta \<Rightarrow>
          if length hist < 7 then (Fixed_determine_order_quantity f h p, policy)
          else
            (let last_week_consumption_perishable = sum_list (last7 hist PERISHABLE) / 7;
                 last_week_consumption_non_perishable = sum_list (last7 hist NON_PERISHABLE) / 7;
                 std_dev_perishable = calculate_std_dev (last7 hist PERISHABLE);
                 std_dev_non_perishable = calculate_std_dev (last7 hist NON_PERISHABLE);
                 f1 = f\<lparr>daily_consumption_perishable := last_week_consumption_perishable,
                        daily_consumption_non_perishable := last_week_consumption_non_perishable,
                        safety_stock_perishable := delta * std_dev_perishable,
                        safety_stock_non_perishable := delta * std_dev_non_perishable\<rparr>
             in (Fixed_determine_order_quantity f1 h p, AdaptiveOrder f1 delta)))"

text \<open>\<open>FixedPercentageWasteCalculator\<close> and \<open>FixedPercentageLeftoverGenerator\<close>.\<close>

definition compute_plate_waste :: "real \<Rightarrow> (ref \<times> real) list \<Rightarrow> (ref \<times> real) list" where
  "compute_plate_waste waste_percentage consumed_items =
     map (\<lambda>(food_item, amount). (food_item, amount * waste_percentage)) consumed_items"

definition compute_leftovers :: "real \<Rightarrow> (ref \<times> real) list \<Rightarrow> (ref \<times> real) list \<Rightarrow> real" where
  "compute_leftovers leftover_percentage consumed_items plate_waste =
     sum_list (map (\<lambda>(food_item, amount). amount * leftover_percentage) consumed_items)"

text \<open>The last loop of the body of a meal: per-category consumption and the takeout counter.\<close>

fun record_consumption ::
  "heap \<Rightarrow> (ref \<times> real) list \<Rightarrow> (FoodType \<Rightarrow> real) \<Rightarrow> real \<Rightarrow> (FoodType \<Rightarrow> real) \<times> real" where
  "record_consumption h [] dc et = (dc, et)"
| "record_consumption h ((food_item, amount) # rest) dc et =
     record_consumption h rest
       (dc(food_type (h ! food_item) := dc (food_type (h ! food_item)) + amount))
       (if name (h ! food_item) = EMERGENCY_TAKEOUT then et + amount else et)"

text \<open>The leftovers of a meal are stored as a new item when there are any.\<close>

definition store_leftovers :: "real \<Rightarrow> heap \<Rightarrow> Pantry \<Rightarrow> real \<Rightarrow> error + heap \<times> Pantry \<times> real" where
  "store_leftovers leftovers_here h p generated =
     (if leftovers_here > 0 then
        (case FoodItem_init ''leftover'' LEFTOVER 2 2 leftovers_here of
           Inl e \<Rightarrow> Inl e
         | Inr item \<Rightarrow>
             (case alloc h item of (a, h1) \<Rightarrow> Inr (h1, add_item h1 p a, generated + leftovers_here)))
      else Inr (h, p, generated))"

text \<open>
  The loop over the meals of the day. \<open>consumed\<close> is a ghost variable, not a variable of the
  source: it collects the pairs (item, amount) over which the recording loop at the end of
  the body runs, each item as that loop reads it; nothing is computed from it.
\<close>

fun eat_meals ::
  "real list \<Rightarrow> Household \<Rightarrow> heap \<Rightarrow> Random \<Rightarrow> (FoodItem \<times> real) list
     \<Rightarrow> error + Household \<times> heap \<times> Random \<times> (FoodItem \<times> real) list" where
  "eat_meals [] hh h rng consumed = Inr (hh, h, rng, consumed)"
| "eat_meals (planned_meal # rest) hh h rng consumed =
     (case Meal_consume (consumption_strategy hh)
             (plan_meal (meal_planning_strategy hh) planned_meal h (pantry hh)) h (pantry hh) rng of
        Inl e \<Rightarrow> Inl e
      | Inr (consumption, h1, p1, rng1) \<Rightarrow>
          (let plate_waste = compute_plate_waste (plate_waste_generator hh) consumption;
               dpw = daily_plate_waste hh + sum_list (map snd plate_waste);
               leftovers_here = compute_leftovers (leftover_generator hh) consumption plate_waste
           in case store_leftovers leftovers_here h1 p1 (daily_leftovers_generated hh) of
                Inl e \<Rightarrow> Inl e
              | Inr (h2, p2, dlg) \<Rightarrow>
                  (case record_consumption h2 consumption (daily_consumption hh)
                          (daily_emergency_takeouts hh) of
                     (dc, et) \<Rightarrow>
                       eat_meals rest
                         (hh\<lparr>pantry := p2, meals_eaten_today := meals_eaten_today hh + 1,
                             daily_plate_waste := dpw, daily_leftovers_generated := dlg,
                             daily_consumption := dc, daily_emergency_takeouts := et\<rparr>)
                         h2 rng1
                         (consumed @ map (\<lambda>(food_item, amount). (h2 ! food_item, amount)) consumption))))"

text \<open>Adding an order to the pantry, summing what was bought.\<close>

fun add_bought :: "FoodItem list \<Rightarrow> heap \<Rightarrow> Pantry \<Rightarrow> real \<Rightarrow> heap \<times> Pantry \<times> real" where
  "add_bought [] h p bought = (h, p, bought)"
| "add_bought (item # rest) h p bought =
     (case alloc h item of (a, h1) \<Rightarrow> add_bought rest h1 (add_item h1 p a) (bought + quantity item))"

text \<open>
  The ordering part of \<open>daily_step\<close>, after the counter was decremented. A household
  without a grocery store (\<open>None\<close>) raises \<open>AttributeError\<close> when it orders.
\<close>

definition order_phase ::
  "Household \<Rightarrow> heap \<Rightarrow> Random \<Rightarrow> (error + Household \<times> heap \<times> Random \<times> real \<times> real) option" where
  "order_phase hh h rng =
     (case get_days_until_next_order (order_policy hh) of
        Inl e \<Rightarrow> Some (Inl e)
      | Inr days \<Rightarrow>
          if days = 0 then
            (case determine_order_quantity (order_policy hh) (history hh) h (pantry hh) of
               ((perishable_quantity, non_perishable_quantity), policy1) \<Rightarrow>
                 (case grocery_store hh of
                    None \<Rightarrow> Some (Inl AttributeError)
                  | Some store \<Rightarrow>
                      (case get_order store PERISHABLE perishable_quantity rng of
                         None \<Rightarrow> None
                       | Some (Inl e) \<Rightarrow> Some (Inl e)
                       | Some (Inr (perishable_order, drawn1, rng1)) \<Rightarrow>
                           (case get_order store NON_PERISHABLE non_perishable_quantity rng1 of
                              None \<Rightarrow> None
                            | Some (Inl e) \<Rightarrow> Some (Inl e)
                            | Some (Inr (non_perishable_order, drawn2, rng2)) \<Rightarrow>
                                (case add_bought perishable_order h (pantry hh) 0 of
                                   (h1, p1, total_perishable_bought) \<Rightarrow>
                                 case add_bought non_perishable_order h1 p1 0 of
                                   (h2, p2, total_nonperishable_bought) \<Rightarrow>
                                 case reset_days_until_next_order policy1 of
                                   Inl e \<Rightarrow> Some (Inl e)
                                 | Inr policy2 \<Rightarrow>
                                     Some (Inr (hh\<lparr>pantry := p2, order_policy := policy2\<rparr>, h2, rng2,
                                                total_perishable_bought, total_nonperishable_bought)))))))
          else Some (Inr (hh, h, rng, 0, 0)))"

text \<open>The record of the day; the two waste-log lookups raise \<open>KeyError\<close> on a missing day.\<close>

definition make_daily_record :: "Household \<Rightarrow> heap \<Rightarrow> real \<Rightarrow> real \<Rightarrow> error + DailyRecord" where
  "make_daily_record hh h total_perishable_bought total_nonperishable_bought =
     (case expired_discards (pantry hh) (current_day (pantry hh)) of
        None \<Rightarrow> Inl KeyError
      | Some expired \<Rightarrow>
          (case strategy_discards (pantry hh) (current_day (pantry hh)) of
             None \<Rightarrow> Inl KeyError
           | Some discarded \<Rightarrow>
               Inr \<lparr>r_meals_eaten_today = meals_eaten_today hh,
                    r_daily_consumption = daily_consumption hh,
                    r_emergency_takeouts = daily_emergency_takeouts hh,
                    r_total_perishable_bought = total_perishable_bought,
                    r_total_nonperishable_bought = total_nonperishable_bought,
                    r_expired_discards = sum_values expired,
                    r_strategy_discards = sum_values discarded,
                    r_total_food_stored = get_total h (pantry hh),
                    r_perishables_stored = get_total_by_type h (pantry hh) PERISHABLE,
                    r_non_perishables_stored = get_total_by_type h (pantry hh) NON_PERISHABLE,
                    r_leftovers_stored = get_total_by_type h (pantry hh) LEFTOVER,
                    r_daily_plate_waste = daily_plate_waste hh,
                    r_daily_leftovers_generated = daily_leftovers_generated hh\<rparr>))"

text \<open>
  \<open>Household.daily_step\<close>: reset the counters of the day, pop the meals of the day, eat
  them, age the pantry, decrement the order counter, order when it is 0, record the day.
\<close>

definition start_day :: "Household \<Rightarrow> Household" where
  "start_day hh = hh\<lparr>meals_eaten_today := 0, daily_consumption := (\<lambda>_. 0),
      daily_emergency_takeouts := 0, daily_plate_waste := 0, daily_leftovers_generated := 0\<rparr>"

definition daily_step ::
  "Household \<Rightarrow> heap \<Rightarrow> Random \<Rightarrow> (error + DailyRecord \<times> Household \<times> heap \<times> Random) option" where
  "daily_step hh0 h rng =
     (case weekly_meals hh0 of
        None \<Rightarrow> Some (Inl AttributeError)
      | Some [] \<Rightarrow> Some (Inl IndexError)
      | Some (meals_today # later_meals) \<Rightarrow>
          (case eat_meals meals_today ((start_day hh0)\<lparr>weekly_meals := Some later_meals\<rparr>) h rng [] of
             Inl e \<Rightarrow> Some (Inl e)
           | Inr (hh1, h1, rng1, consumed) \<Rightarrow>
               (case Pantry_step (pantry_strategy hh1) h1 (pantry hh1) of
                  Inl e \<Rightarrow> Some (Inl e)
                | Inr (h2, p2) \<Rightarrow>
                    (case decrement_days_until_next_order (order_policy hh1) of
                       Inl e \<Rightarrow> Some (Inl e)
                     | Inr policy1 \<Rightarrow>
                         (case order_phase (hh1\<lparr>pantry := p2, order_policy := policy1\<rparr>) h2 rng1 of
                            None \<Rightarrow> None
                          | Some (Inl e) \<Rightarrow> Some (Inl e)
                          | Some (Inr (hh3, h3, rng3, bought_p, bought_np)) \<Rightarrow>
                              (case make_daily_record hh3 h3 bought_p bought_np of
                                 Inl e \<Rightarrow> Some (Inl e)
                               | Inr daily_record \<Rightarrow>
                                   Some (Inr (daily_record,
                                              hh3\<lparr>history := history hh3 @ [daily_record]\<rparr>,
                                              h3, rng3))))))))"

subsection \<open>Vocabulary for the daily step\<close>





subsection \<open>Concrete states used to instantiate the theorems\<close>

definition rng0 :: Random where
  "rng0 = \<lparr>uniform_tape = (\<lambda>_. 1/2), uniform_pos = 0, normal_tape = (\<lambda>_. 0), normal_pos = 0,
           choice_tape = (\<lambda>_. 0), choice_pos = 0\<rparr>"

definition example_heap :: heap where
  "example_heap =
     [\<lparr>name = ''LeftoverItem1'', food_type = LEFTOVER, best_before = 1, spoilage_date = 5, quantity = 2\<rparr>,
      \<lparr>name = ''LeftoverItem2'', food_type = LEFTOVER, best_before = 1, spoilage_date = 1, quantity = 3\<rparr>,
      \<lparr>name = ''PerishableItem'', food_type = PERISHABLE, best_before = 4, spoilage_date = 6, quantity = 1\<rparr>]"

definition example_pantry :: Pantry where
  "example_pantry = Pantry_init\<lparr>items_by_type := (\<lambda>_. [])(LEFTOVER := [1, 0], PERISHABLE := [2])\<rparr>"

text \<open>A pantry to which the same item was added twice.\<close>

definition twice_heap :: heap where
  "twice_heap = [\<lparr>name = ''Milk'', food_type = PERISHABLE, best_before = 1, spoilage_date = 2, quantity = 4\<rparr>]"

definition twice_pantry :: Pantry where
  "twice_pantry = add_item twice_heap (add_item twice_heap Pantry_init 0) 0"

text \<open>A pantry that stores an item whose name is the placeholder's name.\<close>

definition takeout_named_heap :: heap where
  "takeout_named_heap =
     [\<lparr>name = ''Emergency Takeout'', food_type = NON_PERISHABLE, best_before = 5, spoilage_date = 10,
       quantity = 100\<rparr>]"

definition takeout_named_pantry :: Pantry where
  "takeout_named_pantry = Pantry_init\<lparr>items_by_type := (\<lambda>_. [])(NON_PERISHABLE := [0])\<rparr>"

text \<open>The store of the repository's tests, and a random source whose uniform draws are all 0 but the 51st.\<close>

definition example_store :: GroceryStore where
  "example_store = GroceryStore_init [PERISHABLE \<mapsto> (3, 1), NON_PERISHABLE \<mapsto> (50, 10)]
                                     [PERISHABLE \<mapsto> (5, 2), NON_PERISHABLE \<mapsto> (100, 20)]"

definition scattered_rng :: Random where
  "scattered_rng = \<lparr>uniform_tape = (\<lambda>n. if n = 50 then 1/4 else 0), uniform_pos = 0,
      normal_tape = (\<lambda>_. 0), normal_pos = 0, choice_tape = (\<lambda>_. 0), choice_pos = 0\<rparr>"

text \<open>
  Households with an empty pantry and the store above: one with the historical policy and a
  week without meals, the same with the adaptive policy, and one with the fixed policy, six
  recorded days without consumption and one meal of 500 grams today.
\<close>

definition historical_household :: Household where
  "historical_household =
     (Household_init 2 1 0.5 FreshFirstStrategy BasicConsumptionStrategy LaxStrategy
        (HistoricalConsumptionPolicy_init (FixedConsumptionPolicy_init 1 1 7 0 0))
        (Some example_store) 0 0)\<lparr>weekly_meals := Some [[], [], [], [], [], [], []]\<rparr>"

definition adaptive_household :: Household where
  "adaptive_household =
     historical_household\<lparr>order_policy := AdaptiveOrderPolicy_init (FixedConsumptionPolicy_init 1 1 7 0 0) (196 / 100)\<rparr>"



section \<open>Theorems\<close>

subsection \<open>FoodItem ageing\<close>

lemma day_passes_fields:
  "best_before (day_passes item) = (if best_before item > 0 then best_before item - 1 else best_before item)"
  "spoilage_date (day_passes item) = (if spoilage_date item > 0 then spoilage_date item - 1 else spoilage_date item)"
  "quantity (day_passes item) = quantity item"
  "name (day_passes item) = name item"
  "food_type (day_passes item) = food_type item"
  by (simp_all add: day_passes_def Let_def)

lemma day_passes_funpow_frame:
  "quantity ((day_passes ^^ N) item) = quantity item"
  "name ((day_passes ^^ N) item) = name item"
  "food_type ((day_passes ^^ N) item) = food_type item"
  by (induction N) (simp_all add: day_passes_fields)

lemma day_passes_funpow_best_before:
  "best_before ((day_passes ^^ N) item) =
     (if best_before item \<le> 0 then best_before item else max 0 (best_before item - int N))"
  by (induction N) (auto simp: day_passes_fields)

lemma day_passes_funpow_spoilage_date:
  "spoilage_date ((day_passes ^^ N) item) =
     (if spoilage_date item \<le> 0 then spoilage_date item else max 0 (spoilage_date item - int N))"
  by (induction N) (auto simp: day_passes_fields)

text \<open>
  Claim C4, as stated, at an item whose horizons start below zero (the grocery store
  draws horizons as \<open>int(gauss(mean, std))\<close> and the constructor only checks
  \<open>best_before \<le> spoilage_date\<close>): \<open>FoodItem("x", PERISHABLE, -3, -2, 1.0)\<close> is
  constructed without error, and after one \<open>day_passes\<close> its horizons are still
  \<open>-3\<close> and \<open>-2\<close>, not \<open>max(0, -3 - 1) = 0\<close> and \<open>max(0, -2 - 1) = 0\<close>.
\<close>

theorem day_passes_negative_horizon_counterexample:
  "FoodItem_init ''x'' PERISHABLE (-3) (-2) 1
      = Inr \<lparr>name = ''x'', food_type = PERISHABLE, best_before = -3, spoilage_date = -2, quantity = 1\<rparr>
   \<and> best_before ((day_passes ^^ 1)
        \<lparr>name = ''x'', food_type = PERISHABLE, best_before = -3, spoilage_date = -2, quantity = 1\<rparr>) = -3
   \<and> max 0 (-3 - int 1) = (0::int)
   \<and> spoilage_date ((day_passes ^^ 1)
        \<lparr>name = ''x'', food_type = PERISHABLE, best_before = -3, spoilage_date = -2, quantity = 1\<rparr>) = -2
   \<and> max 0 (-2 - int 1) = (0::int)"
  by (simp add: FoodItem_init_def day_passes_def Let_def)

text \<open>
  Claim C4, amended: after \<open>N\<close> calls of \<open>day_passes\<close>, a horizon that started at
  \<open>v \<ge> 0\<close> equals \<open>max(0, v - N)\<close>, and a horizon that started below zero is left as it
  was; quantity, name and type are untouched; \<open>is_expired\<close> holds iff
  \<open>spoilage_date \<le> 0\<close> and \<open>is_past_best_before\<close> iff \<open>best_before \<le> 0\<close>, at every point.
\<close>

theorem day_passes_N_times:
  "best_before ((day_passes ^^ N) item) =
      (if 0 \<le> best_before item then max 0 (best_before item - int N) else best_before item)
   \<and> spoilage_date ((day_passes ^^ N) item) =
      (if 0 \<le> spoilage_date item then max 0 (spoilage_date item - int N) else spoilage_date item)
   \<and> quantity ((day_passes ^^ N) item) = quantity item
   \<and> is_expired ((day_passes ^^ N) item) = (spoilage_date ((day_passes ^^ N) item) \<le> 0)
   \<and> is_past_best_before ((day_passes ^^ N) item) = (best_before ((day_passes ^^ N) item) \<le> 0)"
  by (auto simp: day_passes_funpow_best_before day_passes_funpow_spoilage_date
      day_passes_funpow_frame is_expired_def is_past_best_before_def)

subsection \<open>Pantry.step: the classification loop and the removal loop\<close>

lemma fold_fold_concat: "fold (\<lambda>l. fold f l) ls s = fold f (concat ls) s"
  by (induction ls arbitrary: s) simp_all

lemma step_item_cases:
  "step_item S a (h, t) =
     (h[a := day_passes (h ! a)],
      if cls_empty (day_passes (h ! a)) then t\<lparr>empty_items := empty_items t @ [a]\<rparr>
      else if cls_expired (day_passes (h ! a)) then
        t\<lparr>expired_items := expired_items t @ [a],
          weights_expired := (weights_expired t)
            (food_type (h ! a) := weights_expired t (food_type (h ! a)) + quantity (h ! a))\<rparr>
      else if cls_discarded S (day_passes (h ! a)) then
        t\<lparr>strategy_discarded_items := strategy_discarded_items t @ [a],
          weights_strategy_discarded := (weights_strategy_discarded t)
            (food_type (h ! a) := weights_strategy_discarded t (food_type (h ! a)) + quantity (h ! a))\<rparr>
      else t)"
  by (simp add: Let_def cls_empty_def cls_expired_def cls_discarded_def day_passes_fields)

lemma step_loop_heap:
  "fst (fold (step_item S) as (h, t)) = fold (\<lambda>a h. h[a := day_passes (h ! a)]) as h"
  by (induction as arbitrary: h t) (simp_all add: step_item_cases del: step_item.simps)

lemma age_length: "length (fold (\<lambda>a h. h[a := day_passes (h ! a)]) as h) = length h"
  by (induction as arbitrary: h) simp_all

lemma age_nth:
  "distinct as \<Longrightarrow> b < length h \<Longrightarrow>
   fold (\<lambda>a h. h[a := day_passes (h ! a)]) as h ! b = (if b \<in> set as then day_passes (h ! b) else h ! b)"
proof (induction as arbitrary: h)
  case Nil
  then show ?case by simp
next
  case (Cons a as)
  have "a \<noteq> b \<Longrightarrow> h[a := day_passes (h ! a)] ! b = h ! b" by simp
  with Cons show ?case by (cases "a = b") auto
qed

lemma step_loop_tally:
  assumes "distinct as" "\<forall>a\<in>set as. a < length h"
  shows "snd (fold (step_item S) as (h, t)) =
     t\<lparr>expired_items := expired_items t @ filter (\<lambda>a. cls_expired (day_passes (h ! a))) as,
       strategy_discarded_items := strategy_discarded_items t @ filter (\<lambda>a. cls_discarded S (day_passes (h ! a))) as,
       empty_items := empty_items t @ filter (\<lambda>a. cls_empty (day_passes (h ! a))) as,
       weights_expired := (\<lambda>ft. weights_expired t ft +
          mass_of h (filter (\<lambda>a. cls_expired (day_passes (h ! a)) \<and> food_type (h ! a) = ft) as)),
       weights_strategy_discarded := (\<lambda>ft. weights_strategy_discarded t ft +
          mass_of h (filter (\<lambda>a. cls_discarded S (day_passes (h ! a)) \<and> food_type (h ! a) = ft) as))\<rparr>"
  using assms
proof (induction as arbitrary: h t)
  case Nil
  then show ?case by (simp add: mass_of_def)
next
  case (Cons a as)
  have other: "\<And>b. b \<in> set as \<Longrightarrow> h[a := day_passes (h ! a)] ! b = h ! b"
    using Cons.prems by (auto simp: nth_list_update)
  have f: "\<And>P. filter (\<lambda>b. P (h[a := day_passes (h ! a)] ! b)) as = filter (\<lambda>b. P (h ! b)) as"
    by (rule filter_cong) (simp_all add: other)
  have m: "\<And>bs. set bs \<subseteq> set as \<Longrightarrow> mass_of (h[a := day_passes (h ! a)]) bs = mass_of h bs"
    unfolding mass_of_def by (rule arg_cong[where f = sum_list], rule map_cong) (auto simp: other)
  have IH: "\<And>t. snd (fold (step_item S) as (h[a := day_passes (h ! a)], t)) = 
      t\<lparr>expired_items := expired_items t @ filter (\<lambda>a. cls_expired (day_passes (h ! a))) as,
       strategy_discarded_items := strategy_discarded_items t @ filter (\<lambda>a. cls_discarded S (day_passes (h ! a))) as,
       empty_items := empty_items t @ filter (\<lambda>a. cls_empty (day_passes (h ! a))) as,
       weights_expired := (\<lambda>ft. weights_expired t ft +
          mass_of h (filter (\<lambda>a. cls_expired (day_passes (h ! a)) \<and> food_type (h ! a) = ft) as)),
       weights_strategy_discarded := (\<lambda>ft. weights_strategy_discarded t ft +
          mass_of h (filter (\<lambda>a. cls_discarded S (day_passes (h ! a)) \<and> food_type (h ! a) = ft) as))\<rparr>"
    using Cons.prems
    by (subst Cons.IH)
       (simp_all add: f[where P = "\<lambda>x. cls_expired (day_passes x)"] f[where P = "\<lambda>x. cls_discarded S (day_passes x)"]
          f[where P = "\<lambda>x. cls_empty (day_passes x)"]
          f[where P = "\<lambda>x. cls_expired (day_passes x) \<and> food_type x = ft" for ft]
          f[where P = "\<lambda>x. cls_discarded S (day_passes x) \<and> food_type x = ft" for ft] m)
  show ?case
    by (simp add: step_item_cases IH mass_of_def cls_empty_def cls_expired_def cls_discarded_def fun_eq_iff del: step_item.simps)
qed
lemma remove_items_filter:
  assumes "\<forall>a\<in>set rs. a \<in> set (items_by_type p (food_type (h ! a)))"
    and "\<forall>t. distinct (items_by_type p t)"
    and "\<forall>t. \<forall>a\<in>set (items_by_type p t). food_type (h ! a) = t"
    and "distinct rs"
  shows "remove_items h rs p =
           Inr (p\<lparr>items_by_type := (\<lambda>t. filter (\<lambda>a. a \<notin> set rs) (items_by_type p t))\<rparr>)"
  using assms
proof (induction rs arbitrary: p)
  case Nil
  then show ?case by simp
next
  case (Cons a rs)
  let ?ta = "food_type (h ! a)"
  let ?p1 = "p\<lparr>items_by_type := (items_by_type p)(?ta := remove1 a (items_by_type p ?ta))\<rparr>"
  have mem: "a \<in> set (items_by_type p ?ta)" using Cons.prems(1) by simp
  have rm: "\<And>t. items_by_type ?p1 t = filter (\<lambda>x. x \<noteq> a) (items_by_type p t)"
  proof -
    fix t
    show "items_by_type ?p1 t = filter (\<lambda>x. x \<noteq> a) (items_by_type p t)"
    proof (cases "t = ?ta")
      case True
      then show ?thesis using Cons.prems(2)
        by (simp add: distinct_remove1_removeAll removeAll_filter_not_eq) metis
    next
      case False
      then have "a \<notin> set (items_by_type p t)" using Cons.prems(3) by auto
      then have "filter (\<lambda>x. x \<noteq> a) (items_by_type p t) = items_by_type p t"
        by (auto simp: filter_id_conv)
      with False show ?thesis by simp
    qed
  qed
  have step: "remove_items h (a # rs) p = remove_items h rs ?p1"
    using mem by (simp add: list_remove_def)
  have "remove_items h rs ?p1 =
          Inr (?p1\<lparr>items_by_type := (\<lambda>t. filter (\<lambda>a. a \<notin> set rs) (items_by_type ?p1 t))\<rparr>)"
  proof (rule Cons.IH)
    show "\<forall>b\<in>set rs. b \<in> set (items_by_type ?p1 (food_type (h ! b)))"
    proof
      fix b assume b: "b \<in> set rs"
      then have "b \<in> set (items_by_type p (food_type (h ! b)))" using Cons.prems(1) by simp
      moreover have "b \<noteq> a" using b Cons.prems(4) by auto
      ultimately show "b \<in> set (items_by_type ?p1 (food_type (h ! b)))"
        unfolding rm by simp
    qed
    show "\<forall>t. distinct (items_by_type ?p1 t)" unfolding rm using Cons.prems(2) by simp
    show "\<forall>t. \<forall>a\<in>set (items_by_type ?p1 t). food_type (h ! a) = t"
      unfolding rm using Cons.prems(3) by simp
    show "distinct rs" using Cons.prems(4) by simp
  qed
  also have "\<dots> = Inr (p\<lparr>items_by_type := (\<lambda>t. filter (\<lambda>b. b \<notin> set (a # rs)) (items_by_type p t))\<rparr>)"
    unfolding rm by (auto simp: fun_eq_iff intro!: filter_cong)
  finally show ?case using step by simp
qed
lemma all_items_mem: "a \<in> set (all_items p) \<longleftrightarrow> (\<exists>t. a \<in> set (items_by_type p t))"
proof -
  have "\<And>t. t = LEFTOVER \<or> t = PERISHABLE \<or> t = NON_PERISHABLE" by (case_tac t) auto
  then show ?thesis unfolding all_items_def FoodTypes_def by auto metis
qed

lemma pantry_wf_D:
  assumes "pantry_wf h p"
  shows "distinct (all_items p)"
    and "\<And>a. a \<in> set (all_items p) \<Longrightarrow> a < length h"
    and "\<And>a t. a \<in> set (items_by_type p t) \<Longrightarrow> food_type (h ! a) = t"
    and "\<And>t. distinct (items_by_type p t)"
proof -
  show d: "distinct (all_items p)" using assms by (simp add: pantry_wf_def)
  show "\<And>a. a \<in> set (all_items p) \<Longrightarrow> a < length h"
    using assms by (auto simp: pantry_wf_def all_items_mem)
  show "\<And>a t. a \<in> set (items_by_type p t) \<Longrightarrow> food_type (h ! a) = t"
    using assms by (auto simp: pantry_wf_def)
  show "\<And>t. distinct (items_by_type p t)"
  proof -
    fix t
    have "t = LEFTOVER \<or> t = PERISHABLE \<or> t = NON_PERISHABLE" by (cases t) auto
    then show "distinct (items_by_type p t)"
      using d unfolding all_items_def FoodTypes_def by auto
  qed
qed

lemma mass_of_split_types:
  "mass_of h (filter (\<lambda>a. P a \<and> food_type (h ! a) = LEFTOVER) as)
   + (mass_of h (filter (\<lambda>a. P a \<and> food_type (h ! a) = PERISHABLE) as)
   + mass_of h (filter (\<lambda>a. P a \<and> food_type (h ! a) = NON_PERISHABLE) as))
   = mass_of h (filter P as)"
proof (induction as)
  case Nil
  then show ?case by (simp add: mass_of_def)
next
  case (Cons a as)
  then show ?case by (cases "food_type (h ! a)") (auto simp: mass_of_def)
qed

lemma mass_of_cong:
  "(\<And>a. a \<in> set as \<Longrightarrow> quantity (h' ! a) = quantity (h ! a)) \<Longrightarrow> mass_of h' as = mass_of h as"
  unfolding mass_of_def by (rule arg_cong[where f = sum_list], rule map_cong) auto

lemma mass_of_append: "mass_of h (xs @ ys) = mass_of h xs + mass_of h ys"
  by (simp add: mass_of_def)

lemma mass_of_filter_partition:
  "mass_of h (filter P as) + mass_of h (filter (\<lambda>a. \<not> P a) as) = mass_of h as"
  by (induction as) (auto simp: mass_of_def)

lemma cls_exclusive:
  "cls_expired i \<Longrightarrow> \<not> cls_empty i" "cls_discarded S i \<Longrightarrow> \<not> cls_empty i"
  "cls_discarded S i \<Longrightarrow> \<not> cls_expired i"
  by (auto simp: cls_expired_def cls_empty_def cls_discarded_def)

lemma Pantry_step_result:
  fixes strategy :: PantryStrategy and h :: heap and p :: Pantry
  assumes wf: "pantry_wf h p"
  defines "h' \<equiv> fold (\<lambda>a h. h[a := day_passes (h ! a)]) (all_items p) h"
  defines "gone \<equiv> (\<lambda>a. cls_expired (h' ! a) \<or> cls_discarded strategy (h' ! a) \<or> cls_empty (h' ! a))"
  shows "Pantry_step strategy h p =
     Inr (h', p\<lparr>items_by_type := (\<lambda>t. filter (\<lambda>a. \<not> gone a) (items_by_type p t)),
               current_day := current_day p + 1,
               expired_discards := (expired_discards p)(current_day p + 1 :=
                  Some (\<lambda>ft. mass_of h' (filter (\<lambda>a. cls_expired (h' ! a) \<and> food_type (h' ! a) = ft) (all_items p)))),
               strategy_discards := (strategy_discards p)(current_day p + 1 :=
                  Some (\<lambda>ft. mass_of h' (filter (\<lambda>a. cls_discarded strategy (h' ! a) \<and> food_type (h' ! a) = ft) (all_items p))))\<rparr>)"
proof -
  let ?as = "all_items p"
  note D = pantry_wf_D[OF wf]
  have bnd: "\<forall>a\<in>set ?as. a < length h" using D(2) by blast
  have h'_nth: "\<And>a. a \<in> set ?as \<Longrightarrow> h' ! a = day_passes (h ! a)"
    unfolding h'_def using D(1,2) by (simp add: age_nth)
  have q: "\<And>a. a \<in> set ?as \<Longrightarrow> quantity (h' ! a) = quantity (h ! a)"
    and ft: "\<And>a. a \<in> set ?as \<Longrightarrow> food_type (h' ! a) = food_type (h ! a)"
    by (simp_all add: h'_nth day_passes_fields)
  have fc: "\<And>P. filter (\<lambda>a. P (day_passes (h ! a)) (h ! a)) ?as = filter (\<lambda>a. P (h' ! a) (h ! a)) ?as"
    by (rule filter_cong) (simp_all add: h'_nth)
  define t where "t = snd (fold (step_item strategy) ?as (h, tally_init))"
  have loop: "fold (\<lambda>food_list. fold (step_item strategy) food_list)
                (map (items_by_type (p\<lparr>current_day := current_day p + 1\<rparr>)) FoodTypes) (h, tally_init) = (h', t)"
    unfolding fold_fold_concat t_def h'_def
    by (simp add: all_items_def prod_eq_iff step_loop_heap)
  have t_eq: "t = tally_init\<lparr>expired_items := filter (\<lambda>a. cls_expired (h' ! a)) ?as,
       strategy_discarded_items := filter (\<lambda>a. cls_discarded strategy (h' ! a)) ?as,
       empty_items := filter (\<lambda>a. cls_empty (h' ! a)) ?as,
       weights_expired := (\<lambda>ft. mass_of h (filter (\<lambda>a. cls_expired (h' ! a) \<and> food_type (h ! a) = ft) ?as)),
       weights_strategy_discarded := (\<lambda>ft.
          mass_of h (filter (\<lambda>a. cls_discarded strategy (h' ! a) \<and> food_type (h ! a) = ft) ?as))\<rparr>"
    unfolding t_def step_loop_tally[OF D(1) bnd]
    using fc[where P = "\<lambda>x y. cls_expired x"] fc[where P = "\<lambda>x y. cls_discarded strategy x"]
      fc[where P = "\<lambda>x y. cls_empty x"]
      fc[where P = "\<lambda>x y. cls_expired x \<and> food_type y = ft" for ft]
      fc[where P = "\<lambda>x y. cls_discarded strategy x \<and> food_type y = ft" for ft]
    by (simp add: tally_init_def)
  let ?rs = "expired_items t @ strategy_discarded_items t @ empty_items t"
  have rs_set: "set ?rs = {a \<in> set ?as. gone a}"
    unfolding t_eq gone_def by auto
  have rs_dist: "distinct ?rs"
    unfolding t_eq using D(1) by (auto dest: cls_exclusive)
  let ?p3 = "p\<lparr>current_day := current_day p + 1,
               expired_discards := (expired_discards p)(current_day p + 1 := Some (weights_expired t)),
               strategy_discards := (strategy_discards p)(current_day p + 1 := Some (weights_strategy_discarded t))\<rparr>"
  have rem: "remove_items h' ?rs ?p3 =
      Inr (?p3\<lparr>items_by_type := (\<lambda>t'. filter (\<lambda>a. a \<notin> set ?rs) (items_by_type ?p3 t'))\<rparr>)"
  proof (rule remove_items_filter)
    show "\<forall>a\<in>set ?rs. a \<in> set (items_by_type ?p3 (food_type (h' ! a)))"
    proof
      fix a assume "a \<in> set ?rs"
      then have a: "a \<in> set ?as" using rs_set by blast
      then obtain ta where ta: "a \<in> set (items_by_type p ta)" by (auto simp: all_items_mem)
      then have "food_type (h' ! a) = ta" using D(3) ft[OF a] by simp
      with ta show "a \<in> set (items_by_type ?p3 (food_type (h' ! a)))" by simp
    qed
    show "\<forall>t. distinct (items_by_type ?p3 t)" using D(4) by simp
    show "\<forall>t. \<forall>a\<in>set (items_by_type ?p3 t). food_type (h' ! a) = t"
      using D(3) ft by (auto simp: all_items_mem)
    show "distinct ?rs" by (rule rs_dist)
  qed
  have flt: "\<And>t'. filter (\<lambda>a. a \<notin> set ?rs) (items_by_type p t') = filter (\<lambda>a. \<not> gone a) (items_by_type p t')"
  proof -
    fix t'
    have "\<And>a. a \<in> set (items_by_type p t') \<Longrightarrow> (a \<notin> set ?rs) = (\<not> gone a)"
      using rs_set all_items_mem by blast
    then show "filter (\<lambda>a. a \<notin> set ?rs) (items_by_type p t') = filter (\<lambda>a. \<not> gone a) (items_by_type p t')"
      by (intro filter_cong refl)
  qed
  have w1: "weights_expired t =
      (\<lambda>ft. mass_of h' (filter (\<lambda>a. cls_expired (h' ! a) \<and> food_type (h' ! a) = ft) ?as))"
  proof
    fix ft'
    have "filter (\<lambda>a. cls_expired (h' ! a) \<and> food_type (h ! a) = ft') ?as
        = filter (\<lambda>a. cls_expired (h' ! a) \<and> food_type (h' ! a) = ft') ?as"
      by (rule filter_cong) (simp_all add: ft)
    moreover have "mass_of h (filter (\<lambda>a. cls_expired (h' ! a) \<and> food_type (h' ! a) = ft') ?as)
        = mass_of h' (filter (\<lambda>a. cls_expired (h' ! a) \<and> food_type (h' ! a) = ft') ?as)"
      by (rule mass_of_cong[symmetric]) (simp add: q)
    ultimately show "weights_expired t ft' =
       mass_of h' (filter (\<lambda>a. cls_expired (h' ! a) \<and> food_type (h' ! a) = ft') ?as)"
      by (simp add: t_eq)
  qed
  have w2: "weights_strategy_discarded t =
      (\<lambda>ft. mass_of h' (filter (\<lambda>a. cls_discarded strategy (h' ! a) \<and> food_type (h' ! a) = ft) ?as))"
  proof
    fix ft'
    have "filter (\<lambda>a. cls_discarded strategy (h' ! a) \<and> food_type (h ! a) = ft') ?as
        = filter (\<lambda>a. cls_discarded strategy (h' ! a) \<and> food_type (h' ! a) = ft') ?as"
      by (rule filter_cong) (simp_all add: ft)
    moreover have "mass_of h (filter (\<lambda>a. cls_discarded strategy (h' ! a) \<and> food_type (h' ! a) = ft') ?as)
        = mass_of h' (filter (\<lambda>a. cls_discarded strategy (h' ! a) \<and> food_type (h' ! a) = ft') ?as)"
      by (rule mass_of_cong[symmetric]) (simp add: q)
    ultimately show "weights_strategy_discarded t ft' =
       mass_of h' (filter (\<lambda>a. cls_discarded strategy (h' ! a) \<and> food_type (h' ! a) = ft') ?as)"
      by (simp add: t_eq)
  qed
  have "Pantry_step strategy h p =
          (case remove_items h' ?rs ?p3 of Inl e \<Rightarrow> Inl e | Inr p4 \<Rightarrow> Inr (h', p4))"
    unfolding Pantry_step_def Let_def loop by simp
  also have "\<dots> = Inr (h', ?p3\<lparr>items_by_type := (\<lambda>t'. filter (\<lambda>a. a \<notin> set ?rs) (items_by_type ?p3 t'))\<rparr>)"
    unfolding rem by simp
  finally show ?thesis
    by (simp add: flt[simplified] w1 w2)
qed
lemma removed_items_filter:
  assumes "distinct (all_items p)"
    and "\<And>t. items_by_type p' t = filter (\<lambda>a. \<not> gone a) (items_by_type p t)"
  shows "removed_items p p' = filter gone (all_items p)"
proof -
  have "\<And>a. a \<in> set (all_items p) \<Longrightarrow> (a \<notin> set (all_items p')) = gone a"
    using assms(2) by (auto simp: all_items_mem)
  then show ?thesis unfolding removed_items_def by (intro filter_cong refl)
qed

lemma mass_of_filter_disj:
  "(\<And>a. P a \<Longrightarrow> \<not> Q a) \<Longrightarrow>
   mass_of h (filter (\<lambda>a. P a \<or> Q a) as) = mass_of h (filter P as) + mass_of h (filter Q as)"
  by (induction as) (auto simp: mass_of_def)

text \<open>
  Claim C1, as stated, at a pantry that stores one object twice (\<open>add_item\<close> called twice
  with the same item, of mass 4 with horizons 1 and 2) under the strict strategy: the loop
  of \<open>Pantry.step\<close> visits the object twice. At the first visit it is past its best-before
  date and not yet expired, so the strategy discards it and its mass goes to the strategy
  bucket; at the second visit it has aged once more and is expired, so its mass goes to the
  expired bucket as well. The step returns normally, the one object is in both lists and
  counted in both buckets, and the buckets total 8 for an object of mass 4.
\<close>

theorem Pantry_step_stored_twice_counterexample:
  "all_items twice_pantry = [0, 0]
   \<and> quantity (twice_heap ! 0) = 4
   \<and> expired_items (snd (fold (step_item StrictStrategy) (all_items twice_pantry) (twice_heap, tally_init))) = [0]
   \<and> strategy_discarded_items (snd (fold (step_item StrictStrategy) (all_items twice_pantry) (twice_heap, tally_init))) = [0]
   \<and> Pantry_step StrictStrategy twice_heap twice_pantry =
       Inr ([\<lparr>name = ''Milk'', food_type = PERISHABLE, best_before = 0, spoilage_date = 0, quantity = 4\<rparr>],
            \<lparr>items_by_type = (\<lambda>_. []),
             strategy_discards = (\<lambda>_. None)(1 := Some ((\<lambda>_. 0)(PERISHABLE := 4))),
             expired_discards = (\<lambda>_. None)(1 := Some ((\<lambda>_. 0)(PERISHABLE := 4))),
             current_day = 1\<rparr>)
   \<and> sum_values ((\<lambda>_. 0)(PERISHABLE := 4)) + sum_values ((\<lambda>_. 0)(PERISHABLE := 4)) = 8"
proof -
  have a: "all_items twice_pantry = [0, 0]"
    by (simp add: twice_pantry_def add_item_def twice_heap_def Pantry_init_def all_items_def FoodTypes_def)
  have b: "quantity (twice_heap ! 0) = 4" by (simp add: twice_heap_def)
  have f: "fold (step_item StrictStrategy) [0, 0] (twice_heap, tally_init)
     = ([\<lparr>name = ''Milk'', food_type = PERISHABLE, best_before = 0, spoilage_date = 0, quantity = 4\<rparr>],
        \<lparr>expired_items = [0], strategy_discarded_items = [0], empty_items = [],
         weights_expired = (\<lambda>_. 0)(PERISHABLE := 4), weights_strategy_discarded = (\<lambda>_. 0)(PERISHABLE := 4)\<rparr>)"
    by (simp add: twice_heap_def tally_init_def day_passes_def is_expired_def is_past_best_before_def
        StrictStrategy_def Let_def)
  have c: "expired_items (snd (fold (step_item StrictStrategy) (all_items twice_pantry) (twice_heap, tally_init))) = [0]"
    unfolding a f by simp
  have d: "strategy_discarded_items (snd (fold (step_item StrictStrategy) (all_items twice_pantry) (twice_heap, tally_init))) = [0]"
    unfolding a f by simp
  have e: "Pantry_step StrictStrategy twice_heap twice_pantry =
       Inr ([\<lparr>name = ''Milk'', food_type = PERISHABLE, best_before = 0, spoilage_date = 0, quantity = 4\<rparr>],
            \<lparr>items_by_type = (\<lambda>_. []),
             strategy_discards = (\<lambda>_. None)(1 := Some ((\<lambda>_. 0)(PERISHABLE := 4))),
             expired_discards = (\<lambda>_. None)(1 := Some ((\<lambda>_. 0)(PERISHABLE := 4))),
             current_day = 1\<rparr>)"
    by (simp add: Pantry_step_def twice_heap_def twice_pantry_def add_item_def FoodTypes_def Pantry_init_def tally_init_def
      day_passes_def is_expired_def is_past_best_before_def StrictStrategy_def list_remove_def Let_def fun_eq_iff)
  have g: "sum_values ((\<lambda>_. 0)(PERISHABLE := 4)) + sum_values ((\<lambda>_. 0)(PERISHABLE := 4)) = 8"
    by (simp add: sum_values_def FoodTypes_def)
  from a b c d e g show ?thesis by (intro conjI)
qed

text \<open>
  Claim C1, amended: for every pantry state in which every item is stored once and under
  its own food type, every strategy and every single call, \<open>Pantry.step\<close> returns normally.
  It ages exactly the stored items (one \<open>day_passes\<close> each, every other object untouched),
  advances the day by one, keeps exactly the items that after aging are neither empty nor
  expired nor flagged by the strategy, and writes the two buckets of the new day, leaving
  the buckets of every other day as they were. Per category and in total, the expired
  bucket is the mass the removed items that are non-empty and expired had before the call,
  the strategy bucket the mass of the removed items that are non-empty, not expired and
  flagged by the strategy, and both together the mass of all removed non-empty items (an
  item removed as empty, quantity \<open>\<le> 0.001\<close>, adds to neither). Every removed item falls
  in exactly one of the three classes, so none is counted in both buckets.
\<close>

theorem Pantry_step_conservation:
  assumes "pantry_wf h p"
  shows "\<exists>h' p' we ws.
      Pantry_step strategy h p = Inr (h', p')
    \<and> length h' = length h
    \<and> (\<forall>a < length h. h' ! a = (if a \<in> set (all_items p) then day_passes (h ! a) else h ! a))
    \<and> current_day p' = current_day p + 1
    \<and> expired_discards p' = (expired_discards p)(current_day p + 1 := Some we)
    \<and> strategy_discards p' = (strategy_discards p)(current_day p + 1 := Some ws)
    \<and> (\<forall>t. items_by_type p' t =
            filter (\<lambda>a. \<not> cls_expired (day_passes (h ! a)) \<and> \<not> cls_discarded strategy (day_passes (h ! a))
                        \<and> \<not> cls_empty (day_passes (h ! a))) (items_by_type p t))
    \<and> (\<forall>t. we t = mass_of h (filter (\<lambda>a. cls_expired (day_passes (h ! a)) \<and> food_type (h ! a) = t)
                                (removed_items p p')))
    \<and> (\<forall>t. ws t = mass_of h (filter (\<lambda>a. cls_discarded strategy (day_passes (h ! a)) \<and> food_type (h ! a) = t)
                                (removed_items p p')))
    \<and> sum_values we = mass_of h (filter (\<lambda>a. cls_expired (day_passes (h ! a))) (removed_items p p'))
    \<and> sum_values ws = mass_of h (filter (\<lambda>a. cls_discarded strategy (day_passes (h ! a))) (removed_items p p'))
    \<and> sum_values we + sum_values ws
         = mass_of h (filter (\<lambda>a. \<not> cls_empty (day_passes (h ! a))) (removed_items p p'))
    \<and> distinct (removed_items p p')
    \<and> (\<forall>a \<in> set (removed_items p p').
          (cls_expired (day_passes (h ! a)) \<and> \<not> cls_discarded strategy (day_passes (h ! a))
             \<and> \<not> cls_empty (day_passes (h ! a)))
        \<or> (\<not> cls_expired (day_passes (h ! a)) \<and> cls_discarded strategy (day_passes (h ! a))
             \<and> \<not> cls_empty (day_passes (h ! a)))
        \<or> (\<not> cls_expired (day_passes (h ! a)) \<and> \<not> cls_discarded strategy (day_passes (h ! a))
             \<and> cls_empty (day_passes (h ! a))))"
proof -
  let ?as = "all_items p"
  define h' where "h' = fold (\<lambda>a h. h[a := day_passes (h ! a)]) ?as h"
  define gone where "gone = (\<lambda>a. cls_expired (h' ! a) \<or> cls_discarded strategy (h' ! a) \<or> cls_empty (h' ! a))"
  define gone0 where "gone0 = (\<lambda>a. cls_expired (day_passes (h ! a)) \<or> cls_discarded strategy (day_passes (h ! a))
      \<or> cls_empty (day_passes (h ! a)))"
  define we where "we = (\<lambda>ft. mass_of h' (filter (\<lambda>a. cls_expired (h' ! a) \<and> food_type (h' ! a) = ft) ?as))"
  define ws where "ws = (\<lambda>ft. mass_of h' (filter (\<lambda>a. cls_discarded strategy (h' ! a) \<and> food_type (h' ! a) = ft) ?as))"
  define p' where "p' = p\<lparr>items_by_type := (\<lambda>t. filter (\<lambda>a. \<not> gone a) (items_by_type p t)),
               current_day := current_day p + 1,
               expired_discards := (expired_discards p)(current_day p + 1 := Some we),
               strategy_discards := (strategy_discards p)(current_day p + 1 := Some ws)\<rparr>"
  have res: "Pantry_step strategy h p = Inr (h', p')"
    unfolding p'_def we_def ws_def gone_def h'_def by (rule Pantry_step_result[OF assms])
  note D = pantry_wf_D[OF assms]
  have len: "length h' = length h" by (simp add: h'_def age_length)
  have nth: "\<forall>a < length h. h' ! a = (if a \<in> set ?as then day_passes (h ! a) else h ! a)"
    unfolding h'_def using age_nth[OF D(1)] by blast
  have st: "\<And>a. a \<in> set ?as \<Longrightarrow> h' ! a = day_passes (h ! a)"
    using nth D(2) by simp
  have q: "\<And>a. a \<in> set ?as \<Longrightarrow> quantity (h' ! a) = quantity (h ! a)"
    and ft: "\<And>a. a \<in> set ?as \<Longrightarrow> food_type (h' ! a) = food_type (h ! a)"
    by (simp_all add: st day_passes_fields)
  have g0: "\<And>a. a \<in> set ?as \<Longrightarrow> gone a = gone0 a" by (simp add: gone_def gone0_def st)
  have items: "items_by_type p' t = filter (\<lambda>a. \<not> gone0 a) (items_by_type p t)" for t
  proof -
    have "filter (\<lambda>a. \<not> gone a) (items_by_type p t) = filter (\<lambda>a. \<not> gone0 a) (items_by_type p t)"
      by (rule filter_cong[OF refl]) (use g0 in \<open>auto simp: all_items_mem\<close>)
    thus ?thesis by (simp add: p'_def)
  qed
  have rem: "removed_items p p' = filter gone0 ?as"
    by (rule removed_items_filter[OF D(1)]) (rule items)
  have sub: "set (filter gone0 ?as) \<subseteq> set ?as" by auto
  have conv: "mass_of h' (filter (\<lambda>a. P (h' ! a)) ?as) = mass_of h (filter (\<lambda>a. P (day_passes (h ! a))) ?as)" for P
  proof -
    have "filter (\<lambda>a. P (h' ! a)) ?as = filter (\<lambda>a. P (day_passes (h ! a))) ?as"
      by (rule filter_cong[OF refl]) (simp add: st)
    moreover have "mass_of h' (filter (\<lambda>a. P (day_passes (h ! a))) ?as) = mass_of h (filter (\<lambda>a. P (day_passes (h ! a))) ?as)"
      by (rule mass_of_cong) (simp add: q)
    ultimately show ?thesis by simp
  qed
  have we_t: "we t = mass_of h (filter (\<lambda>a. cls_expired (day_passes (h ! a)) \<and> food_type (h ! a) = t) (removed_items p p'))" for t
  proof -
    have "we t = mass_of h (filter (\<lambda>a. cls_expired (day_passes (h ! a)) \<and> food_type (day_passes (h ! a)) = t) ?as)"
      unfolding we_def using conv[of "\<lambda>i. cls_expired i \<and> food_type i = t"] by simp
    also have "filter (\<lambda>a. cls_expired (day_passes (h ! a)) \<and> food_type (day_passes (h ! a)) = t) ?as
        = filter (\<lambda>a. cls_expired (day_passes (h ! a)) \<and> food_type (h ! a) = t) (filter gone0 ?as)"
      unfolding filter_filter by (rule filter_cong[OF refl]) (auto simp: gone0_def day_passes_fields)
    finally show ?thesis by (simp only: rem)
  qed
  have ws_t: "ws t = mass_of h (filter (\<lambda>a. cls_discarded strategy (day_passes (h ! a)) \<and> food_type (h ! a) = t) (removed_items p p'))" for t
  proof -
    have "ws t = mass_of h (filter (\<lambda>a. cls_discarded strategy (day_passes (h ! a)) \<and> food_type (day_passes (h ! a)) = t) ?as)"
      unfolding ws_def using conv[of "\<lambda>i. cls_discarded strategy i \<and> food_type i = t"] by simp
    also have "filter (\<lambda>a. cls_discarded strategy (day_passes (h ! a)) \<and> food_type (day_passes (h ! a)) = t) ?as
        = filter (\<lambda>a. cls_discarded strategy (day_passes (h ! a)) \<and> food_type (h ! a) = t) (filter gone0 ?as)"
      unfolding filter_filter by (rule filter_cong[OF refl]) (auto simp: gone0_def day_passes_fields)
    finally show ?thesis by (simp only: rem)
  qed
  have swe: "sum_values we = mass_of h (filter (\<lambda>a. cls_expired (day_passes (h ! a))) (removed_items p p'))"
    unfolding sum_values_def FoodTypes_def we_t
    using mass_of_split_types[of h "\<lambda>a. cls_expired (day_passes (h ! a))" "removed_items p p'"] by simp
  have sws: "sum_values ws = mass_of h (filter (\<lambda>a. cls_discarded strategy (day_passes (h ! a))) (removed_items p p'))"
    unfolding sum_values_def FoodTypes_def ws_t
    using mass_of_split_types[of h "\<lambda>a. cls_discarded strategy (day_passes (h ! a))" "removed_items p p'"] by simp
  have f3: "filter (\<lambda>a. \<not> cls_empty (day_passes (h ! a))) (removed_items p p')
      = filter (\<lambda>a. cls_expired (day_passes (h ! a)) \<or> cls_discarded strategy (day_passes (h ! a))) (removed_items p p')"
    unfolding rem filter_filter by (rule filter_cong[OF refl]) (auto simp: gone0_def dest: cls_exclusive)
  have both: "sum_values we + sum_values ws
         = mass_of h (filter (\<lambda>a. \<not> cls_empty (day_passes (h ! a))) (removed_items p p'))"
    unfolding f3 swe sws
    by (rule mass_of_filter_disj[symmetric]) (auto dest: cls_exclusive)
  have c1: "current_day p' = current_day p + 1" by (simp add: p'_def)
  have c2: "expired_discards p' = (expired_discards p)(current_day p + 1 := Some we)" by (simp add: p'_def)
  have c3: "strategy_discards p' = (strategy_discards p)(current_day p + 1 := Some ws)" by (simp add: p'_def)
  have c6: "distinct (removed_items p p')" using D(1) by (simp add: rem)
  have c7: "\<forall>a \<in> set (removed_items p p').
          (cls_expired (day_passes (h ! a)) \<and> \<not> cls_discarded strategy (day_passes (h ! a))
             \<and> \<not> cls_empty (day_passes (h ! a)))
        \<or> (\<not> cls_expired (day_passes (h ! a)) \<and> cls_discarded strategy (day_passes (h ! a))
             \<and> \<not> cls_empty (day_passes (h ! a)))
        \<or> (\<not> cls_expired (day_passes (h ! a)) \<and> \<not> cls_discarded strategy (day_passes (h ! a))
             \<and> cls_empty (day_passes (h ! a)))"
    unfolding rem by (auto simp: gone0_def dest: cls_exclusive)
  have it: "\<forall>t. items_by_type p' t =
            filter (\<lambda>a. \<not> cls_expired (day_passes (h ! a)) \<and> \<not> cls_discarded strategy (day_passes (h ! a))
                        \<and> \<not> cls_empty (day_passes (h ! a))) (items_by_type p t)"
    using items by (simp add: gone0_def)
  from res len nth c1 c2 c3 it we_t ws_t swe sws both c6 c7 show ?thesis by blast
qed

lemma step_item_Lax: "step_item LaxStrategy a s = step_item (\<lambda>_. False) a s"
  by (cases s) (simp add: step_item_cases cls_discarded_def LaxStrategy_def del: step_item.simps)

lemma step_loop_no_discards:
  "weights_strategy_discarded (snd (fold (step_item (\<lambda>_. False)) as (h, t))) = weights_strategy_discarded t"
  by (induction as arbitrary: h t) (simp_all add: step_item_cases cls_discarded_def del: step_item.simps)

lemma remove_items_frame:
  "remove_items h rs p = Inr p' \<Longrightarrow>
     strategy_discards p' = strategy_discards p \<and> expired_discards p' = expired_discards p
     \<and> current_day p' = current_day p"
  by (induction rs arbitrary: p) (auto split: sum.splits)

text \<open>
  Claim C8. On every pantry state (well-formed or not) \<open>Pantry.step\<close> with \<open>LaxStrategy\<close>
  computes exactly what it computes with a strategy whose \<open>should_discard\<close> is constantly
  false, and whenever it returns, the strategy-discards bucket of the new day is zero for
  every food category: \<open>should_discard\<close> is only consulted for an item that is not
  expired, where \<open>LaxStrategy\<close> answers false.
\<close>

theorem LaxStrategy_step_never_discards:
  "Pantry_step LaxStrategy h p = Pantry_step (\<lambda>_. False) h p
   \<and> (\<forall>h' p'. Pantry_step LaxStrategy h p = Inr (h', p') \<longrightarrow>
         strategy_discards p' (current_day p') = Some (\<lambda>_. 0))"
proof -
  have eq: "step_item LaxStrategy = step_item (\<lambda>_. False)"
    by (intro ext) (rule step_item_Lax)
  have A: "Pantry_step LaxStrategy h p = Pantry_step (\<lambda>_. False) h p"
    unfolding Pantry_step_def eq ..
  have B: "strategy_discards p' (current_day p') = Some (\<lambda>_. 0)"
    if "Pantry_step (\<lambda>_. False) h p = Inr (h', p')" for h' p'
  proof -
    obtain hh t where ht: "fold (\<lambda>food_list. fold (step_item (\<lambda>_. False)) food_list)
         (map (items_by_type (p\<lparr>current_day := current_day p + 1\<rparr>)) FoodTypes) (h, tally_init) = (hh, t)"
      by (cases "fold (\<lambda>food_list. fold (step_item (\<lambda>_. False)) food_list)
         (map (items_by_type (p\<lparr>current_day := current_day p + 1\<rparr>)) FoodTypes) (h, tally_init)") auto
    have "weights_strategy_discarded t = weights_strategy_discarded tally_init"
      using step_loop_no_discards[of "concat (map (items_by_type (p\<lparr>current_day := current_day p + 1\<rparr>)) FoodTypes)" h tally_init]
        ht unfolding fold_fold_concat by simp
    then have w: "weights_strategy_discarded t = (\<lambda>_. 0)" by (simp add: tally_init_def)
    from that show ?thesis
      unfolding Pantry_step_def Let_def ht
      by (auto split: sum.splits dest!: remove_items_frame simp: w)
  qed
  from A B show ?thesis by simp
qed
lemma example_wf: "pantry_wf example_heap example_pantry"
  by (simp add: pantry_wf_def example_heap_def example_pantry_def all_items_def FoodTypes_def Pantry_init_def
      nth_Cons')

theorem Pantry_step_conservation_witness:
  "pantry_wf example_heap example_pantry
   \<and> (\<exists>h' p' we ws.
      Pantry_step StrictStrategy example_heap example_pantry = Inr (h', p')
    \<and> current_day p' = 1
    \<and> expired_discards p' 1 = Some we
    \<and> strategy_discards p' 1 = Some ws
    \<and> removed_items example_pantry p' = [1, 0]
    \<and> sum_values we = 3
    \<and> sum_values ws = 2)"
proof -
  have wf: "pantry_wf example_heap example_pantry" by (rule example_wf)
  have all: "all_items example_pantry = [1, 0, 2]"
    by (simp add: example_pantry_def all_items_def FoodTypes_def Pantry_init_def)
  have cd: "current_day example_pantry = 0" by (simp add: example_pantry_def Pantry_init_def)
  have cls: "cls_expired (day_passes (example_heap ! 1))" "\<not> cls_expired (day_passes (example_heap ! 0))"
    "cls_discarded StrictStrategy (day_passes (example_heap ! 0))"
    "\<not> cls_discarded StrictStrategy (day_passes (example_heap ! 1))"
    "\<not> cls_empty (day_passes (example_heap ! 0))" "\<not> cls_empty (day_passes (example_heap ! 1))"
    "\<not> cls_expired (day_passes (example_heap ! 2))" "\<not> cls_empty (day_passes (example_heap ! 2))"
    "\<not> cls_discarded StrictStrategy (day_passes (example_heap ! 2))"
    by (simp_all add: example_heap_def cls_expired_def cls_discarded_def cls_empty_def day_passes_def
        is_expired_def is_past_best_before_def StrictStrategy_def Let_def)
  from Pantry_step_conservation[OF wf, of StrictStrategy] obtain h' p' we ws where
    res: "Pantry_step StrictStrategy example_heap example_pantry = Inr (h', p')"
    and day: "current_day p' = current_day example_pantry + 1"
    and e: "expired_discards p' = (expired_discards example_pantry)(current_day example_pantry + 1 := Some we)"
    and s: "strategy_discards p' = (strategy_discards example_pantry)(current_day example_pantry + 1 := Some ws)"
    and it: "\<forall>t. items_by_type p' t =
            filter (\<lambda>a. \<not> cls_expired (day_passes (example_heap ! a))
                        \<and> \<not> cls_discarded StrictStrategy (day_passes (example_heap ! a))
                        \<and> \<not> cls_empty (day_passes (example_heap ! a))) (items_by_type example_pantry t)"
    and swe: "sum_values we = mass_of example_heap
                (filter (\<lambda>a. cls_expired (day_passes (example_heap ! a))) (removed_items example_pantry p'))"
    and sws: "sum_values ws = mass_of example_heap
                (filter (\<lambda>a. cls_discarded StrictStrategy (day_passes (example_heap ! a)))
                   (removed_items example_pantry p'))"
    by blast
  have all': "all_items p' = [2]"
    using cls by (simp add: all_items_def FoodTypes_def it example_pantry_def Pantry_init_def)
  have rem: "removed_items example_pantry p' = [1, 0]" by (simp add: removed_items_def all all')
  have 1: "current_day p' = 1" using day cd by simp
  have 2: "expired_discards p' 1 = Some we" using e cd by simp
  have 3: "strategy_discards p' 1 = Some ws" using s cd by simp
  have 4: "sum_values we = 3" unfolding swe rem using cls by (simp add: mass_of_def example_heap_def)
  have 5: "sum_values ws = 2" unfolding sws rem using cls by (simp add: mass_of_def example_heap_def)
  from wf res 1 2 3 rem 4 5 show ?thesis by blast
qed

lemma LaxStrategy_example_step:
  "Pantry_step LaxStrategy example_heap example_pantry =
     Inr ([\<lparr>name = ''LeftoverItem1'', food_type = LEFTOVER, best_before = 0, spoilage_date = 4, quantity = 2\<rparr>,
      \<lparr>name = ''LeftoverItem2'', food_type = LEFTOVER, best_before = 0, spoilage_date = 0, quantity = 3\<rparr>,
      \<lparr>name = ''PerishableItem'', food_type = PERISHABLE, best_before = 3, spoilage_date = 5, quantity = 1\<rparr>],
      \<lparr>items_by_type = (\<lambda>_. [])(LEFTOVER := [0], PERISHABLE := [2]),
       strategy_discards = [1 \<mapsto> (\<lambda>_. 0)], expired_discards = [1 \<mapsto> (\<lambda>_. 0)(LEFTOVER := 3)], current_day = 1\<rparr>)"
  by (simp add: Pantry_step_def example_heap_def example_pantry_def FoodTypes_def Pantry_init_def tally_init_def
      day_passes_def is_expired_def LaxStrategy_def list_remove_def Let_def fun_eq_iff)

theorem LaxStrategy_step_never_discards_witness:
  "Pantry_step LaxStrategy example_heap example_pantry =
     Inr ([\<lparr>name = ''LeftoverItem1'', food_type = LEFTOVER, best_before = 0, spoilage_date = 4, quantity = 2\<rparr>,
      \<lparr>name = ''LeftoverItem2'', food_type = LEFTOVER, best_before = 0, spoilage_date = 0, quantity = 3\<rparr>,
      \<lparr>name = ''PerishableItem'', food_type = PERISHABLE, best_before = 3, spoilage_date = 5, quantity = 1\<rparr>],
      \<lparr>items_by_type = (\<lambda>_. [])(LEFTOVER := [0], PERISHABLE := [2]),
       strategy_discards = [1 \<mapsto> (\<lambda>_. 0)], expired_discards = [1 \<mapsto> (\<lambda>_. 0)(LEFTOVER := 3)], current_day = 1\<rparr>)
   \<and> Pantry_step LaxStrategy example_heap example_pantry = Pantry_step (\<lambda>_. False) example_heap example_pantry
   \<and> [1 \<mapsto> (\<lambda>_. 0 :: real)] (1 :: nat) = Some (\<lambda>_ :: FoodType. 0)"
proof -
  note e = LaxStrategy_example_step
  note t = LaxStrategy_step_never_discards[of example_heap example_pantry]
  from t[THEN conjunct2, rule_format, OF e] have "[1 \<mapsto> (\<lambda>_. 0 :: real)] (1 :: nat) = Some (\<lambda>_ :: FoodType. 0)"
    by simp
  with t[THEN conjunct1] e show ?thesis by (intro conjI)
qed

subsection \<open>Meal planning\<close>

text \<open>
  Claim C6. For every planned meal and pantry state, both \<open>FreshFirstStrategy\<close> and
  \<open>ProportionalConsumptionStrategy\<close> return a meal whose consumption pattern has exactly
  the three food categories as keys, with masses that sum to \<open>planned_meal.total_grams\<close>
  (in exact arithmetic).
\<close>

theorem plan_meal_sums_to_total:
  "map fst (consumption_patterns (plan_meal strategy total_grams h p)) = [LEFTOVER, PERISHABLE, NON_PERISHABLE]
   \<and> sum_list (map snd (consumption_patterns (plan_meal strategy total_grams h p))) = total_grams"
  by (cases strategy) (simp_all add: plan_meal_def Let_def)

subsection \<open>Consumption strategies and Meal.consume\<close>

lemma basic_walk_keys: "fst ` set (basic_walk h xs amount) \<subseteq> set xs"
  by (induction xs arbitrary: amount) (auto split: if_splits)

lemma basic_walk_distinct: "distinct xs \<Longrightarrow> distinct (map fst (basic_walk h xs amount))"
proof (induction xs arbitrary: amount)
  case Nil
  then show ?case by simp
next
  case (Cons x xs)
  have "\<And>am. x \<notin> fst ` set (basic_walk h xs am)" using basic_walk_keys[of h xs] Cons.prems by auto
  with Cons show ?case by auto
qed

lemma basic_walk_le: "(a, amt) \<in> set (basic_walk h xs amount) \<Longrightarrow> amt \<le> quantity (h ! a)"
  by (induction xs arbitrary: amount) (auto split: if_splits)

lemma random_choice_mem: "xs \<noteq> [] \<Longrightarrow> fst (random_choice xs rng) \<in> set xs"
  by (simp add: random_choice_def)

lemma random_walk_stop: "random_walk h av 0 rng = ([], av, rng)"
  by (subst random_walk.simps) simp

lemma random_walk_spec:
  assumes "distinct av" and "random_walk h av amount rng = (sel, rest, rng')"
  shows "distinct (map fst sel) \<and> fst ` set sel \<subseteq> set av
       \<and> (\<forall>(a, amt) \<in> set sel. amt \<le> quantity (h ! a))
       \<and> rest = filter (\<lambda>a. (a, quantity (h ! a)) \<notin> set sel) av"
  using assms
proof (induction h av amount rng arbitrary: sel rest rng' rule: random_walk.induct)
  case (1 h av amount rng)
  show ?case
  proof (cases "amount > 0 \<and> av \<noteq> []")
    case False
    then have "sel = []" "rest = av" using "1.prems"(2) by (subst (asm) random_walk.simps, simp)+
    then show ?thesis by simp
  next
    case True
    obtain food rng1 where ch: "random_choice av rng = (food, rng1)" by (cases "random_choice av rng")
    have mem: "food \<in> set av" using random_choice_mem[of av rng] True ch by simp
    show ?thesis
    proof (cases "quantity (h ! food) \<le> amount")
      case full: True
      obtain sel' rest' rng2 where
        rec: "random_walk h (remove1 food av) (amount - quantity (h ! food)) rng1 = (sel', rest', rng2)"
        by (cases "random_walk h (remove1 food av) (amount - quantity (h ! food)) rng1")
      have res: "sel = (food, quantity (h ! food)) # sel'" "rest = rest'"
        using "1.prems"(2) True ch full rec by (subst (asm) random_walk.simps, simp)+
      have d': "distinct (remove1 food av)" using "1.prems"(1) by simp
      note IH = "1.IH"(1)[OF True ch[symmetric] full d' rec]
      have rm: "remove1 food av = filter (\<lambda>a. a \<noteq> food) av"
        using "1.prems"(1) by (simp add: distinct_remove1_removeAll removeAll_filter_not_eq) metis
      have sub: "fst ` set sel' \<subseteq> set av - {food}" using IH "1.prems"(1) by auto
      have nf: "food \<notin> fst ` set sel'" using sub by auto
      have "rest = filter (\<lambda>a. (a, quantity (h ! a)) \<notin> set sel) av"
        using IH unfolding res rm filter_filter by (auto intro!: filter_cong)
      moreover have "distinct (map fst sel)" using IH nf unfolding res by simp
      moreover have "fst ` set sel \<subseteq> set av" using sub mem unfolding res by auto
      moreover have "\<forall>(a, amt) \<in> set sel. amt \<le> quantity (h ! a)" using IH unfolding res by auto
      ultimately show ?thesis by simp
    next
      case part: False
      have res: "sel = [(food, amount)]" "rest = av"
        using "1.prems"(2) True ch part by (subst (asm) random_walk.simps, simp add: random_walk_stop)+
      have "filter (\<lambda>a. (a, quantity (h ! a)) \<notin> set sel) av = av"
        unfolding res using part by (auto simp: filter_id_conv)
      then show ?thesis using part mem unfolding res by simp
    qed
  qed
qed

lemma filter_mem_self: "filter (\<lambda>a. a \<in> set xs) xs = xs"
  by (simp add: filter_id_conv)

lemma filter_mem_filter: "filter (\<lambda>a. a \<in> set (filter K xs)) xs = filter K xs"
  by (rule filter_cong[OF refl]) auto

lemma select_food_spec:
  assumes "distinct (items_by_type p ft)"
    and "select_food cs h p rng ft amount = (sel, p1, rng1)"
  shows "(\<exists>rest. p1 = p\<lparr>items_by_type := (items_by_type p)(ft := rest)\<rparr>)
       \<and> distinct (map fst sel) \<and> fst ` set sel \<subseteq> set (items_by_type p ft)
       \<and> (\<forall>(a, amt) \<in> set sel. amt \<le> quantity (h ! a))
       \<and> items_by_type p1 ft = filter (\<lambda>a. a \<in> set (items_by_type p1 ft)) (items_by_type p ft)
       \<and> (\<forall>a \<in> set (items_by_type p ft). a \<notin> set (items_by_type p1 ft) \<longrightarrow> (a, quantity (h ! a)) \<in> set sel)"
proof -
  have basic: ?thesis if "BasicConsumptionStrategy_select_food h p r ft amount = (sel, p1, rng1)" for r
  proof -
    from that have s: "sel = basic_walk h (items_by_type p ft) amount" "p1 = p"
      by (auto simp: BasicConsumptionStrategy_select_food_def get_items_by_type_def)
    have 1: "\<exists>rest. p = p\<lparr>items_by_type := (items_by_type p)(ft := rest)\<rparr>"
      by (rule exI[of _ "items_by_type p ft"]) simp
    have 2: "distinct (map fst (basic_walk h (items_by_type p ft) amount))"
      by (rule basic_walk_distinct[OF assms(1)])
    have 3: "fst ` set (basic_walk h (items_by_type p ft) amount) \<subseteq> set (items_by_type p ft)"
      by (rule basic_walk_keys)
    have 4: "\<forall>(a, amt) \<in> set (basic_walk h (items_by_type p ft) amount). amt \<le> quantity (h ! a)"
      using basic_walk_le by fast
    have 5: "items_by_type p ft = filter (\<lambda>a. a \<in> set (items_by_type p ft)) (items_by_type p ft)"
      by (simp add: filter_mem_self)
    show ?thesis unfolding s using 1 2 3 4 5 by blast
  qed
  have rand: ?thesis if "RandomConsumptionStrategy_select_food h p r ft amount = (sel, p1, rng1)" for r
  proof -
    obtain s0 rest r0 where w0: "random_walk h (items_by_type p ft) amount r = (s0, rest, r0)"
      by (cases "random_walk h (items_by_type p ft) amount r")
    from that have "(s0, p\<lparr>items_by_type := (items_by_type p)(ft := rest)\<rparr>, r0) = (sel, p1, rng1)"
      unfolding RandomConsumptionStrategy_select_food_def get_items_by_type_def w0 by simp
    then have e: "s0 = sel" "r0 = rng1" and p1: "p1 = p\<lparr>items_by_type := (items_by_type p)(ft := rest)\<rparr>"
      by simp_all
    have w: "random_walk h (items_by_type p ft) amount r = (sel, rest, rng1)" using w0 e by simp
    note S = random_walk_spec[OF assms(1) w]
    have r: "items_by_type p1 ft = rest" by (simp add: p1)
    have req: "rest = filter (\<lambda>a. (a, quantity (h ! a)) \<notin> set sel) (items_by_type p ft)"
      using S by blast
    have 5: "rest = filter (\<lambda>a. a \<in> set rest) (items_by_type p ft)"
      by (subst (1 2) req) (simp only: filter_mem_filter)
    have 6: "\<forall>a \<in> set (items_by_type p ft). a \<notin> set rest \<longrightarrow> (a, quantity (h ! a)) \<in> set sel"
      by (subst req) simp
    have 1: "\<exists>rest. p1 = p\<lparr>items_by_type := (items_by_type p)(ft := rest)\<rparr>" using p1 by blast
    from S have 2: "distinct (map fst sel)" and 3: "fst ` set sel \<subseteq> set (items_by_type p ft)"
      and 4: "\<forall>(a, amt) \<in> set sel. amt \<le> quantity (h ! a)" by blast+
    show ?thesis unfolding r using 1 2 3 4 5 6 by blast
  qed
  have "(\<exists>r. BasicConsumptionStrategy_select_food h p r ft amount = (sel, p1, rng1))
      \<or> (\<exists>r. RandomConsumptionStrategy_select_food h p r ft amount = (sel, p1, rng1))"
  proof (cases cs)
    case BasicConsumptionStrategy
    then show ?thesis using assms(2) by (auto simp: select_food_def)
  next
    case RandomConsumptionStrategy
    then show ?thesis using assms(2) by (auto simp: select_food_def)
  next
    case (MixedConsumptionStrategy fifo)
    then have "MixedConsumptionStrategy_select_food fifo h p rng ft amount = (sel, p1, rng1)"
      using assms(2) by (simp add: select_food_def)
    then show ?thesis
      unfolding MixedConsumptionStrategy_select_food_def by (auto split: prod.splits if_splits)
  qed
  then show ?thesis using basic rand by blast
qed

lemma sub_pantry_all_items: "sub_pantry K p p1 \<Longrightarrow> all_items p1 = filter K (all_items p)"
  by (simp add: sub_pantry_def all_items_def FoodTypes_def)

lemma sub_pantry_refl: "sub_pantry (\<lambda>_. True) p p"
  by (simp add: sub_pantry_def)

lemma sub_pantry_trans:
  "sub_pantry K1 p pA \<Longrightarrow> sub_pantry K2 pA p1 \<Longrightarrow> sub_pantry (\<lambda>a. K1 a \<and> K2 a) p p1"
  by (simp add: sub_pantry_def)

lemma sub_pantry_wf:
  assumes "pantry_wf h p" "sub_pantry K p p1"
  shows "pantry_wf (h @ ex) p1"
proof -
  note D = pantry_wf_D[OF assms(1)]
  have it: "\<And>t. items_by_type p1 t = filter K (items_by_type p t)"
    using assms(2) by (simp add: sub_pantry_def)
  have "distinct (all_items p1)"
    unfolding sub_pantry_all_items[OF assms(2)] using D(1) by simp
  moreover have "\<forall>t. \<forall>a \<in> set (items_by_type p1 t). a < length (h @ ex) \<and> food_type ((h @ ex) ! a) = t"
  proof (intro allI ballI)
    fix t a assume "a \<in> set (items_by_type p1 t)"
    then have a: "a \<in> set (items_by_type p t)" by (simp add: it)
    then have "a \<in> set (all_items p)" by (auto simp: all_items_mem)
    then have "a < length h" by (rule D(2))
    moreover have "food_type (h ! a) = t" using a by (rule D(3))
    ultimately show "a < length (h @ ex) \<and> food_type ((h @ ex) ! a) = t" by (simp add: nth_append)
  qed
  ultimately show ?thesis by (simp add: pantry_wf_def)
qed

lemma select_food_sub_pantry:
  assumes wf: "pantry_wf h p"
    and sel: "select_food cs h p rng ft amount = (sel, p1, rng1)"
  shows "\<exists>K. sub_pantry K p p1
       \<and> (\<forall>a \<in> set (all_items p). \<not> K a \<longrightarrow> (a, quantity (h ! a)) \<in> set sel)"
    and "distinct (map fst sel)"
    and "fst ` set sel \<subseteq> set (items_by_type p ft)"
    and "\<And>a amt. (a, amt) \<in> set sel \<Longrightarrow> amt \<le> quantity (h ! a)"
proof -
  note D = pantry_wf_D[OF wf]
  note S = select_food_spec[OF D(4)[of ft] sel]
  from S show "distinct (map fst sel)" by blast
  from S show "fst ` set sel \<subseteq> set (items_by_type p ft)" by blast
  from S show "\<And>a amt. (a, amt) \<in> set sel \<Longrightarrow> amt \<le> quantity (h ! a)" by blast
  from S obtain rest where p1: "p1 = p\<lparr>items_by_type := (items_by_type p)(ft := rest)\<rparr>" by blast
  then have r: "items_by_type p1 ft = rest" by simp
  from S have f: "rest = filter (\<lambda>a. a \<in> set rest) (items_by_type p ft)" unfolding r by blast
  from S have g: "\<forall>a \<in> set (items_by_type p ft). a \<notin> set rest \<longrightarrow> (a, quantity (h ! a)) \<in> set sel"
    unfolding r by blast
  define K where "K = (\<lambda>a. a \<notin> set (items_by_type p ft) \<or> a \<in> set rest)"
  have "(items_by_type p)(ft := rest) = (\<lambda>t. filter K (items_by_type p t))"
  proof
    fix t
    show "((items_by_type p)(ft := rest)) t = filter K (items_by_type p t)"
    proof (cases "t = ft")
      case True
      have "filter K (items_by_type p ft) = filter (\<lambda>a. a \<in> set rest) (items_by_type p ft)"
        by (rule filter_cong[OF refl]) (simp add: K_def)
      then show ?thesis using True f by simp
    next
      case False
      have "\<And>a. a \<in> set (items_by_type p t) \<Longrightarrow> a \<notin> set (items_by_type p ft)"
        using D(3) False by blast
      then have "filter K (items_by_type p t) = items_by_type p t"
        by (simp add: filter_id_conv K_def)
      then show ?thesis using False by simp
    qed
  qed
  then have sp: "sub_pantry K p p1" by (simp add: sub_pantry_def p1)
  have "\<forall>a \<in> set (all_items p). \<not> K a \<longrightarrow> (a, quantity (h ! a)) \<in> set sel"
    using g by (simp add: K_def)
  with sp show "\<exists>K. sub_pantry K p p1
       \<and> (\<forall>a \<in> set (all_items p). \<not> K a \<longrightarrow> (a, quantity (h ! a)) \<in> set sel)" by blast
qed

lemma filter_none: "(\<And>x. x \<in> set xs \<Longrightarrow> \<not> P x) \<Longrightarrow> filter P xs = []"
  by (induction xs) auto

lemma filter_all: "(\<And>x. x \<in> set xs \<Longrightarrow> P x) \<Longrightarrow> filter P xs = xs"
  by (induction xs) auto

lemma choose_ok:
  assumes "pantry_wf h p" and "no_takeout_stored h p" and "distinct (map fst patterns)"
  shows "\<exists>sel h1 p1 rng1 K. choose_food_to_eat cs patterns h p rng = Inr (sel, h1, p1, rng1)
           \<and> choose_post h p patterns sel h1 p1 K"
  using assms
proof (induction patterns arbitrary: h p rng)
  case Nil
  have "choose_post h p [] [] h p (\<lambda>_. True)"
    by (simp add: choose_post_def sub_pantry_refl)
  then show ?case by auto
next
  case (Cons pat rest)
  obtain ft amount where pat: "pat = (ft, amount)" by (cases pat)
  note D = pantry_wf_D[OF Cons.prems(1)]
  obtain chosen pA rngA where s: "select_food cs h p rng ft amount = (chosen, pA, rngA)"
    by (cases "select_food cs h p rng ft amount")
  note SF = select_food_sub_pantry[OF Cons.prems(1) s]
  from SF(1) obtain KA where spA: "sub_pantry KA p pA"
    and remA: "\<forall>a \<in> set (all_items p). \<not> KA a \<longrightarrow> (a, quantity (h ! a)) \<in> set chosen" by blast
  define remaining where "remaining = amount - sum_list (map snd chosen)"
  define ph where "ph = (if remaining > 0 then [(length h, remaining)] else [])"
  define hA where "hA = h @ map (takeout_item \<circ> snd) ph"
  have allA: "all_items pA = filter KA (all_items p)" by (rule sub_pantry_all_items[OF spA])
  have lt: "\<And>a. a \<in> set (all_items p) \<Longrightarrow> a < length h" by (rule D(2))
  have wfA: "pantry_wf hA pA" unfolding hA_def by (rule sub_pantry_wf[OF Cons.prems(1) spA])
  have ntA: "no_takeout_stored hA pA"
    using Cons.prems(2) lt unfolding no_takeout_stored_def allA hA_def by (simp add: nth_append)
  have dr: "distinct (map fst rest)" and ftn: "ft \<notin> fst ` set rest"
    using Cons.prems(3) pat by auto
  from Cons.IH[OF wfA ntA dr, of rngA] obtain others h1 p1 rng1 K2 where
    rec: "choose_food_to_eat cs rest hA pA rngA = Inr (others, h1, p1, rng1)"
    and post: "choose_post hA pA rest others h1 p1 K2" by blast
  define sel where "sel = chosen @ ph @ others"
  have res0: "choose_food_to_eat cs (pat # rest) h p rng =
      (if remaining > 0 then
         (case choose_food_to_eat cs rest (h @ [takeout_item remaining]) pA rngA of
            Inl e \<Rightarrow> Inl e
          | Inr (others, s) \<Rightarrow> Inr (chosen @ (length h, remaining) # others, s))
       else
         (case choose_food_to_eat cs rest h pA rngA of
            Inl e \<Rightarrow> Inl e
          | Inr (others, s) \<Rightarrow> Inr (chosen @ others, s)))"
    unfolding remaining_def
    by (simp add: pat s Let_def FoodItem_init_def alloc_def takeout_item_def)
  have res: "choose_food_to_eat cs (pat # rest) h p rng = Inr (sel, h1, p1, rng1)"
  proof (cases "remaining > 0")
    case True
    then have "hA = h @ [takeout_item remaining]" by (simp add: hA_def ph_def)
    with True rec show ?thesis unfolding res0 by (simp add: sel_def ph_def)
  next
    case False
    then have "hA = h" by (simp add: hA_def ph_def)
    with False rec show ?thesis unfolding res0 by (simp add: sel_def ph_def)
  qed
  from post obtain ex' where h1: "h1 = hA @ ex'" unfolding choose_post_def by blast
  have P2: "sub_pantry K2 pA p1" and P3: "distinct (map fst others)"
    and P4: "\<forall>e \<in> set others.
          (fst e \<in> set (all_items pA) \<and> food_type (h1 ! fst e) \<in> fst ` set rest
             \<and> snd e \<le> quantity (h1 ! fst e))
        \<or> (length hA \<le> fst e \<and> fst e < length h1 \<and> h1 ! fst e = takeout_item (snd e))"
    and P5: "\<forall>a \<in> set (all_items pA). \<not> K2 a \<longrightarrow> (a, quantity (h1 ! a)) \<in> set others"
    and P6: "map snd (filter (is_takeout h1) others)
        = filter (\<lambda>x. 0 < x) (map (\<lambda>(ft, amount). amount - sourced h1 others ft) rest)"
    using post unfolding choose_post_def by blast+
  have old: "\<And>a. a < length h \<Longrightarrow> h1 ! a = h ! a" by (simp add: h1 hA_def nth_append)
  have len: "length h \<le> length hA" "length hA \<le> length h1" by (simp_all add: h1 hA_def)
  \<comment> \<open>what is known of each group of entries\<close>
  have C: "\<And>e. e \<in> set chosen \<Longrightarrow> fst e \<in> set (items_by_type p ft) \<and> fst e \<in> set (all_items p)
        \<and> fst e < length h \<and> food_type (h1 ! fst e) = ft \<and> \<not> is_takeout h1 e
        \<and> snd e \<le> quantity (h1 ! fst e)"
  proof -
    fix e assume e: "e \<in> set chosen"
    then have m: "fst e \<in> set (items_by_type p ft)" using SF(3) by auto
    then have a: "fst e \<in> set (all_items p)" by (auto simp: all_items_mem)
    have l: "fst e < length h" by (rule lt[OF a])
    have t: "food_type (h1 ! fst e) = ft" using D(3)[OF m] old[OF l] by simp
    have n: "\<not> is_takeout h1 e"
      using Cons.prems(2) a old[OF l] by (simp add: no_takeout_stored_def is_takeout_def)
    have "snd e \<le> quantity (h ! fst e)" using SF(4)[of "fst e" "snd e"] e by simp
    then have "snd e \<le> quantity (h1 ! fst e)" using old[OF l] by simp
    with m a l t n show "fst e \<in> set (items_by_type p ft) \<and> fst e \<in> set (all_items p)
        \<and> fst e < length h \<and> food_type (h1 ! fst e) = ft \<and> \<not> is_takeout h1 e
        \<and> snd e \<le> quantity (h1 ! fst e)" by blast
  qed
  have O: "\<And>e. e \<in> set others \<Longrightarrow>
        (fst e \<in> set (all_items p) \<and> fst e < length h \<and> food_type (h1 ! fst e) \<in> fst ` set rest
           \<and> food_type (h1 ! fst e) \<noteq> ft \<and> \<not> is_takeout h1 e \<and> snd e \<le> quantity (h1 ! fst e))
      \<or> (length hA \<le> fst e \<and> fst e < length h1 \<and> h1 ! fst e = takeout_item (snd e) \<and> is_takeout h1 e)"
  proof -
    fix e assume e: "e \<in> set others"
    from P4 e consider
      (pantry) "fst e \<in> set (all_items pA)" "food_type (h1 ! fst e) \<in> fst ` set rest"
        "snd e \<le> quantity (h1 ! fst e)"
      | (takeout) "length hA \<le> fst e" "fst e < length h1" "h1 ! fst e = takeout_item (snd e)"
      by blast
    then show "(fst e \<in> set (all_items p) \<and> fst e < length h \<and> food_type (h1 ! fst e) \<in> fst ` set rest
           \<and> food_type (h1 ! fst e) \<noteq> ft \<and> \<not> is_takeout h1 e \<and> snd e \<le> quantity (h1 ! fst e))
      \<or> (length hA \<le> fst e \<and> fst e < length h1 \<and> h1 ! fst e = takeout_item (snd e) \<and> is_takeout h1 e)"
    proof cases
      case pantry
      then have a: "fst e \<in> set (all_items p)" by (simp add: allA)
      have l: "fst e < length h" by (rule lt[OF a])
      have n: "\<not> is_takeout h1 e"
        using Cons.prems(2) a old[OF l] by (simp add: no_takeout_stored_def is_takeout_def)
      have "food_type (h1 ! fst e) \<noteq> ft" using pantry(2) ftn by auto
      with pantry a l n show ?thesis by blast
    next
      case takeout
      then have "is_takeout h1 e" by (simp add: is_takeout_def takeout_item_def)
      with takeout show ?thesis by blast
    qed
  qed
  have PH: "\<And>e. e \<in> set ph \<Longrightarrow> fst e = length h \<and> 0 < snd e \<and> snd e = remaining
       \<and> length hA = Suc (length h) \<and> h1 ! fst e = takeout_item (snd e) \<and> is_takeout h1 e"
  proof -
    fix e assume "e \<in> set ph"
    then have r: "0 < remaining" and e: "e = (length h, remaining)"
      by (auto simp: ph_def split: if_splits)
    then have hA: "hA = h @ [takeout_item remaining]" by (simp add: hA_def ph_def)
    then have "h1 ! length h = takeout_item remaining" by (simp add: h1 nth_append)
    then show "fst e = length h \<and> 0 < snd e \<and> snd e = remaining
       \<and> length hA = Suc (length h) \<and> h1 ! fst e = takeout_item (snd e) \<and> is_takeout h1 e"
      using r e hA by (simp add: is_takeout_def takeout_item_def)
  qed
  \<comment> \<open>the six parts of the postcondition\<close>
  have Q1: "\<exists>ex. h1 = h @ ex" by (simp add: h1 hA_def)
  have Q2: "sub_pantry (\<lambda>a. KA a \<and> K2 a) p p1" by (rule sub_pantry_trans[OF spA P2])
  have Q3: "distinct (map fst sel)"
  proof -
    have 1: "distinct (map fst ph)" by (simp add: ph_def)
    have 2: "fst ` set chosen \<inter> fst ` set ph = {}" using C PH by fastforce
    have 3: "fst ` set chosen \<inter> fst ` set others = {}"
    proof -
      have "False" if "e \<in> set chosen" "e' \<in> set others" "fst e = fst e'" for e e'
        using C[OF that(1)] O[OF that(2)] that(3) len by auto
      then show ?thesis by auto
    qed
    have 4: "fst ` set ph \<inter> fst ` set others = {}"
    proof -
      have "False" if "e \<in> set ph" "e' \<in> set others" "fst e = fst e'" for e e'
        using PH[OF that(1)] O[OF that(2)] that(3) by auto
      then show ?thesis by auto
    qed
    show ?thesis unfolding sel_def using SF(2) P3 1 2 3 4 by auto
  qed
  have Q4: "\<forall>e \<in> set sel.
          (fst e \<in> set (all_items p) \<and> food_type (h1 ! fst e) \<in> fst ` set (pat # rest)
             \<and> snd e \<le> quantity (h1 ! fst e))
        \<or> (length h \<le> fst e \<and> fst e < length h1 \<and> h1 ! fst e = takeout_item (snd e))"
  proof
    fix e assume "e \<in> set sel"
    then consider "e \<in> set chosen" | "e \<in> set ph" | "e \<in> set others" unfolding sel_def by auto
    then show "(fst e \<in> set (all_items p) \<and> food_type (h1 ! fst e) \<in> fst ` set (pat # rest)
             \<and> snd e \<le> quantity (h1 ! fst e))
        \<or> (length h \<le> fst e \<and> fst e < length h1 \<and> h1 ! fst e = takeout_item (snd e))"
    proof cases
      case 1
      from C[OF 1] show ?thesis by (simp add: pat)
    next
      case 2
      from PH[OF 2] len show ?thesis by auto
    next
      case 3
      from O[OF 3] len show ?thesis by auto
    qed
  qed
  have Q5: "\<forall>a \<in> set (all_items p). \<not> (KA a \<and> K2 a) \<longrightarrow> (a, quantity (h1 ! a)) \<in> set sel"
  proof (intro ballI impI)
    fix a assume a: "a \<in> set (all_items p)" and k: "\<not> (KA a \<and> K2 a)"
    have q: "h1 ! a = h ! a" by (rule old[OF lt[OF a]])
    show "(a, quantity (h1 ! a)) \<in> set sel"
    proof (cases "KA a")
      case False
      then have "(a, quantity (h ! a)) \<in> set chosen" using remA a by blast
      then show ?thesis by (simp add: sel_def q)
    next
      case True
      then have "a \<in> set (all_items pA)" using a by (simp add: allA)
      moreover have "\<not> K2 a" using True k by blast
      ultimately have "(a, quantity (h1 ! a)) \<in> set others" using P5 by blast
      then show ?thesis by (simp add: sel_def)
    qed
  qed
  have Q6: "map snd (filter (is_takeout h1) sel)
        = filter (\<lambda>x. 0 < x) (map (\<lambda>(ft, amount). amount - sourced h1 sel ft) (pat # rest))"
  proof -
    have f1: "filter (is_takeout h1) chosen = []" using C by (intro filter_none) blast
    have f2: "filter (is_takeout h1) ph = ph" using PH by (intro filter_all) blast
    have lhs: "map snd (filter (is_takeout h1) sel) = map snd ph @ map snd (filter (is_takeout h1) others)"
      by (simp add: sel_def f1 f2)
    have s_ft: "sourced h1 sel ft = sum_list (map snd chosen)"
    proof -
      have "filter (\<lambda>e. \<not> is_takeout h1 e \<and> food_type (h1 ! fst e) = ft) chosen = chosen"
        using C by (intro filter_all) blast
      moreover have "filter (\<lambda>e. \<not> is_takeout h1 e \<and> food_type (h1 ! fst e) = ft) ph = []"
        using PH by (intro filter_none) blast
      moreover have "filter (\<lambda>e. \<not> is_takeout h1 e \<and> food_type (h1 ! fst e) = ft) others = []"
        using O by (intro filter_none) blast
      ultimately show ?thesis by (simp add: sourced_def sel_def)
    qed
    have s_rest: "sourced h1 sel ft' = sourced h1 others ft'" if "ft' \<in> fst ` set rest" for ft'
    proof -
      have ne: "ft' \<noteq> ft" using that ftn by auto
      have "filter (\<lambda>e. \<not> is_takeout h1 e \<and> food_type (h1 ! fst e) = ft') chosen = []"
        using C ne by (intro filter_none) blast
      moreover have "filter (\<lambda>e. \<not> is_takeout h1 e \<and> food_type (h1 ! fst e) = ft') ph = []"
        using PH by (intro filter_none) blast
      ultimately show ?thesis by (simp add: sourced_def sel_def)
    qed
    have m: "map (\<lambda>(ft, amount). amount - sourced h1 sel ft) rest
           = map (\<lambda>(ft, amount). amount - sourced h1 others ft) rest"
    proof (rule map_cong[OF refl])
      fix x assume x: "x \<in> set rest"
      then have "fst x \<in> fst ` set rest" by simp
      from s_rest[OF this]
      show "(case x of (ft, amount) \<Rightarrow> amount - sourced h1 sel ft)
          = (case x of (ft, amount) \<Rightarrow> amount - sourced h1 others ft)"
        by (cases x) simp
    qed
    have hd: "map snd ph = filter (\<lambda>x. 0 < x) [amount - sourced h1 sel ft]"
      by (simp add: s_ft ph_def remaining_def)
    show ?thesis unfolding lhs P6 hd by (simp add: pat m)
  qed
  have "choose_post h p (pat # rest) sel h1 p1 (\<lambda>a. KA a \<and> K2 a)"
    unfolding choose_post_def using Q1 Q2 Q3 Q4 Q5 Q6 by blast
  with res show ?case by blast
qed

lemma eaten_Cons:
  "eaten h (e # sel) a = (if fst e = a \<and> \<not> is_takeout h e then snd e else 0) + eaten h sel a"
  by (simp add: eaten_def)

lemma eaten_absent: "a \<notin> fst ` set sel \<Longrightarrow> eaten h sel a = 0"
  unfolding eaten_def by (subst filter_none) auto

lemma eaten_unique:
  "distinct (map fst sel) \<Longrightarrow> (a, v) \<in> set sel \<Longrightarrow> \<not> is_takeout h (a, v) \<Longrightarrow> eaten h sel a = v"
proof (induction sel)
  case Nil
  then show ?case by simp
next
  case (Cons e sel)
  show ?case
  proof (cases "e = (a, v)")
    case True
    then have "a \<notin> fst ` set sel" using Cons.prems(1) by auto
    then show ?thesis using True Cons.prems(3) by (simp add: eaten_Cons eaten_absent)
  next
    case False
    then have m: "(a, v) \<in> set sel" using Cons.prems(2) by simp
    then have "fst e \<noteq> a" using Cons.prems(1) by (auto simp: image_iff)
    then show ?thesis using Cons.IH[OF _ m Cons.prems(3)] Cons.prems(1) by (simp add: eaten_Cons)
  qed
qed

lemma eaten_takeout:
  "distinct (map fst sel) \<Longrightarrow> (a, v) \<in> set sel \<Longrightarrow> is_takeout h (a, v) \<Longrightarrow> eaten h sel a = 0"
proof -
  assume d: "distinct (map fst sel)" and m: "(a, v) \<in> set sel" and t: "is_takeout h (a, v)"
  have "\<And>e. e \<in> set sel \<Longrightarrow> \<not> (fst e = a \<and> \<not> is_takeout h e)"
  proof -
    fix e assume e: "e \<in> set sel"
    show "\<not> (fst e = a \<and> \<not> is_takeout h e)"
    proof (cases "fst e = a")
      case True
      then have "e = (a, v)" using d m e by (metis eq_key_imp_eq_value prod.collapse)
      then show ?thesis using t by simp
    next
      case False
      then show ?thesis by simp
    qed
  qed
  then show ?thesis unfolding eaten_def by (subst filter_none) auto
qed

lemma consume_foods_ok:
  assumes "distinct (map fst sel)"
    and "\<forall>e \<in> set sel. \<not> is_takeout h e \<longrightarrow> fst e < length h \<and> snd e \<le> quantity (h ! fst e)"
  shows "\<exists>h2. consume_foods sel h = Inr h2 \<and> length h2 = length h
     \<and> (\<forall>a < length h. h2 ! a = (h ! a)\<lparr>quantity := quantity (h ! a) - eaten h sel a\<rparr>)"
  using assms
proof (induction sel arbitrary: h)
  case Nil
  then show ?case by (simp add: eaten_def)
next
  case (Cons e sel)
  obtain a amt where e: "e = (a, amt)" by (cases e)
  have na: "a \<notin> fst ` set sel" and d: "distinct (map fst sel)" using Cons.prems(1) e by auto
  show ?case
  proof (cases "is_takeout h e")
    case True
    have step: "consume_foods (e # sel) h = consume_foods sel h"
      using True by (simp add: e is_takeout_def EMERGENCY_TAKEOUT_def)
    from Cons.IH[OF d, of h] Cons.prems(2) obtain h2 where
      r: "consume_foods sel h = Inr h2" "length h2 = length h"
      "\<forall>a < length h. h2 ! a = (h ! a)\<lparr>quantity := quantity (h ! a) - eaten h sel a\<rparr>" by auto
    have "\<And>b. eaten h (e # sel) b = eaten h sel b" using True by (simp add: eaten_Cons)
    with r step show ?thesis by simp
  next
    case False
    then have b: "a < length h" "amt \<le> quantity (h ! a)" using Cons.prems(2) e by auto
    define h' where "h' = h[a := (h ! a)\<lparr>quantity := quantity (h ! a) - amt\<rparr>]"
    have step: "consume_foods (e # sel) h = consume_foods sel h'"
      using False b by (simp add: e is_takeout_def EMERGENCY_TAKEOUT_def FoodItem_consume_def h'_def)
    have same: "\<And>e'. e' \<in> set sel \<Longrightarrow> h' ! fst e' = h ! fst e'"
      using na by (auto simp: h'_def image_iff)
    have tk: "\<And>e'. e' \<in> set sel \<Longrightarrow> is_takeout h' e' = is_takeout h e'"
      using same by (simp add: is_takeout_def)
    have pre: "\<forall>e' \<in> set sel. \<not> is_takeout h' e' \<longrightarrow> fst e' < length h' \<and> snd e' \<le> quantity (h' ! fst e')"
      using Cons.prems(2) tk same by (simp add: h'_def)
    from Cons.IH[OF d pre] obtain h2 where
      r: "consume_foods sel h' = Inr h2" "length h2 = length h'"
      "\<forall>b < length h'. h2 ! b = (h' ! b)\<lparr>quantity := quantity (h' ! b) - eaten h' sel b\<rparr>" by auto
    have ea: "\<And>b. eaten h' sel b = eaten h sel b"
      unfolding eaten_def
      by (rule arg_cong[where f = "\<lambda>xs. sum_list (map snd xs)"], rule filter_cong[OF refl]) (simp add: tk)
    have "\<forall>b < length h. h2 ! b = (h ! b)\<lparr>quantity := quantity (h ! b) - eaten h (e # sel) b\<rparr>"
    proof (intro allI impI)
      fix b assume bl: "b < length h"
      show "h2 ! b = (h ! b)\<lparr>quantity := quantity (h ! b) - eaten h (e # sel) b\<rparr>"
      proof (cases "b = a")
        case True
        have "eaten h sel a = 0" by (rule eaten_absent[OF na])
        then show ?thesis using r(3) bl True False ea
          by (simp add: h'_def eaten_Cons e)
      next
        case False
        then show ?thesis using r(3) bl ea by (simp add: h'_def eaten_Cons e)
      qed
    qed
    with r step show ?thesis by (simp add: h'_def)
  qed
qed

lemma sum_list_indicator:
  "distinct ys \<Longrightarrow> sum_list (map (\<lambda>b. if a = b \<and> c then (v::real) else 0) ys) = (if a \<in> set ys \<and> c then v else 0)"
  by (induction ys) auto

lemma sum_eaten:
  "distinct ys \<Longrightarrow>
   sum_list (map (eaten h sel) ys) = sum_list (map snd (filter (\<lambda>e. fst e \<in> set ys \<and> \<not> is_takeout h e) sel))"
proof (induction sel)
  case Nil
  then show ?case by (simp add: eaten_def)
next
  case (Cons e sel)
  have "sum_list (map (eaten h (e # sel)) ys)
      = sum_list (map (\<lambda>b. if fst e = b \<and> \<not> is_takeout h e then snd e else 0) ys) + sum_list (map (eaten h sel) ys)"
    by (induction ys) (simp_all add: eaten_Cons)
  also have "\<dots> = (if fst e \<in> set ys \<and> \<not> is_takeout h e then snd e else 0) + sum_list (map (eaten h sel) ys)"
    by (simp only: sum_list_indicator[OF Cons.prems])
  finally show ?case using Cons.IH[OF Cons.prems] by simp
qed

lemma mass_of_after_consume:
  assumes "\<forall>a < length h. h2 ! a = (h ! a)\<lparr>quantity := quantity (h ! a) - eaten h sel a\<rparr>"
    and "\<forall>a \<in> set ys. a < length h" and "distinct ys"
  shows "mass_of h2 ys = mass_of h ys - sum_list (map snd (filter (\<lambda>e. fst e \<in> set ys \<and> \<not> is_takeout h e) sel))"
proof -
  have "mass_of h2 ys = sum_list (map (\<lambda>a. quantity (h ! a) - eaten h sel a) ys)"
    unfolding mass_of_def using assms(1,2)
    by (intro arg_cong[where f = sum_list] map_cong refl) simp
  also have "\<dots> = mass_of h ys - sum_list (map (eaten h sel) ys)"
    unfolding mass_of_def by (induction ys) simp_all
  finally show ?thesis by (simp add: sum_eaten[OF assms(3)])
qed

lemma sum_list_filter_disj:
  "(\<And>x. x \<in> set xs \<Longrightarrow> P x \<Longrightarrow> \<not> Q x) \<Longrightarrow>
   sum_list (map f (filter (\<lambda>x. P x \<or> Q x) xs)) = sum_list (map f (filter P xs)) + (sum_list (map f (filter Q xs)) :: real)"
  by (induction xs) auto

lemma pantry_wf_same_types:
  assumes "pantry_wf h p" "length h2 = length h" "\<forall>a < length h. food_type (h2 ! a) = food_type (h ! a)"
  shows "pantry_wf h2 p"
  using assms unfolding pantry_wf_def by auto

lemma Meal_consume_ok:
  assumes wf: "pantry_wf h p" and nt: "no_takeout_stored h p"
    and dk: "distinct (map fst (consumption_patterns meal))"
  shows "\<exists>sel h2 p1 rng1 K. Meal_consume cs meal h p rng = Inr (sel, h2, p1, rng1)
     \<and> sub_pantry K p p1 \<and> pantry_wf h2 p1 \<and> no_takeout_stored h2 p1
     \<and> (\<forall>Y. distinct Y \<and> set Y \<subseteq> set (all_items p) \<longrightarrow>
           mass_of h2 (filter K Y) = mass_of h Y
             - sum_list (map snd (filter (\<lambda>e. fst e \<in> set Y \<and> \<not> is_takeout h2 e) sel)))
     \<and> (\<forall>e \<in> set sel. if is_takeout h2 e
            then length h \<le> fst e \<and> fst e < length h2 \<and> h2 ! fst e = takeout_item (snd e)
            else fst e \<in> set (all_items p) \<and> food_type (h2 ! fst e) = food_type (h ! fst e)
                 \<and> fst e < length h2)
     \<and> map snd (filter (is_takeout h2) sel)
          = filter (\<lambda>x. 0 < x) (map (\<lambda>(ft, amount). amount - sourced h2 sel ft) (consumption_patterns meal))"
proof -
  note D = pantry_wf_D[OF wf]
  from choose_ok[OF wf nt dk, of cs rng] obtain sel h1 p1 rng1 K where
    ch: "choose_food_to_eat cs (consumption_patterns meal) h p rng = Inr (sel, h1, p1, rng1)"
    and post: "choose_post h p (consumption_patterns meal) sel h1 p1 K" by blast
  from post obtain ex where h1: "h1 = h @ ex" unfolding choose_post_def by blast
  have sp: "sub_pantry K p p1" and ds: "distinct (map fst sel)"
    and en: "\<forall>e \<in> set sel.
          (fst e \<in> set (all_items p) \<and> food_type (h1 ! fst e) \<in> fst ` set (consumption_patterns meal)
             \<and> snd e \<le> quantity (h1 ! fst e))
        \<or> (length h \<le> fst e \<and> fst e < length h1 \<and> h1 ! fst e = takeout_item (snd e))"
    and rm: "\<forall>a \<in> set (all_items p). \<not> K a \<longrightarrow> (a, quantity (h1 ! a)) \<in> set sel"
    and ac: "map snd (filter (is_takeout h1) sel)
        = filter (\<lambda>x. 0 < x) (map (\<lambda>(ft, amount). amount - sourced h1 sel ft) (consumption_patterns meal))"
    using post unfolding choose_post_def by blast+
  have lt: "\<And>a. a \<in> set (all_items p) \<Longrightarrow> a < length h" by (rule D(2))
  have old: "\<And>a. a < length h \<Longrightarrow> h1 ! a = h ! a" by (simp add: h1 nth_append)
  have ntk: "\<And>a. a \<in> set (all_items p) \<Longrightarrow> name (h1 ! a) \<noteq> EMERGENCY_TAKEOUT"
    using nt old lt by (simp add: no_takeout_stored_def)
  \<comment> \<open>entries, classified by \<open>is_takeout h1\<close>\<close>
  have E: "\<And>e. e \<in> set sel \<Longrightarrow> fst e < length h1 \<and>
       (if is_takeout h1 e
        then length h \<le> fst e \<and> h1 ! fst e = takeout_item (snd e)
        else fst e \<in> set (all_items p) \<and> snd e \<le> quantity (h1 ! fst e))"
  proof -
    fix e assume "e \<in> set sel"
    with en consider
      (pantry) "fst e \<in> set (all_items p)" "snd e \<le> quantity (h1 ! fst e)"
      | (takeout) "length h \<le> fst e" "fst e < length h1" "h1 ! fst e = takeout_item (snd e)"
      by blast
    then show "fst e < length h1 \<and>
       (if is_takeout h1 e
        then length h \<le> fst e \<and> h1 ! fst e = takeout_item (snd e)
        else fst e \<in> set (all_items p) \<and> snd e \<le> quantity (h1 ! fst e))"
    proof cases
      case pantry
      then have "\<not> is_takeout h1 e" using ntk by (simp add: is_takeout_def)
      moreover have "fst e < length h1" using lt[OF pantry(1)] by (simp add: h1)
      ultimately show ?thesis using pantry by simp
    next
      case takeout
      then have "is_takeout h1 e" by (simp add: is_takeout_def takeout_item_def)
      then show ?thesis using takeout by simp
    qed
  qed
  have pre: "\<forall>e \<in> set sel. \<not> is_takeout h1 e \<longrightarrow> fst e < length h1 \<and> snd e \<le> quantity (h1 ! fst e)"
    using E by auto
  from consume_foods_ok[OF ds pre] obtain h2 where
    co: "consume_foods sel h1 = Inr h2" and l2: "length h2 = length h1"
    and pt: "\<forall>a < length h1. h2 ! a = (h1 ! a)\<lparr>quantity := quantity (h1 ! a) - eaten h1 sel a\<rparr>" by blast
  have res: "Meal_consume cs meal h p rng = Inr (sel, h2, p1, rng1)"
    by (simp add: Meal_consume_def ch co)
  have nm: "\<And>a. a < length h1 \<Longrightarrow> name (h2 ! a) = name (h1 ! a) \<and> food_type (h2 ! a) = food_type (h1 ! a)"
    using pt by simp
  have tk: "\<And>e. e \<in> set sel \<Longrightarrow> is_takeout h2 e = is_takeout h1 e"
    using E nm by (simp add: is_takeout_def)
  have wf1: "pantry_wf h1 p1" unfolding h1 by (rule sub_pantry_wf[OF wf sp])
  have wf2: "pantry_wf h2 p1"
    by (rule pantry_wf_same_types[OF wf1 l2]) (simp add: nm)
  have all1: "all_items p1 = filter K (all_items p)" by (rule sub_pantry_all_items[OF sp])
  have nt2: "no_takeout_stored h2 p1"
    unfolding no_takeout_stored_def all1
  proof
    fix a assume "a \<in> set (filter K (all_items p))"
    then have a: "a \<in> set (all_items p)" by simp
    then have "a < length h1" using lt by (fastforce simp: h1)
    then show "name (h2 ! a) \<noteq> EMERGENCY_TAKEOUT" using nm ntk[OF a] by simp
  qed
  have mass: "mass_of h2 (filter K Y) = mass_of h Y
             - sum_list (map snd (filter (\<lambda>e. fst e \<in> set Y \<and> \<not> is_takeout h2 e) sel))"
    if dY: "distinct Y" and sY: "set Y \<subseteq> set (all_items p)" for Y
  proof -
    have bY: "\<And>a. a \<in> set Y \<Longrightarrow> a < length h" using sY lt by blast
    have b1: "\<forall>a \<in> set (filter K Y). a < length h1" using bY by (fastforce simp: h1)
    have m1: "mass_of h2 (filter K Y) = mass_of h1 (filter K Y)
        - sum_list (map snd (filter (\<lambda>e. fst e \<in> set (filter K Y) \<and> \<not> is_takeout h1 e) sel))"
      by (rule mass_of_after_consume[OF pt b1]) (simp add: dY)
    have m2: "mass_of h1 Z = mass_of h Z" if "set Z \<subseteq> set Y" for Z
      by (rule mass_of_cong) (use that bY old in auto)
    have m3: "mass_of h Y = mass_of h (filter K Y) + mass_of h (filter (\<lambda>a. \<not> K a) Y)"
      by (simp add: mass_of_filter_partition)
    have "mass_of h1 (filter (\<lambda>a. \<not> K a) Y) = sum_list (map (eaten h1 sel) (filter (\<lambda>a. \<not> K a) Y))"
      unfolding mass_of_def
    proof (intro arg_cong[where f = sum_list] map_cong refl)
      fix a assume "a \<in> set (filter (\<lambda>a. \<not> K a) Y)"
      then have a: "a \<in> set (all_items p)" and k: "\<not> K a" using sY by auto
      then have m: "(a, quantity (h1 ! a)) \<in> set sel" using rm by blast
      have "\<not> is_takeout h1 (a, quantity (h1 ! a))" using ntk[OF a] by (simp add: is_takeout_def)
      from eaten_unique[OF ds m this] show "quantity (h1 ! a) = eaten h1 sel a" by simp
    qed
    also have "\<dots> = sum_list (map snd (filter (\<lambda>e. fst e \<in> set (filter (\<lambda>a. \<not> K a) Y) \<and> \<not> is_takeout h1 e) sel))"
      by (rule sum_eaten) (simp add: dY)
    finally have m4: "mass_of h (filter (\<lambda>a. \<not> K a) Y)
        = sum_list (map snd (filter (\<lambda>e. fst e \<in> set (filter (\<lambda>a. \<not> K a) Y) \<and> \<not> is_takeout h1 e) sel))"
      using m2[of "filter (\<lambda>a. \<not> K a) Y"] by simp
    have un: "sum_list (map snd (filter (\<lambda>e. (fst e \<in> set (filter K Y) \<and> \<not> is_takeout h1 e)
                  \<or> (fst e \<in> set (filter (\<lambda>a. \<not> K a) Y) \<and> \<not> is_takeout h1 e)) sel))
       = sum_list (map snd (filter (\<lambda>e. fst e \<in> set (filter K Y) \<and> \<not> is_takeout h1 e) sel))
       + sum_list (map snd (filter (\<lambda>e. fst e \<in> set (filter (\<lambda>a. \<not> K a) Y) \<and> \<not> is_takeout h1 e) sel))"
      by (rule sum_list_filter_disj) simp
    have fc: "filter (\<lambda>e. (fst e \<in> set (filter K Y) \<and> \<not> is_takeout h1 e)
                  \<or> (fst e \<in> set (filter (\<lambda>a. \<not> K a) Y) \<and> \<not> is_takeout h1 e)) sel
        = filter (\<lambda>e. fst e \<in> set Y \<and> \<not> is_takeout h2 e) sel"
      by (rule filter_cong[OF refl]) (auto simp: tk)
    show ?thesis using m1 m2[of "filter K Y"] m3 m4 un unfolding fc by simp
  qed
  have ent: "\<forall>e \<in> set sel. if is_takeout h2 e
            then length h \<le> fst e \<and> fst e < length h2 \<and> h2 ! fst e = takeout_item (snd e)
            else fst e \<in> set (all_items p) \<and> food_type (h2 ! fst e) = food_type (h ! fst e)
                 \<and> fst e < length h2"
  proof
    fix e assume e: "e \<in> set sel"
    show "if is_takeout h2 e
            then length h \<le> fst e \<and> fst e < length h2 \<and> h2 ! fst e = takeout_item (snd e)
            else fst e \<in> set (all_items p) \<and> food_type (h2 ! fst e) = food_type (h ! fst e)
                 \<and> fst e < length h2"
    proof (cases "is_takeout h1 e")
      case True
      then have "eaten h1 sel (fst e) = 0" using eaten_takeout[OF ds, of "fst e" "snd e" h1] e by simp
      moreover have "fst e < length h1" using E[OF e] by simp
      ultimately have "h2 ! fst e = h1 ! fst e" using pt by simp
      then show ?thesis using True E[OF e] tk[OF e] l2 by simp
    next
      case False
      then have a: "fst e \<in> set (all_items p)" using E[OF e] by simp
      then have "food_type (h2 ! fst e) = food_type (h ! fst e)"
        using nm[of "fst e"] E[OF e] old[OF lt[OF a]] by simp
      moreover have "fst e < length h2" using E[OF e] l2 by simp
      ultimately show ?thesis using False a tk[OF e] by simp
    qed
  qed
  have so: "\<And>ft. sourced h2 sel ft = sourced h1 sel ft"
    unfolding sourced_def
    by (rule arg_cong[where f = "\<lambda>xs. sum_list (map snd xs)"], rule filter_cong[OF refl])
       (use E nm tk in auto)
  have f2: "filter (is_takeout h2) sel = filter (is_takeout h1) sel"
    by (rule filter_cong[OF refl]) (simp add: tk)
  have acc: "map snd (filter (is_takeout h2) sel)
          = filter (\<lambda>x. 0 < x) (map (\<lambda>(ft, amount). amount - sourced h2 sel ft) (consumption_patterns meal))"
    unfolding f2 ac by (simp add: so)
  from res sp wf2 nt2 mass ent acc show ?thesis by blast
qed

text \<open>
  Claim C7, as stated, at a pantry that stores an item named "Emergency Takeout" (the name
  is an ordinary constructor argument; nothing reserves it): the basic strategy selects
  50 of the stored non-perishable item, \<open>Meal.consume\<close> takes it for the placeholder
  because of its name and skips \<open>FoodItem.consume\<close>. The pantry's total stays 100 although
  50 was selected from a stored item, and the entry the code treats as the placeholder is
  a stored NON_PERISHABLE item with horizons 5 and 10 and mass 100.
\<close>

theorem Meal_consume_stored_takeout_counterexample:
  "Meal_consume BasicConsumptionStrategy \<lparr>consumption_patterns = [(NON_PERISHABLE, 50)]\<rparr>
       takeout_named_heap takeout_named_pantry rng0
     = Inr ([(0, 50)], takeout_named_heap, takeout_named_pantry, rng0)
   \<and> all_items takeout_named_pantry = [0]
   \<and> takeout_named_heap ! 0 = \<lparr>name = ''Emergency Takeout'', food_type = NON_PERISHABLE, best_before = 5,
         spoilage_date = 10, quantity = 100\<rparr>
   \<and> get_total takeout_named_heap takeout_named_pantry = 100
   \<and> pantry_wf takeout_named_heap takeout_named_pantry"
  by (simp add: Meal_consume_def select_food_def BasicConsumptionStrategy_select_food_def
      get_items_by_type_def takeout_named_heap_def takeout_named_pantry_def Pantry_init_def
      all_items_def FoodTypes_def get_total_def pantry_wf_def Let_def)

text \<open>
  Claim C7, amended: for every consumption strategy and every meal (its pattern a dict,
  so with distinct keys) on a well-formed pantry that stores no item named
  "Emergency Takeout", \<open>Meal.consume\<close> returns normally; the pantry's total mass afterwards
  is its total before minus the take-amounts of the selected entries that are not the
  placeholder, and the same holds per category; every placeholder entry of the returned
  selection is a fresh item, stored in the pantry neither before nor after, that is
  PERISHABLE with \<open>best_before = 0\<close>, \<open>spoilage_date = 0\<close> and mass equal to its take-amount;
  and the placeholder masses are, in pattern order, exactly the positive shortfalls
  between the requested amount of a category and what was sourced for it.
\<close>

theorem Meal_consume_frame:
  assumes "pantry_wf h p" and "no_takeout_stored h p"
    and "distinct (map fst (consumption_patterns meal))"
  shows "\<exists>sel h' p' rng'. Meal_consume cs meal h p rng = Inr (sel, h', p', rng')
     \<and> get_total h' p' = get_total h p - sum_list (map snd (filter (\<lambda>e. \<not> is_takeout h' e) sel))
     \<and> (\<forall>t. get_total_by_type h' p' t = get_total_by_type h p t - sourced h' sel t)
     \<and> (\<forall>e \<in> set sel. is_takeout h' e \<longrightarrow>
            fst e \<notin> set (all_items p) \<and> fst e \<notin> set (all_items p')
          \<and> h' ! fst e = \<lparr>name = EMERGENCY_TAKEOUT, food_type = PERISHABLE, best_before = 0,
                            spoilage_date = 0, quantity = snd e\<rparr>)
     \<and> map snd (filter (is_takeout h') sel)
          = filter (\<lambda>x. 0 < x) (map (\<lambda>(ft, amount). amount - sourced h' sel ft) (consumption_patterns meal))"
proof -
  note D = pantry_wf_D[OF assms(1)]
  from Meal_consume_ok[OF assms, of cs rng] obtain sel h2 p1 rng1 K where
    res: "Meal_consume cs meal h p rng = Inr (sel, h2, p1, rng1)"
    and sp: "sub_pantry K p p1"
    and mass: "\<forall>Y. distinct Y \<and> set Y \<subseteq> set (all_items p) \<longrightarrow>
           mass_of h2 (filter K Y) = mass_of h Y
             - sum_list (map snd (filter (\<lambda>e. fst e \<in> set Y \<and> \<not> is_takeout h2 e) sel))"
    and ent: "\<forall>e \<in> set sel. if is_takeout h2 e
            then length h \<le> fst e \<and> fst e < length h2 \<and> h2 ! fst e = takeout_item (snd e)
            else fst e \<in> set (all_items p) \<and> food_type (h2 ! fst e) = food_type (h ! fst e)
                 \<and> fst e < length h2"
    and acc: "map snd (filter (is_takeout h2) sel)
          = filter (\<lambda>x. 0 < x) (map (\<lambda>(ft, amount). amount - sourced h2 sel ft) (consumption_patterns meal))"
    by blast
  have all1: "all_items p1 = filter K (all_items p)" by (rule sub_pantry_all_items[OF sp])
  have it1: "\<And>t. items_by_type p1 t = filter K (items_by_type p t)"
    using sp by (simp add: sub_pantry_def)
  have tot: "get_total h2 p1 = get_total h p - sum_list (map snd (filter (\<lambda>e. \<not> is_takeout h2 e) sel))"
  proof -
    have "filter (\<lambda>e. fst e \<in> set (all_items p) \<and> \<not> is_takeout h2 e) sel = filter (\<lambda>e. \<not> is_takeout h2 e) sel"
      by (rule filter_cong[OF refl]) (use ent in auto)
    then show ?thesis
      using mass[rule_format, of "all_items p"] D(1) by (simp add: get_total_def all1 mass_of_def)
  qed
  have cat: "get_total_by_type h2 p1 t = get_total_by_type h p t - sourced h2 sel t" for t
  proof -
    have "filter (\<lambda>e. fst e \<in> set (items_by_type p t) \<and> \<not> is_takeout h2 e) sel
        = filter (\<lambda>e. \<not> is_takeout h2 e \<and> food_type (h2 ! fst e) = t) sel"
    proof (rule filter_cong[OF refl])
      fix e assume e: "e \<in> set sel"
      show "(fst e \<in> set (items_by_type p t) \<and> \<not> is_takeout h2 e)
          = (\<not> is_takeout h2 e \<and> food_type (h2 ! fst e) = t)"
      proof (cases "is_takeout h2 e")
        case True
        then show ?thesis by simp
      next
        case False
        then have a: "fst e \<in> set (all_items p)" and ty: "food_type (h2 ! fst e) = food_type (h ! fst e)"
          using ent e by auto
        from a obtain t' where t': "fst e \<in> set (items_by_type p t')" by (auto simp: all_items_mem)
        have "fst e \<in> set (items_by_type p t) \<longleftrightarrow> food_type (h ! fst e) = t"
          using D(3)[OF t'] D(3)[of "fst e" t] t' by auto
        then show ?thesis using False ty by simp
      qed
    qed
    moreover have "set (items_by_type p t) \<subseteq> set (all_items p)" by (auto simp: all_items_mem)
    ultimately show ?thesis
      using mass[rule_format, of "items_by_type p t"] D(4)[of t]
      by (simp add: get_total_by_type_def it1 mass_of_def sourced_def)
  qed
  have ph: "\<forall>e \<in> set sel. is_takeout h2 e \<longrightarrow>
            fst e \<notin> set (all_items p) \<and> fst e \<notin> set (all_items p1)
          \<and> h2 ! fst e = \<lparr>name = EMERGENCY_TAKEOUT, food_type = PERISHABLE, best_before = 0,
                            spoilage_date = 0, quantity = snd e\<rparr>"
  proof (intro ballI impI)
    fix e assume e: "e \<in> set sel" and t: "is_takeout h2 e"
    then have g: "length h \<le> fst e" and i: "h2 ! fst e = takeout_item (snd e)" using ent by auto
    have n: "fst e \<notin> set (all_items p)" using D(2)[of "fst e"] g by auto
    then have "fst e \<notin> set (all_items p1)" by (simp add: all1)
    with n i show "fst e \<notin> set (all_items p) \<and> fst e \<notin> set (all_items p1)
          \<and> h2 ! fst e = \<lparr>name = EMERGENCY_TAKEOUT, food_type = PERISHABLE, best_before = 0,
                            spoilage_date = 0, quantity = snd e\<rparr>"
      by (simp add: takeout_item_def)
  qed
  from res tot cat ph acc show ?thesis by blast
qed

theorem Meal_consume_frame_witness:
  "pantry_wf example_heap example_pantry \<and> no_takeout_stored example_heap example_pantry
   \<and> distinct (map fst (consumption_patterns \<lparr>consumption_patterns = [(LEFTOVER, 4), (PERISHABLE, 2)]\<rparr>))
   \<and> (\<exists>sel h' p' rng'.
        Meal_consume RandomConsumptionStrategy \<lparr>consumption_patterns = [(LEFTOVER, 4), (PERISHABLE, 2)]\<rparr>
            example_heap example_pantry rng0 = Inr (sel, h', p', rng')
      \<and> get_total h' p' = get_total example_heap example_pantry
            - sum_list (map snd (filter (\<lambda>e. \<not> is_takeout h' e) sel)))"
proof -
  have 1: "pantry_wf example_heap example_pantry" by (rule example_wf)
  have 2: "no_takeout_stored example_heap example_pantry"
    by (simp add: no_takeout_stored_def example_heap_def example_pantry_def all_items_def FoodTypes_def
        Pantry_init_def EMERGENCY_TAKEOUT_def)
  have 3: "distinct (map fst (consumption_patterns \<lparr>consumption_patterns = [(LEFTOVER, 4), (PERISHABLE, 2)]\<rparr>))"
    by simp
  from Meal_consume_frame[OF 1 2 3, of RandomConsumptionStrategy rng0] 1 2 3 show ?thesis by blast
qed

text \<open>
  Claim C3. \<open>BasicConsumptionStrategy.select_food\<close> returns the pantry it was given, for
  every input. \<open>RandomConsumptionStrategy.select_food\<close> returns the pantry with the
  category list replaced by what is left of it once every item taken in full (an entry
  whose amount is the item's whole quantity) is removed, while the store of items is not
  touched by selection at all (\<open>select_food\<close> has no store in its result); and there are
  inputs on which the list does change.
\<close>

theorem select_food_frame:
  "fst (snd (select_food BasicConsumptionStrategy h p rng ft amount)) = p
   \<and> (distinct (items_by_type p ft) \<longrightarrow>
        (\<exists>sel rng'. select_food RandomConsumptionStrategy h p rng ft amount
            = (sel, p\<lparr>items_by_type := (items_by_type p)
                        (ft := filter (\<lambda>a. (a, quantity (h ! a)) \<notin> set sel) (items_by_type p ft))\<rparr>, rng')))
   \<and> (\<exists>h' p' rng' ft' amount'.
         items_by_type (fst (snd (select_food RandomConsumptionStrategy h' p' rng' ft' amount'))) ft'
           \<noteq> items_by_type p' ft')"
proof -
  have A: "fst (snd (select_food BasicConsumptionStrategy h p rng ft amount)) = p"
    by (simp add: select_food_def BasicConsumptionStrategy_select_food_def)
  have B: "\<exists>sel rng'. select_food RandomConsumptionStrategy h p rng ft amount
            = (sel, p\<lparr>items_by_type := (items_by_type p)
                        (ft := filter (\<lambda>a. (a, quantity (h ! a)) \<notin> set sel) (items_by_type p ft))\<rparr>, rng')"
    if d: "distinct (items_by_type p ft)"
  proof -
    obtain sel rest rng' where w: "random_walk h (items_by_type p ft) amount rng = (sel, rest, rng')"
      by (cases "random_walk h (items_by_type p ft) amount rng")
    from random_walk_spec[OF d w]
    have "rest = filter (\<lambda>a. (a, quantity (h ! a)) \<notin> set sel) (items_by_type p ft)" by blast
    then show ?thesis
      by (simp add: select_food_def RandomConsumptionStrategy_select_food_def get_items_by_type_def w)
  qed
  have "items_by_type (fst (snd (select_food RandomConsumptionStrategy example_heap example_pantry rng0 LEFTOVER 4))) LEFTOVER
       \<noteq> items_by_type example_pantry LEFTOVER"
    by (simp add: select_food_def RandomConsumptionStrategy_select_food_def get_items_by_type_def
        example_heap_def example_pantry_def rng0_def Pantry_init_def random_walk.simps random_choice_def)
  then have C: "\<exists>h' p' rng' ft' amount'.
         items_by_type (fst (snd (select_food RandomConsumptionStrategy h' p' rng' ft' amount'))) ft'
           \<noteq> items_by_type p' ft'" by blast
  from A B C show ?thesis by blast
qed

theorem select_food_frame_witness:
  "distinct (items_by_type example_pantry LEFTOVER)
   \<and> items_by_type example_pantry LEFTOVER = [1, 0]
   \<and> (\<exists>sel rng'. select_food RandomConsumptionStrategy example_heap example_pantry rng0 LEFTOVER 4
         = (sel, example_pantry\<lparr>items_by_type := (items_by_type example_pantry)
               (LEFTOVER := filter (\<lambda>a. (a, quantity (example_heap ! a)) \<notin> set sel)
                               (items_by_type example_pantry LEFTOVER))\<rparr>, rng'))
   \<and> select_food RandomConsumptionStrategy example_heap example_pantry rng0 LEFTOVER 4
         = ([(1, 3), (0, 1)],
            example_pantry\<lparr>items_by_type := (items_by_type example_pantry)(LEFTOVER := [0])\<rparr>,
            rng0\<lparr>choice_pos := 2\<rparr>)"
proof -
  have d: "distinct (items_by_type example_pantry LEFTOVER)"
    and e: "items_by_type example_pantry LEFTOVER = [1, 0]"
    by (simp_all add: example_pantry_def Pantry_init_def)
  have v: "select_food RandomConsumptionStrategy example_heap example_pantry rng0 LEFTOVER 4
         = ([(1, 3), (0, 1)],
            example_pantry\<lparr>items_by_type := (items_by_type example_pantry)(LEFTOVER := [0])\<rparr>,
            rng0\<lparr>choice_pos := 2\<rparr>)"
    by (simp add: select_food_def RandomConsumptionStrategy_select_food_def get_items_by_type_def
        example_heap_def example_pantry_def rng0_def Pantry_init_def random_walk.simps random_choice_def)
  from select_food_frame[of example_heap example_pantry rng0 LEFTOVER 4, THEN conjunct2, THEN conjunct1, rule_format, OF d]
    d e v show ?thesis by (intro conjI)
qed

subsection \<open>GroceryStore.get_order\<close>

lemma py_int_nonneg: "0 \<le> x \<Longrightarrow> 0 \<le> py_int x"
  by (simp add: py_int_def)

lemma py_int_min_le: "0 \<le> u \<Longrightarrow> 0 < r \<Longrightarrow> py_int (min u (real_of_int r)) \<le> r"
  by (simp add: py_int_def min_def floor_le_iff)

lemma py_int_of_int: "py_int (real_of_int n) = n"
  by (simp add: py_int_def)

lemma FoodItem_init_ok:
  "FoodItem_init n t bb (max (bb + 1) sd0) q =
     Inr \<lparr>name = n, food_type = t, best_before = bb, spoilage_date = max (bb + 1) sd0, quantity = q\<rparr>"
  by (simp add: FoodItem_init_def)

lemma get_order_loop_valid:
  assumes run: "get_order_loop ftype T bbp sdp remaining failures order drawn rng = Some y"
  shows "(\<forall>item \<in> set order. item_valid item) \<longrightarrow>
         (\<exists>order' drawn' rng'. y = Inr (order', drawn', rng') \<and> (\<forall>item \<in> set order'. item_valid item))"
proof (rule get_order_loop.raw_induct[where P = "\<lambda>ftype T bbp sdp remaining failures order drawn rng y.
         (\<forall>item \<in> set order. item_valid item) \<longrightarrow>
         (\<exists>order' drawn' rng'. y = Inr (order', drawn', rng') \<and> (\<forall>item \<in> set order'. item_valid item))",
       OF _ run], goal_cases)
  case (1 loop ftype T bbp sdp remaining failures order drawn rng y)
  show ?case
  proof (cases "0 < remaining \<and> failures < 100")
    case False
    with 1(2) show ?thesis by auto
  next
    case True
    obtain bb rng1 where d1: "draw_from_distribution (fst bbp) (snd bbp) rng = (bb, rng1)"
      by (cases "draw_from_distribution (fst bbp) (snd bbp) rng")
    obtain sd0 rng2 where d2: "draw_from_distribution (fst sdp) (snd sdp) rng1 = (sd0, rng2)"
      by (cases "draw_from_distribution (fst sdp) (snd sdp) rng1")
    obtain u rng3 where d3: "random_uniform (0.1 * T) (0.5 * T) rng2 = (u, rng3)"
      by (cases "random_uniform (0.1 * T) (0.5 * T) rng2")
    define qty where "qty = py_int (min u (real_of_int remaining))"
    define item where "item = \<lparr>name = FoodType_name ftype @ '' - item'', food_type = ftype,
        best_before = bb, spoilage_date = max (bb + 1) sd0, quantity = real_of_int qty\<rparr>"
    have iv: "item_valid item" by (simp add: item_valid_def item_def)
    show ?thesis
    proof (cases "qty = 0")
      case z: True
      from 1(2) True d1 d2 d3 z
      have "loop ftype T bbp sdp remaining (failures + 1) order (drawn @ [qty]) rng3 = Some y"
        by (simp add: Let_def qty_def[symmetric])
      from 1(1)[OF this] show ?thesis .
    next
      case nz: False
      from 1(2) True d1 d2 d3 nz
      have "loop ftype T bbp sdp (remaining - qty) failures (order @ [item]) (drawn @ [qty]) rng3 = Some y"
        by (simp add: Let_def qty_def[symmetric] FoodItem_init_ok item_def)
      from 1(1)[OF this] iv show ?thesis by simp
    qed
  qed
qed

lemma uniform_ok_updates [simp]:
  "uniform_ok (rng\<lparr>normal_pos := n\<rparr>) = uniform_ok rng"
  "uniform_ok (rng\<lparr>uniform_pos := m\<rparr>) = uniform_ok rng"
  "uniform_ok (rng\<lparr>choice_pos := k\<rparr>) = uniform_ok rng"
  by (simp_all add: uniform_ok_def)

lemma draw_from_distribution_ok:
  "draw_from_distribution m s rng = (v, rng') \<Longrightarrow> uniform_ok rng' = uniform_ok rng"
  by (auto simp: draw_from_distribution_def random_gauss_def)

lemma random_uniform_ok:
  assumes "random_uniform a b rng = (u, rng')" "uniform_ok rng" "a \<le> b"
  shows "uniform_ok rng' \<and> a \<le> u \<and> u \<le> b"
proof -
  define x where "x = uniform_tape rng (uniform_pos rng)"
  have x: "0 \<le> x" "x < 1" using assms(2) by (simp_all add: uniform_ok_def x_def)
  have u: "u = a + (b - a) * x" and r: "rng' = rng\<lparr>uniform_pos := uniform_pos rng + 1\<rparr>"
    using assms(1) by (auto simp: random_uniform_def random_random_def x_def)
  have "0 \<le> (b - a) * x" using x assms(3) by simp
  moreover have "(b - a) * x \<le> (b - a) * 1" using x assms(3) by (intro mult_left_mono) simp_all
  ultimately show ?thesis using assms(2) by (simp add: u r)
qed

lemma get_order_loop_unfold:
  assumes "0 < remaining \<and> failures < 100"
    and "draw_from_distribution (fst bbp) (snd bbp) rng = (bb, rng1)"
    and "draw_from_distribution (fst sdp) (snd sdp) rng1 = (sd0, rng2)"
    and "random_uniform (0.1 * T) (0.5 * T) rng2 = (u, rng3)"
    and "qty = py_int (min u (real_of_int remaining))"
  shows "get_order_loop ftype T bbp sdp remaining failures order drawn rng =
     (if qty = 0 then
        get_order_loop ftype T bbp sdp remaining (failures + 1) order (drawn @ [qty]) rng3
      else
        get_order_loop ftype T bbp sdp (remaining - qty) failures
          (order @ [\<lparr>name = FoodType_name ftype @ '' - item'', food_type = ftype,
                best_before = bb, spoilage_date = max (bb + 1) sd0, quantity = real_of_int qty\<rparr>])
          (drawn @ [qty]) rng3)"
  by (subst get_order_loop.simps)
     (simp only: assms(1-4) assms(5)[symmetric] if_True prod.case Let_def FoodItem_init_ok sum.case
        simp_thms)

lemma get_order_loop_total:
  assumes "uniform_ok rng" and "0 \<le> T" and "0 \<le> remaining" and "failures \<le> 100"
  shows "\<exists>new_items new_draws rng'.
      get_order_loop ftype T bbp sdp remaining failures order drawn rng
        = Some (Inr (order @ new_items, drawn @ new_draws, rng'))
    \<and> map quantity new_items = map real_of_int (filter (\<lambda>q. q \<noteq> 0) new_draws)
    \<and> (\<forall>q \<in> set new_draws. 0 \<le> q)
    \<and> failures + count_list new_draws 0 \<le> 100
    \<and> ((sum_list new_draws = remaining \<and> (new_draws = [] \<or> failures + count_list new_draws 0 < 100))
        \<or> (failures + count_list new_draws 0 = 100 \<and> sum_list new_draws < remaining))"
  using assms
proof (induction "nat remaining + (100 - failures)" arbitrary: remaining failures order drawn rng
    rule: less_induct)
  case less
  show ?case
  proof (cases "0 < remaining \<and> failures < 100")
    case False
    then have stop: "get_order_loop ftype T bbp sdp remaining failures order drawn rng
        = Some (Inr (order, drawn, rng))"
      by (subst get_order_loop.simps, subst if_not_P[OF False]) (rule refl)
    from False less.prems(3,4) have "remaining = 0 \<or> (failures = 100 \<and> 0 < remaining)" by auto
    then show ?thesis
      using less.prems(4) by (intro exI[of _ "[]"] exI[of _ rng]) (auto simp: stop)
  next
    case True
    obtain bb rng1 where d1: "draw_from_distribution (fst bbp) (snd bbp) rng = (bb, rng1)"
      by (cases "draw_from_distribution (fst bbp) (snd bbp) rng")
    obtain sd0 rng2 where d2: "draw_from_distribution (fst sdp) (snd sdp) rng1 = (sd0, rng2)"
      by (cases "draw_from_distribution (fst sdp) (snd sdp) rng1")
    obtain u rng3 where d3: "random_uniform (0.1 * T) (0.5 * T) rng2 = (u, rng3)"
      by (cases "random_uniform (0.1 * T) (0.5 * T) rng2")
    have ok2: "uniform_ok rng2"
      using draw_from_distribution_ok[OF d1] draw_from_distribution_ok[OF d2] less.prems(1) by simp
    have "0.1 * T \<le> 0.5 * T" using less.prems(2) by simp
    from random_uniform_ok[OF d3 ok2 this] have ok3: "uniform_ok rng3" and u0: "0 \<le> u"
      using less.prems(2) by auto
    define qty where "qty = py_int (min u (real_of_int remaining))"
    have q0: "0 \<le> qty" unfolding qty_def using u0 True by (intro py_int_nonneg) simp
    have qr: "qty \<le> remaining" unfolding qty_def using u0 True by (intro py_int_min_le) simp_all
    define item where "item = \<lparr>name = FoodType_name ftype @ '' - item'', food_type = ftype,
        best_before = bb, spoilage_date = max (bb + 1) sd0, quantity = real_of_int qty\<rparr>"
    show ?thesis
    proof (cases "qty = 0")
      case z: True
      have step: "get_order_loop ftype T bbp sdp remaining failures order drawn rng
          = get_order_loop ftype T bbp sdp remaining (failures + 1) order (drawn @ [qty]) rng3"
        using get_order_loop_unfold[OF True d1 d2 d3 qty_def, of ftype order drawn] z by simp
      have m: "nat remaining + (100 - (failures + 1)) < nat remaining + (100 - failures)"
        using True by linarith
      from less.hyps[OF m ok3 less.prems(2,3), of order "drawn @ [qty]"] True
      obtain ni nd r' where
        r: "get_order_loop ftype T bbp sdp remaining (failures + 1) order (drawn @ [qty]) rng3
             = Some (Inr (order @ ni, (drawn @ [qty]) @ nd, r'))"
        and a: "map quantity ni = map real_of_int (filter (\<lambda>q. q \<noteq> 0) nd)"
        and b: "\<forall>q \<in> set nd. 0 \<le> q"
        and c: "failures + 1 + count_list nd 0 \<le> 100"
        and d: "(sum_list nd = remaining \<and> (nd = [] \<or> failures + 1 + count_list nd 0 < 100))
             \<or> (failures + 1 + count_list nd 0 = 100 \<and> sum_list nd < remaining)"
        by auto
      have d': "(sum_list (qty # nd) = remaining \<and> (qty # nd = [] \<or> failures + count_list (qty # nd) 0 < 100))
             \<or> (failures + count_list (qty # nd) 0 = 100 \<and> sum_list (qty # nd) < remaining)"
        using d z True by auto
      show ?thesis
        apply (intro exI[of _ ni] exI[of _ "qty # nd"] exI[of _ r'])
        using step r a b c d' z by simp
    next
      case nz: False
      have step: "get_order_loop ftype T bbp sdp remaining failures order drawn rng
          = get_order_loop ftype T bbp sdp (remaining - qty) failures (order @ [item]) (drawn @ [qty]) rng3"
        using get_order_loop_unfold[OF True d1 d2 d3 qty_def, of ftype order drawn] nz
        by (simp add: item_def)
      have m: "nat (remaining - qty) + (100 - failures) < nat remaining + (100 - failures)"
        using q0 nz qr by simp
      have r0: "0 \<le> remaining - qty" using qr by simp
      from less.hyps[OF m ok3 less.prems(2) r0 less.prems(4), of "order @ [item]" "drawn @ [qty]"]
      obtain ni nd r' where
        r: "get_order_loop ftype T bbp sdp (remaining - qty) failures (order @ [item]) (drawn @ [qty]) rng3
             = Some (Inr ((order @ [item]) @ ni, (drawn @ [qty]) @ nd, r'))"
        and a: "map quantity ni = map real_of_int (filter (\<lambda>q. q \<noteq> 0) nd)"
        and b: "\<forall>q \<in> set nd. 0 \<le> q"
        and c: "failures + count_list nd 0 \<le> 100"
        and d: "(sum_list nd = remaining - qty \<and> (nd = [] \<or> failures + count_list nd 0 < 100))
             \<or> (failures + count_list nd 0 = 100 \<and> sum_list nd < remaining - qty)"
        by auto
      have d': "(sum_list (qty # nd) = remaining \<and> (qty # nd = [] \<or> failures + count_list (qty # nd) 0 < 100))
             \<or> (failures + count_list (qty # nd) 0 = 100 \<and> sum_list (qty # nd) < remaining)"
        using d nz True by auto
      show ?thesis
        apply (intro exI[of _ "item # ni"] exI[of _ "qty # nd"] exI[of _ r'])
        using step r a b c d' nz q0 by (simp add: item_def)
    qed
  qed
qed

lemma sum_list_filter_nonzero: "sum_list (filter (\<lambda>q. q \<noteq> 0) (xs :: int list)) = sum_list xs"
  by (induction xs) auto

text \<open>
  Claim C9. For every store, category, requested quantity and random source: whenever
  \<open>get_order\<close> returns, it has not raised the construction error of \<open>FoodItem\<close>
  (\<open>ValueError\<close>), and every item of a returned order has
  \<open>spoilage_date \<ge> best_before + 1\<close>.
\<close>

theorem get_order_items_valid:
  "get_order store ftype T rng = Some y \<Longrightarrow>
     y \<noteq> Inl ValueError
   \<and> (\<forall>order drawn rng'. y = Inr (order, drawn, rng') \<longrightarrow>
          (\<forall>item \<in> set order. best_before item + 1 \<le> spoilage_date item))"
proof -
  assume a: "get_order store ftype T rng = Some y"
  show ?thesis
  proof (cases "best_before_params store ftype")
    case None
    with a show ?thesis by (auto simp: get_order_def)
  next
    case (Some bbp)
    show ?thesis
    proof (cases "spoilage_date_params store ftype")
      case None
      with a Some show ?thesis by (auto simp: get_order_def)
    next
      case (Some sdp)
      with a \<open>best_before_params store ftype = Some bbp\<close>
      have "get_order_loop ftype T bbp sdp (py_int T) 0 [] [] rng = Some y"
        by (simp add: get_order_def)
      from get_order_loop_valid[OF this] show ?thesis by (auto simp: item_valid_def)
    qed
  qed
qed

lemma example_order:
  "get_order example_store PERISHABLE 10 rng0 =
   Some (Inr ([\<lparr>name = ''PERISHABLE - item'', food_type = PERISHABLE, best_before = 3, spoilage_date = 5, quantity = 3\<rparr>,
      \<lparr>name = ''PERISHABLE - item'', food_type = PERISHABLE, best_before = 3, spoilage_date = 5, quantity = 3\<rparr>,
      \<lparr>name = ''PERISHABLE - item'', food_type = PERISHABLE, best_before = 3, spoilage_date = 5, quantity = 3\<rparr>,
      \<lparr>name = ''PERISHABLE - item'', food_type = PERISHABLE, best_before = 3, spoilage_date = 5, quantity = 1\<rparr>],
      [3, 3, 3, 1], rng0\<lparr>uniform_pos := 4, normal_pos := 8\<rparr>))"
  by (simp add: get_order_def example_store_def GroceryStore_init_def rng0_def
     get_order_loop.simps draw_from_distribution_def random_gauss_def random_uniform_def
     random_random_def py_int_def Let_def FoodItem_init_def FoodType_name_def)

theorem get_order_items_valid_witness:
  "get_order example_store PERISHABLE 10 rng0 =
   Some (Inr ([\<lparr>name = ''PERISHABLE - item'', food_type = PERISHABLE, best_before = 3, spoilage_date = 5, quantity = 3\<rparr>,
      \<lparr>name = ''PERISHABLE - item'', food_type = PERISHABLE, best_before = 3, spoilage_date = 5, quantity = 3\<rparr>,
      \<lparr>name = ''PERISHABLE - item'', food_type = PERISHABLE, best_before = 3, spoilage_date = 5, quantity = 3\<rparr>,
      \<lparr>name = ''PERISHABLE - item'', food_type = PERISHABLE, best_before = 3, spoilage_date = 5, quantity = 1\<rparr>],
      [3, 3, 3, 1], rng0\<lparr>uniform_pos := 4, normal_pos := 8\<rparr>))
   \<and> (3::int) + 1 \<le> 5"
  using get_order_items_valid[OF example_order] by (simp add: example_order)

text \<open>
  Claim C5, amended: for every category present in the store's parameter dicts, every
  \<open>total_quantity \<ge> 0\<close> and every random source whose uniform draws lie in \<open>[0, 1)\<close>,
  \<open>get_order\<close> returns an order without raising. The items are the non-zero draws in
  order, every draw is non-negative (it is capped at the remaining need, so the sum never
  exceeds \<open>int(total_quantity)\<close>), and the loop has stopped for one of two reasons: the
  drawn mass has reached \<open>int(total_quantity)\<close> exactly, with fewer than 100 zero draws; or
  100 zero draws have occurred in total (the counter \<open>failures\<close> is never reset, so they
  need not be consecutive) and the order sums to less than \<open>int(total_quantity)\<close>.
\<close>

theorem get_order_total:
  assumes "uniform_ok rng" and "0 \<le> T"
    and "best_before_params store ftype = Some bbp" and "spoilage_date_params store ftype = Some sdp"
  shows "\<exists>order drawn rng'. get_order store ftype T rng = Some (Inr (order, drawn, rng'))
     \<and> map quantity order = map real_of_int (filter (\<lambda>q. q \<noteq> 0) drawn)
     \<and> (\<forall>q \<in> set drawn. 0 \<le> q)
     \<and> count_list drawn 0 \<le> 100
     \<and> ((sum_list (map quantity order) = real_of_int (py_int T) \<and> count_list drawn 0 < 100)
        \<or> (count_list drawn 0 = 100 \<and> sum_list (map quantity order) < real_of_int (py_int T)))"
proof -
  have r0: "0 \<le> py_int T" using assms(2) by (rule py_int_nonneg)
  from get_order_loop_total[OF assms(1,2) r0, of 0 ftype bbp sdp "[]" "[]"]
  obtain order drawn rng' where
    run: "get_order_loop ftype T bbp sdp (py_int T) 0 [] [] rng = Some (Inr (order, drawn, rng'))"
    and a: "map quantity order = map real_of_int (filter (\<lambda>q. q \<noteq> 0) drawn)"
    and b: "\<forall>q \<in> set drawn. 0 \<le> q"
    and c: "count_list drawn 0 \<le> 100"
    and d: "(sum_list drawn = py_int T \<and> (drawn = [] \<or> count_list drawn 0 < 100))
          \<or> (count_list drawn 0 = 100 \<and> sum_list drawn < py_int T)"
    by auto
  have "sum_list (map quantity order) = sum_list (map real_of_int (filter (\<lambda>q. q \<noteq> 0) drawn))"
    by (simp only: a)
  also have "\<dots> = real_of_int (sum_list (filter (\<lambda>q. q \<noteq> 0) drawn))"
    by (induction drawn) auto
  finally have s: "sum_list (map quantity order) = real_of_int (sum_list drawn)"
    by (simp only: sum_list_filter_nonzero)
  have d': "(sum_list (map quantity order) = real_of_int (py_int T) \<and> count_list drawn 0 < 100)
        \<or> (count_list drawn 0 = 100 \<and> sum_list (map quantity order) < real_of_int (py_int T))"
    using d unfolding s by auto
  have "get_order store ftype T rng = Some (Inr (order, drawn, rng'))"
    by (simp add: get_order_def assms(3,4) run)
  with a b c d' show ?thesis by blast
qed

lemma replicate_numeral_unfold: "replicate (numeral k) x = x # replicate (pred_numeral k) x"
  by (simp add: numeral_eq_Suc)

lemma zero_run_max_replicate_append:
  "zero_run_max (replicate n 0 @ xs) cur best = zero_run_max xs (cur + n) best"
  by (induction n arbitrary: cur) simp_all

lemma zero_run_max_replicate: "zero_run_max (replicate n 0) cur best = max (cur + n) best"
  using zero_run_max_replicate_append[of n "[]" cur best] by simp

lemma count_list_replicate: "count_list (replicate n x) x = n"
  by (induction n) simp_all

text \<open>
  Claim C5, as stated, at \<open>get_order(PERISHABLE, 5)\<close> with uniform draws
  \<open>uniform(0.5, 2.5) = 0.5\<close> fifty times, then \<open>1.0\<close> once, then \<open>0.5\<close> fifty times: the loop
  stops after 101 draws with one item of mass 1, although the drawn mass (1) has not
  reached \<open>int(5) = 5\<close> and the longest run of consecutive zero-quantity draws is 50, not
  100. It stops because zero draws number 100 in total.
\<close>

theorem get_order_scattered_failures_counterexample:
  "get_order example_store PERISHABLE 5 scattered_rng =
     Some (Inr ([\<lparr>name = ''PERISHABLE - item'', food_type = PERISHABLE, best_before = 3,
                   spoilage_date = 5, quantity = 1\<rparr>],
                replicate 50 0 @ 1 # replicate 50 0,
                scattered_rng\<lparr>uniform_pos := 101, normal_pos := 202\<rparr>))
   \<and> py_int 5 = 5
   \<and> longest_zero_run (replicate 50 0 @ 1 # replicate 50 0) = 50
   \<and> count_list (replicate 50 0 @ (1::int) # replicate 50 0) 0 = 100"
proof -
  have e: "get_order example_store PERISHABLE 5 scattered_rng =
     Some (Inr ([\<lparr>name = ''PERISHABLE - item'', food_type = PERISHABLE, best_before = 3,
                   spoilage_date = 5, quantity = 1\<rparr>],
                replicate 50 0 @ 1 # replicate 50 0,
                scattered_rng\<lparr>uniform_pos := 101, normal_pos := 202\<rparr>))"
    by (simp add: get_order_def example_store_def GroceryStore_init_def scattered_rng_def
       get_order_loop.simps draw_from_distribution_def random_gauss_def random_uniform_def
       random_random_def py_int_def Let_def FoodItem_init_def FoodType_name_def
       replicate_numeral_unfold)
  have p: "py_int 5 = 5" by (simp add: py_int_def)
  have l: "longest_zero_run (replicate 50 0 @ 1 # replicate 50 0) = 50"
    by (simp add: longest_zero_run_def zero_run_max_replicate_append zero_run_max_replicate)
  have c: "count_list (replicate 50 0 @ (1::int) # replicate 50 0) 0 = 100"
    by (simp add: count_list_replicate)
  from e p l c show ?thesis by (intro conjI)
qed

theorem get_order_total_witness:
  "uniform_ok rng0 \<and> (0::real) \<le> 10
   \<and> best_before_params example_store PERISHABLE = Some (3, 1)
   \<and> spoilage_date_params example_store PERISHABLE = Some (5, 2)
   \<and> (\<exists>order drawn rng'. get_order example_store PERISHABLE 10 rng0 = Some (Inr (order, drawn, rng'))
     \<and> map quantity order = map real_of_int (filter (\<lambda>q. q \<noteq> 0) drawn)
     \<and> count_list drawn 0 \<le> 100
     \<and> ((sum_list (map quantity order) = real_of_int (py_int 10) \<and> count_list drawn 0 < 100)
        \<or> (count_list drawn 0 = 100 \<and> sum_list (map quantity order) < real_of_int (py_int 10))))"
proof -
  have 1: "uniform_ok rng0" by (simp add: uniform_ok_def rng0_def)
  have 2: "(0::real) \<le> 10" by simp
  have 3: "best_before_params example_store PERISHABLE = Some (3, 1)"
    by (simp add: example_store_def GroceryStore_init_def)
  have 4: "spoilage_date_params example_store PERISHABLE = Some (5, 2)"
    by (simp add: example_store_def GroceryStore_init_def)
  from get_order_total[OF 1 2 3 4] 1 2 3 4 show ?thesis by blast
qed

subsection \<open>Household: the meals of a day\<close>

lemma FoodType_cases3: "t = LEFTOVER \<or> t = PERISHABLE \<or> t = NON_PERISHABLE"
  by (cases t) auto
















subsection \<open>Household: ordering and the record of the day\<close>

lemmas household_eval_defs =
  daily_step_def start_day_def Household_init_def Pantry_init_def
  HistoricalConsumptionPolicy_init_def FixedConsumptionPolicy_init_def
  decrement_days_until_next_order_def get_days_until_next_order_def set_days_until_next_order_def
  order_phase_def make_daily_record_def Pantry_step_def FoodTypes_def tally_init_def
  plan_meal_def get_total_by_type_def get_total_def all_items_def Meal_consume_def select_food_def
  BasicConsumptionStrategy_select_food_def get_items_by_type_def Let_def FoodItem_init_def alloc_def
  compute_plate_waste_def compute_leftovers_def store_leftovers_def sum_values_def
  EMERGENCY_TAKEOUT_def





lemma eat_meals_order_policy:
  "eat_meals meals hh h rng consumed = Inr (hh1, h1, rng1, consumed1) \<Longrightarrow> order_policy hh1 = order_policy hh"
proof (induction meals arbitrary: hh h rng consumed)
  case Nil
  then show ?case by simp
next
  case (Cons planned_meal rest)
  from Cons.prems obtain hhA hA rngA consumedA where
    s: "eat_meals rest hhA hA rngA consumedA = Inr (hh1, h1, rng1, consumed1)"
    and o: "order_policy hhA = order_policy hh"
    by (simp add: Let_def split: sum.splits prod.splits)
  from Cons.IH[OF s] o show ?case by simp
qed

lemma determine_order_quantity_counter:
  "get_days_until_next_order (snd (determine_order_quantity policy hist h p)) = get_days_until_next_order policy"
  "get_frequency (snd (determine_order_quantity policy hist h p)) = get_frequency policy"
  by (cases policy; simp add: determine_order_quantity_def get_days_until_next_order_def
        get_frequency_def Let_def)+

lemma set_days_until_next_order_counter:
  assumes "get_days_until_next_order policy = Inr d"
  shows "get_days_until_next_order (set_days_until_next_order policy v) = Inr v"
    and "get_frequency (set_days_until_next_order policy v) = get_frequency policy"
  using assms
  by (cases policy; simp add: set_days_until_next_order_def get_days_until_next_order_def
        get_frequency_def)+

lemma order_phase_counter:
  assumes op: "order_phase hx h rng = Some (Inr (hh3, h3, rng3, bought_p, bought_np))"
    and d: "get_days_until_next_order (order_policy hx) = Inr d"
    and f: "get_frequency (order_policy hx) = Inr f"
  shows "get_days_until_next_order (order_policy hh3) = Inr (if d = 0 then f else d)
       \<and> get_frequency (order_policy hh3) = Inr f"
proof (cases "d = 0")
  case False
  with op d have "hh3 = hx" by (simp add: order_phase_def)
  with d f False show ?thesis by simp
next
  case True
  obtain q policy1 where dq: "determine_order_quantity (order_policy hx) (history hx) h (pantry hx) = (q, policy1)"
    by (cases "determine_order_quantity (order_policy hx) (history hx) h (pantry hx)")
  have d1: "get_days_until_next_order policy1 = Inr d" and f1: "get_frequency policy1 = Inr f"
    using determine_order_quantity_counter[of "order_policy hx" "history hx" h "pantry hx"] dq d f
    by simp_all
  have rs: "reset_days_until_next_order policy1 = Inr (set_days_until_next_order policy1 f)"
    by (simp add: reset_days_until_next_order_def f1)
  from op d True dq rs have "order_policy hh3 = set_days_until_next_order policy1 f"
    unfolding order_phase_def
    by (cases q) (auto split: option.splits sum.splits prod.splits)
  with set_days_until_next_order_counter[OF d1, of f] f1 True show ?thesis by simp
qed

lemma daily_step_counter:
  assumes ds: "daily_step hh h rng = Some (Inr (r, hh', h', rng'))"
    and d: "get_days_until_next_order (order_policy hh) = Inr d"
    and f: "get_frequency (order_policy hh) = Inr f"
  shows "get_days_until_next_order (order_policy hh') = Inr (if d = 1 then f else d - 1)"
    and "get_frequency (order_policy hh') = Inr f"
proof -
  from ds obtain meals_today later_meals where wm: "weekly_meals hh = Some (meals_today # later_meals)"
    by (cases "weekly_meals hh"; cases "the (weekly_meals hh)") (simp_all add: daily_step_def)
  from ds wm obtain hh1 h1 rng1 consumed1 where
    em: "eat_meals meals_today ((start_day hh)\<lparr>weekly_meals := Some later_meals\<rparr>) h rng []
           = Inr (hh1, h1, rng1, consumed1)"
    by (cases "eat_meals meals_today ((start_day hh)\<lparr>weekly_meals := Some later_meals\<rparr>) h rng []")
       (auto simp: daily_step_def)
  have o1: "order_policy hh1 = order_policy hh"
    using eat_meals_order_policy[OF em] by (simp add: start_day_def)
  from ds wm em obtain h2 p2 where ps: "Pantry_step (pantry_strategy hh1) h1 (pantry hh1) = Inr (h2, p2)"
    by (cases "Pantry_step (pantry_strategy hh1) h1 (pantry hh1)") (auto simp: daily_step_def)
  define policy1 where "policy1 = set_days_until_next_order (order_policy hh) (d - 1)"
  have dec: "decrement_days_until_next_order (order_policy hh1) = Inr policy1"
    by (simp add: decrement_days_until_next_order_def o1 d policy1_def)
  from ds wm em ps dec obtain hh3 bought_p bought_np where
    op: "order_phase (hh1\<lparr>pantry := p2, order_policy := policy1\<rparr>) h2 rng1
           = Some (Inr (hh3, h', rng', bought_p, bought_np))"
    and hh': "\<exists>r. hh' = hh3\<lparr>history := history hh3 @ [r]\<rparr>"
    by (simp add: daily_step_def split: option.splits sum.splits prod.splits) blast
  have d1: "get_days_until_next_order (order_policy (hh1\<lparr>pantry := p2, order_policy := policy1\<rparr>)) = Inr (d - 1)"
    and f1: "get_frequency (order_policy (hh1\<lparr>pantry := p2, order_policy := policy1\<rparr>)) = Inr f"
    using set_days_until_next_order_counter[OF d, of "d - 1"] f by (simp_all add: policy1_def)
  from order_phase_counter[OF op d1 f1] hh'
  show "get_days_until_next_order (order_policy hh') = Inr (if d = 1 then f else d - 1)"
    and "get_frequency (order_policy hh') = Inr f"
    by auto
qed

lemma daily_step_counter_range:
  assumes "daily_step hh h rng = Some (Inr (r, hh', h', rng'))"
    and "get_days_until_next_order (order_policy hh) = Inr d"
    and "get_frequency (order_policy hh) = Inr f"
    and "1 \<le> d" and "d \<le> f"
  shows "\<exists>d'. get_days_until_next_order (order_policy hh') = Inr d' \<and> 1 \<le> d' \<and> d' \<le> f"
  using daily_step_counter(1)[OF assms(1-3)] assms(4,5) by auto

lemma OrderPolicy_init_counter:
  "get_days_until_next_order (FixedConsumption (FixedConsumptionPolicy_init dcp dcnp freq ssp ssnp)) = Inr freq"
  "get_frequency (FixedConsumption (FixedConsumptionPolicy_init dcp dcnp freq ssp ssnp)) = Inr freq"
  "get_days_until_next_order (AdaptiveOrderPolicy_init base_policy delta) = Inr (frequency base_policy)"
  "get_frequency (AdaptiveOrderPolicy_init base_policy delta) = Inr (frequency base_policy)"
  "get_days_until_next_order (HistoricalConsumptionPolicy_init base_policy) = Inl AttributeError"
  by (simp_all add: get_days_until_next_order_def get_frequency_def FixedConsumptionPolicy_init_def
        AdaptiveOrderPolicy_init_def HistoricalConsumptionPolicy_init_def)

lemma adaptive_step:
  "\<exists>r hh' h' rng'. daily_step adaptive_household [] rng0 = Some (Inr (r, hh', h', rng'))
      \<and> get_days_until_next_order (order_policy hh') = Inr 6"
  by (simp add: adaptive_household_def historical_household_def household_eval_defs AdaptiveOrderPolicy_init_def)






text \<open>
  Claim C2. A \<open>HistoricalConsumptionPolicy\<close> has no \<open>days_until_next_order\<close> after
  construction, where an \<open>AdaptiveOrderPolicy\<close> built from the same base policy has it equal
  to the frequency 7; and the first \<open>daily_step\<close> of a household with the historical policy,
  an empty pantry and a week of days without meals raises \<open>AttributeError\<close> where it decrements
  the counter.
\<close>

theorem daily_step_Historical_raises:
  "get_days_until_next_order (HistoricalConsumptionPolicy_init (FixedConsumptionPolicy_init 1 1 7 0 0))
     = Inl AttributeError
   \<and> get_days_until_next_order (AdaptiveOrderPolicy_init (FixedConsumptionPolicy_init 1 1 7 0 0) (196 / 100))
     = Inr 7
   \<and> daily_step historical_household [] rng0 = Some (Inl AttributeError)"
  by (simp add: historical_household_def household_eval_defs AdaptiveOrderPolicy_init_def)

end
